theory Spec2Isabelle
  imports Complex_Main "HOL-Library.AList"
begin

section \<open>JavaScript values, errors and strings\<close>

text \<open>
  A thrown JavaScript exception is a value of \<open>js_error\<close>; a function that may throw
  returns \<open>js_error + 'a\<close> with \<open>Inl\<close> for the exception. The first three constructors
  are the classes of error the executor can meet (all are instances of \<open>Error\<close> and
  carry a message); \<open>NonError\<close> is a thrown value that is not an instance of \<open>Error\<close>,
  with its rendering as a string. The message of a \<open>TypeError\<close> raised by the engine
  itself is engine specific; the model carries a description of the failing access
  instead.

  Strings are lists of code units. An argument or field that is \<open>undefined\<close> (or
  \<open>null\<close>) is \<open>None\<close>.
\<close>

datatype js_error = Error string | TypeError string | SyntaxError string | NonError string

fun message :: "js_error \<Rightarrow> string" where
  "message (Error m) = m"
| "message (TypeError m) = m"
| "message (SyntaxError m) = m"
| "message (NonError m) = m"

text \<open>\<open>`${x}`\<close> inside a template literal.\<close>

fun str_of :: "string option \<Rightarrow> string" where
  "str_of None = ''undefined''"
| "str_of (Some s) = s"

text \<open>JavaScript truthiness of a string-or-undefined value: the empty string is falsy.\<close>

fun truthy :: "string option \<Rightarrow> bool" where
  "truthy None = False"
| "truthy (Some s) = (s \<noteq> [])"

text \<open>\<open>String.prototype.split\<close> with a one-character separator.\<close>

fun split_on :: "char \<Rightarrow> string \<Rightarrow> string list" where
  "split_on c [] = [[]]"
| "split_on c (x # xs) =
     (if x = c then [] # split_on c xs
      else (case split_on c xs of
              [] \<Rightarrow> [[x]]
            | w # ws \<Rightarrow> (x # w) # ws))"

text \<open>\<open>Array.prototype.join\<close>.\<close>

fun join :: "string \<Rightarrow> string list \<Rightarrow> string" where
  "join sep [] = []"
| "join sep [x] = x"
| "join sep (x # y # ys) = x @ sep @ join sep (y # ys)"

text \<open>The decimal rendering of a non-negative integer (\<open>`${Date.now()}`\<close>, \<open>`${s.length}`\<close>).\<close>

definition digit_char :: "nat \<Rightarrow> char" where
  "digit_char d = ''0123456789'' ! d"

fun show_nat :: "nat \<Rightarrow> string" where
  "show_nat n = (if n < 10 then [digit_char n] else show_nat (n div 10) @ [digit_char (n mod 10)])"

declare show_nat.simps [simp del]

text \<open>Reading a decimal numeral back, to show that the rendering loses nothing.\<close>

definition read_nat :: "string \<Rightarrow> nat" where
  "read_nat s = foldl (\<lambda>a c. 10 * a + (of_char c - 48)) 0 s"

definition is_alnum :: "char \<Rightarrow> bool" where
  "is_alnum c \<longleftrightarrow>
     (let k = of_char c :: nat in (48 \<le> k \<and> k \<le> 57) \<or> (65 \<le> k \<and> k \<le> 90) \<or> (97 \<le> k \<and> k \<le> 122))"

text \<open>\<open>s.replace(/[^a-zA-Z0-9]/g, '_')\<close>.\<close>

definition sanitize :: "string \<Rightarrow> string" where
  "sanitize s = map (\<lambda>c. if is_alnum c then c else CHR ''_'') s"

text \<open>
  White space as \<open>\\s\<close> and \<open>trim\<close> see it, among the code units a \<open>char\<close> holds (those
  below 256): tab, line feed, vertical tab, form feed, carriage return, space and the
  no-break space.
\<close>

definition is_space :: "char \<Rightarrow> bool" where
  "is_space c \<longleftrightarrow> (let k = of_char c :: nat in (9 \<le> k \<and> k \<le> 13) \<or> k = 32 \<or> k = 160)"

definition trim :: "string \<Rightarrow> string" where
  "trim s = rev (dropWhile is_space (rev (dropWhile is_space s)))"

text \<open>\<open>s.startsWith(p)\<close>.\<close>

fun startsWith :: "string \<Rightarrow> string \<Rightarrow> bool" where
  "startsWith s [] = True"
| "startsWith [] (p # ps) = False"
| "startsWith (c # cs) (p # ps) = (c = p \<and> startsWith cs ps)"

text \<open>\<open>(s.match(/c/g) || []).length\<close> for a one-character pattern.\<close>

definition count_char :: "char \<Rightarrow> string \<Rightarrow> nat" where
  "count_char c s = length (filter (\<lambda>x. x = c) s)"

text \<open>\<open>toUpperCase\<close> on the letters \<open>a\<close> to \<open>z\<close>.\<close>

definition toUpperCase :: "string \<Rightarrow> string" where
  "toUpperCase s =
     map (\<lambda>c. let k = of_char c :: nat in if 97 \<le> k \<and> k \<le> 122 then char_of (k - 32) else c) s"

text \<open>\<open>s.replace(/[:.]/g, '-')\<close>.\<close>

definition dash_colons :: "string \<Rightarrow> string" where
  "dash_colons s = map (\<lambda>c. if c = CHR '':'' \<or> c = CHR ''.'' then CHR ''-'' else c) s"

section \<open>The audit log and the world\<close>

text \<open>
  The mind map: nodes and links as the executor builds them. \<open>name\<close>, \<open>content\<close> and
  \<open>type\<close> of a node come from loosely typed tool arguments and may be \<open>undefined\<close>.
  A link's endpoints are node ids (strings), as they are in every stored snapshot.
\<close>

record MindMapNode =
  n_id :: string
  n_name :: "string option"
  n_type :: "string option"
  n_content :: "string option"
  n_source :: string
  n_createdAt :: string
  n_updatedAt :: string
  n_linkedFile :: "string option"

record MindMapLink =
  l_source :: string
  l_target :: string
  l_type :: "string option"
  l_strength :: rat
  l_label :: "string option"

record MindMapData =
  nodes :: "MindMapNode list"
  links :: "MindMapLink list"

text \<open>
  The virtual file system: an object that maps names to nodes. The model of such an
  object is the list of its own entries, in insertion order, and its prototype. The
  prototype is \<open>Object.prototype\<close>, as for every object literal and every object that
  \<open>JSON.parse\<close> builds, until a value is assigned to the object under the name
  \<open>__proto__\<close> while it has no entry of that name: such an assignment adds no entry, it
  makes the assigned value the prototype. The one assignment of the executor that can
  do so is that of the file object in \<open>writeFileToVFS\<close>, so a prototype other than
  \<open>Object.prototype\<close> is a file object, kept by its content. A folder is
  \<open>{type: 'folder', children}\<close> with \<open>children\<close> such an object, a file is
  \<open>{type: 'file', content}\<close>.
\<close>

datatype prototype = ObjectPrototype | FilePrototype string

datatype VFSNode = VFSFolder "(string \<times> VFSNode) list" prototype | VFSFile string

type_synonym VirtualFileSystem = "(string \<times> VFSNode) list \<times> prototype"

type_synonym tool_args = "(string \<times> string) list"

text \<open>
  The payloads \<open>auditLogService.logEvent\<close> is called with: a \<open>STATE_CHANGE\<close> event
  carries a domain, an action and details; an \<open>AGENT_ACTION\<close> event carries the tool
  name, the arguments and the outcome.
\<close>

datatype audit_details =
    PathContentLength string nat
  | PathOnly string
  | NodeOnly MindMapNode
  | NodeChange string string
  | MergedIds "string list" MindMapNode
  | Relinked "string option" "string option"
  | NodeAndLink MindMapNode MindMapLink
  | LinkOnly MindMapLink

datatype audit_event =
    STATE_CHANGE string string audit_details
  | AGENT_ACTION string "tool_args option" string

text \<open>
  A request to the generative service: the model, the parts of its one content and the
  configuration. The response carries a text and, for the image models, image data.
\<close>

datatype gen_part = TextPart "string option" | InlineData "string option" string

datatype gen_config = NoConfig | GoogleSearch | Temperature rat | JsonSchema | ImageModality

record gen_payload =
  p_model :: string
  p_parts :: "gen_part list"
  p_config :: gen_config

record gen_response =
  r_text :: string
  r_image :: "string option"

datatype request_status = pending | succeeded | failed

record queued_request =
  q_payload :: gen_payload
  q_agentLabel :: string
  q_model :: string
  q_status :: request_status
  q_error :: "string option"
  q_resultSummary :: "string option"

text \<open>
  The state every call may change: the audit log and the request queue's record of the
  requests it admitted. Both only grow.
\<close>

record world =
  audit :: "audit_event list"
  queue :: "queued_request list"

text \<open>
  Modelled from the spec: \<open>auditLogService.logEvent\<close> (services/auditLogService is not
  among the sources). The audit log is an append-only, process-wide event sink; logging
  appends one event and does not throw.
\<close>

definition logEvent :: "audit_event \<Rightarrow> world \<Rightarrow> world" where
  "logEvent e w = w\<lparr>audit := audit w @ [e]\<rparr>"

text \<open>
  What a call reads from outside the executor: whether the two module-level clients were
  initialised, the clock, the generative service, the sub-agent service, and the
  built-in \<open>JSON.stringify\<close> and \<open>JSON.parse\<close>.
  \<open>date_now k\<close> is the value of the \<open>k\<close>-th \<open>Date.now()\<close> of the call (the refinement
  loop reads it once per operation, every other tool at most once);
  \<open>complete k p\<close> is the service's answer to the payload \<open>p\<close> when \<open>k\<close> requests were
  admitted before it.
\<close>

record refine_op =
  operation :: string
  node_id_to_update :: "string option"
  new_content :: "string option"
  nodes_to_merge :: "string list option"
  merged_node_name :: "string option"
  merged_node_content :: "string option"
  node_to_relink :: "string option"
  new_parent_id :: "string option"

record env =
  ai_ready :: bool
  service_ai_ready :: bool
  iso_now :: string
  locale_now :: string
  date_now :: "nat \<Rightarrow> nat"
  complete :: "nat \<Rightarrow> gen_payload \<Rightarrow> js_error + gen_response"
  summarise :: "gen_response \<Rightarrow> string"
  invokeSubAgent :: "string \<Rightarrow> string option \<Rightarrow> string option \<Rightarrow> string \<Rightarrow> js_error + string"
  stringify_node :: "MindMapNode \<Rightarrow> string"
  stringify_map :: "MindMapData \<Rightarrow> string"
  stringify_ids :: "MindMapNode list \<Rightarrow> string"
  parse_operations :: "string \<Rightarrow> js_error + refine_op list option"

text \<open>
  Modelled from the spec: \<open>enqueueGeminiRequest\<close> (services/apiQueue is not among the
  sources). Every call records one Queued Request, which reaches \<open>succeeded\<close> (with a
  result summary) or \<open>failed\<close> (with the error text) before the call returns or throws;
  the queue does not retry.
\<close>

definition enqueueGeminiRequest ::
  "env \<Rightarrow> gen_payload \<Rightarrow> string \<Rightarrow> string \<Rightarrow> world \<Rightarrow> (js_error + gen_response) \<times> world" where
  "enqueueGeminiRequest env payload agentName model w =
     (case complete env (length (queue w)) payload of
        Inl e \<Rightarrow>
          (Inl e, w\<lparr>queue := queue w @
             [\<lparr>q_payload = payload, q_agentLabel = agentName, q_model = model,
               q_status = failed, q_error = Some (message e), q_resultSummary = None\<rparr>]\<rparr>)
      | Inr r \<Rightarrow>
          (Inr r, w\<lparr>queue := queue w @
             [\<lparr>q_payload = payload, q_agentLabel = agentName, q_model = model,
               q_status = succeeded, q_error = None, q_resultSummary = Some (summarise env r)\<rparr>]\<rparr>))"

section \<open>Tool results\<close>

record ToolResult =
  result :: string
  newMindMapData :: "MindMapData option"
  newVirtualFileSystem :: "VirtualFileSystem option"
  terminalOutput :: "(string \<times> string) list option"
  generatedImage :: "(string \<times> string) option"
  filePathHandled :: "string option"
  commitMessage :: "string option"
  taskStatusUpdate :: "(string option \<times> string option) option"

text \<open>The object \<open>{ result }\<close>, and the object \<open>{ newMindMapData, result }\<close>.\<close>

definition result_only :: "string \<Rightarrow> ToolResult" where
  "result_only r =
     \<lparr>result = r, newMindMapData = None, newVirtualFileSystem = None, terminalOutput = None,
      generatedImage = None, filePathHandled = None, commitMessage = None,
      taskStatusUpdate = None\<rparr>"

definition map_result :: "MindMapData \<Rightarrow> string \<Rightarrow> ToolResult" where
  "map_result g r = (result_only r)\<lparr>newMindMapData := Some g\<rparr>"

section \<open>VFS path helpers\<close>

definition resolvePath :: "string \<Rightarrow> string list" where
  "resolvePath path = filter (\<lambda>p. p \<noteq> [] \<and> p \<noteq> ''.'') (split_on CHR ''/'' path)"

text \<open>
  What a property read on an object of the file system can give besides a node: a
  string, or one of the values that \<open>Object.prototype\<close> holds, named by its property
  (a built-in function, and \<open>Object.prototype\<close> itself for \<open>__proto__\<close>). All these are
  truthy but the empty string.
\<close>

datatype js_value = Node VFSNode | Str string | Builtin string

fun truthy_value :: "js_value \<Rightarrow> bool" where
  "truthy_value (Node n) = True"
| "truthy_value (Str s) = (s \<noteq> [])"
| "truthy_value (Builtin name) = True"

text \<open>The names of the properties of \<open>Object.prototype\<close>.\<close>

definition object_prototype_names :: "string list" where
  "object_prototype_names =
     [''constructor'', ''__defineGetter__'', ''__defineSetter__'', ''hasOwnProperty'',
      ''__lookupGetter__'', ''__lookupSetter__'', ''isPrototypeOf'', ''propertyIsEnumerable'',
      ''toString'', ''valueOf'', ''__proto__'', ''toLocaleString'']"

text \<open>
  \<open>obj[name]\<close>: the entry of the object itself if it has one of that name, and what its
  prototype chain gives otherwise. A file object as prototype gives its \<open>type\<close> and its
  \<open>content\<close>, itself for \<open>__proto__\<close>, and what \<open>Object.prototype\<close> holds for its other
  names. \<open>None\<close> is \<open>undefined\<close>.
\<close>

definition inherited :: "prototype \<Rightarrow> string \<Rightarrow> js_value option" where
  "inherited p name =
     (case p of
        ObjectPrototype \<Rightarrow>
          if name \<in> set object_prototype_names then Some (Builtin name) else None
      | FilePrototype content \<Rightarrow>
          if name = ''type'' then Some (Str ''file'')
          else if name = ''content'' then Some (Str content)
          else if name = ''__proto__'' then Some (Node (VFSFile content))
          else if name \<in> set object_prototype_names then Some (Builtin name) else None)"

definition read_property :: "VirtualFileSystem \<Rightarrow> string \<Rightarrow> js_value option" where
  "read_property obj name =
     (case map_of (fst obj) name of
        Some n \<Rightarrow> Some (Node n)
      | None \<Rightarrow> inherited (snd obj) name)"

text \<open>
  Reading \<open>current.type\<close>, and reading \<open>current.children[part]\<close>: only a folder has
  \<open>children\<close>, so indexing the \<open>children\<close> of anything else throws a \<open>TypeError\<close>.
\<close>

fun type_of :: "js_value \<Rightarrow> string option" where
  "type_of (Node (VFSFolder ch p)) = Some ''folder''"
| "type_of (Node (VFSFile c)) = Some ''file''"
| "type_of (Str s) = None"
| "type_of (Builtin name) = None"

fun children_at :: "js_value \<Rightarrow> string \<Rightarrow> js_error + js_value option" where
  "children_at (Node (VFSFolder ch p)) part = Inr (read_property (ch, p) part)"
| "children_at (Node (VFSFile c)) part = Inl (TypeError ''cannot read properties of undefined'')"
| "children_at (Str s) part = Inl (TypeError ''cannot read properties of undefined'')"
| "children_at (Builtin name) part = Inl (TypeError ''cannot read properties of undefined'')"

text \<open>
  The \<open>for\<close> loop of \<open>getNodeFromPath\<close>, from the value \<open>current\<close>, and the function: it
  starts from \<open>{type: 'folder', children: vfs}\<close>.
\<close>

fun getNode_loop :: "js_value \<Rightarrow> string list \<Rightarrow> js_error + js_value option" where
  "getNode_loop current [] = Inr (Some current)"
| "getNode_loop current (part # parts) =
     (if type_of current = Some ''folder'' then
        (case children_at current part of
           Inl e \<Rightarrow> Inl e
         | Inr None \<Rightarrow> Inr None
         | Inr (Some child) \<Rightarrow>
             if truthy_value child then getNode_loop child parts else Inr None)
      else Inr None)"

definition getNodeFromPath :: "VirtualFileSystem \<Rightarrow> string \<Rightarrow> js_error + js_value option" where
  "getNodeFromPath vfs path =
     getNode_loop (Node (VFSFolder (fst vfs) (snd vfs))) (resolvePath path)"

text \<open>
  \<open>JSON.parse(JSON.stringify(vfs))\<close>: the copy has the own entries of the original, each
  copied in turn, and every object of the copy has \<open>Object.prototype\<close> as its prototype.
\<close>

primrec clone_node :: "VFSNode \<Rightarrow> VFSNode" where
  "clone_node (VFSFolder ch p) = VFSFolder (map (map_prod id clone_node) ch) ObjectPrototype"
| "clone_node (VFSFile c) = VFSFile c"

definition clone_vfs :: "VirtualFileSystem \<Rightarrow> VirtualFileSystem" where
  "clone_vfs vfs = (map (map_prod id clone_node) (fst vfs), ObjectPrototype)"

text \<open>
  \<open>ensureDirectoryExists\<close> works on a deep copy of its input and returns the copy. The
  loop descends along the path inside the copy; here it rebuilds the objects on the path.
  \<open>current[part]\<close> is read with the prototype chain. When it is falsy the folder is
  assigned: the name is then not \<open>__proto__\<close>, which never reads falsy, so the assignment
  adds an entry at the end of the object. A truthy \<open>current[part]\<close> whose \<open>type\<close> is not
  \<open>'folder'\<close> (a file, or an inherited value) throws. The function has no call of
  \<open>logEvent\<close>: it hands the world back as it got it. \<open>put_folder part children current\<close>
  is \<open>current\<close> with the folder of these \<open>children\<close> under \<open>part\<close>.
\<close>

definition put_folder :: "string \<Rightarrow> VirtualFileSystem \<Rightarrow> VirtualFileSystem \<Rightarrow> VirtualFileSystem" where
  "put_folder part children current =
     (AList.update part (VFSFolder (fst children) (snd children)) (fst current), snd current)"

fun ensureDir_loop :: "string list \<Rightarrow> VirtualFileSystem \<Rightarrow> js_error + VirtualFileSystem" where
  "ensureDir_loop [] current = Inr current"
| "ensureDir_loop (part # parts) current =
     (case read_property current part of
        None \<Rightarrow> map_sum id (\<lambda>sub. put_folder part sub current)
                 (ensureDir_loop parts ([], ObjectPrototype))
      | Some v \<Rightarrow>
          if \<not> truthy_value v then
            map_sum id (\<lambda>sub. put_folder part sub current)
              (ensureDir_loop parts ([], ObjectPrototype))
          else
            (case v of
               Node (VFSFolder ch p) \<Rightarrow>
                 map_sum id (\<lambda>sub. put_folder part sub current) (ensureDir_loop parts (ch, p))
             | _ \<Rightarrow>
                 Inl (Error (''Cannot create directory: a component of the path '' @ [CHR 0x27]
                             @ part @ [CHR 0x27] @ '' is not a directory.''))))"

definition ensureDirectoryExists ::
  "VirtualFileSystem \<Rightarrow> string \<Rightarrow> world \<Rightarrow> (js_error + VirtualFileSystem) \<times> world" where
  "ensureDirectoryExists vfs path w = (ensureDir_loop (resolvePath path) (clone_vfs vfs), w)"

text \<open>
  \<open>current[filename] = {type: 'file', content}\<close>: under the name \<open>__proto__\<close>, on an object
  with no entry of that name, the file object becomes the prototype of the object;
  otherwise the entry of that name is replaced, or added at the end.
\<close>

definition assign_entry :: "string \<Rightarrow> string \<Rightarrow> VirtualFileSystem \<Rightarrow> VirtualFileSystem" where
  "assign_entry filename content current =
     (if filename = ''__proto__'' \<and> map_of (fst current) filename = None then
        (fst current, FilePrototype content)
      else (AList.update filename (VFSFile content) (fst current), snd current))"

text \<open>
  The second loop of \<open>writeFileToVFS\<close>: descend through \<open>pathParts\<close> and assign the file.
  Descending through a name that reads as anything but a folder comes to reading or
  setting a property of \<open>undefined\<close>, and throws.
\<close>

fun assign_file :: "string list \<Rightarrow> string \<Rightarrow> string \<Rightarrow> VirtualFileSystem \<Rightarrow> js_error + VirtualFileSystem" where
  "assign_file [] filename content current = Inr (assign_entry filename content current)"
| "assign_file (part # parts) filename content current =
     (case read_property current part of
        Some (Node (VFSFolder ch p)) \<Rightarrow>
          map_sum id (\<lambda>sub. put_folder part sub current)
            (assign_file parts filename content (ch, p))
      | _ \<Rightarrow> Inl (TypeError ''cannot read properties of undefined''))"

definition writeFileToVFS ::
  "VirtualFileSystem \<Rightarrow> string \<Rightarrow> string \<Rightarrow> world \<Rightarrow> (js_error + VirtualFileSystem) \<times> world" where
  "writeFileToVFS vfs path content w =
     (let parts = resolvePath path in
      if parts = [] then (Inl (Error (''Invalid file path provided: \"'' @ path @ ''\"'')), w)
      else
        let filename = last parts;
            pathParts = butlast parts;
            dirPath = join ''/'' pathParts
        in (case ensureDirectoryExists vfs dirPath w of
              (Inl e, w1) \<Rightarrow> (Inl e, w1)
            | (Inr vfsWithDir, w1) \<Rightarrow>
                (case assign_file pathParts filename content vfsWithDir of
                   Inl e \<Rightarrow> (Inl e, w1)
                 | Inr newVFS \<Rightarrow>
                     (Inr newVFS,
                      logEvent (STATE_CHANGE ''VFS'' ''WRITE_FILE''
                                  (PathContentLength path (length content))) w1))))"

section \<open>Mind map tools\<close>

text \<open>
  Every tool below starts from \<open>JSON.parse(JSON.stringify(mindMap))\<close>, a deep copy with
  the same content, and changes the copy. \<open>update_first P f xs\<close> is
  \<open>const x = xs.find(P); if (x) { ... assignments f ... }\<close> on the copy.
\<close>

fun update_first :: "('a \<Rightarrow> bool) \<Rightarrow> ('a \<Rightarrow> 'a) \<Rightarrow> 'a list \<Rightarrow> 'a list" where
  "update_first P f [] = []"
| "update_first P f (x # xs) = (if P x then f x # xs else x # update_first P f xs)"

text \<open>\<open>nodes.some(n => n.id === x)\<close>, where \<open>x\<close> may be \<open>undefined\<close>.\<close>

fun node_exists :: "string option \<Rightarrow> MindMapNode list \<Rightarrow> bool" where
  "node_exists None ns = False"
| "node_exists (Some i) ns = list_ex (\<lambda>n. n_id n = i) ns"

text \<open>\<open>a ?? b\<close>.\<close>

fun nullish :: "'a option \<Rightarrow> 'a option \<Rightarrow> 'a option" where
  "nullish None b = b"
| "nullish (Some a) b = Some a"

definition get_node_details :: "env \<Rightarrow> string option \<Rightarrow> MindMapData \<Rightarrow> string" where
  "get_node_details env node_id mindMap =
     (case (case node_id of None \<Rightarrow> None | Some i \<Rightarrow> find (\<lambda>n. n_id n = i) (nodes mindMap)) of
        None \<Rightarrow> ''Error: Node with ID \"'' @ str_of node_id @ ''\" not found.''
      | Some node \<Rightarrow> stringify_node env node)"

text \<open>The id a create-call of \<open>upsert_mind_map_node\<close> gives the new node.\<close>

definition new_node_id :: "string \<Rightarrow> nat \<Rightarrow> string" where
  "new_node_id name ms = take 20 (sanitize name) @ ''_'' @ show_nat ms"

definition upsert_mind_map_node ::
  "env \<Rightarrow> tool_args option \<Rightarrow> MindMapData \<Rightarrow> world \<Rightarrow> (js_error + ToolResult) \<times> world" where
  "upsert_mind_map_node env args mindMap w =
     (case args of
        None \<Rightarrow> (Inl (TypeError ''cannot destructure undefined''), w)
      | Some a \<Rightarrow>
          let node_id = map_of a ''node_id''; name = map_of a ''name'';
              content = map_of a ''content''; node_type = map_of a ''node_type'';
              parent_node_id = map_of a ''parent_node_id'';
              now = iso_now env
          in if truthy node_id then
               (case find (\<lambda>n. Some (n_id n) = node_id) (nodes mindMap) of
                  None \<Rightarrow>
                    (Inr (map_result mindMap
                       (''Error: Node with ID \"'' @ str_of node_id @ ''\" not found for update.'')), w)
                | Some found \<Rightarrow>
                    let nodeToUpdate = found
                          \<lparr>n_name := nullish name (n_name found),
                           n_type := nullish node_type (n_type found),
                           n_content := nullish content (n_content found),
                           n_updatedAt := now\<rparr>;
                        newNodes = update_first (\<lambda>n. Some (n_id n) = node_id) (\<lambda>n. nodeToUpdate)
                                     (nodes mindMap);
                        newLinks =
                          (if truthy parent_node_id then
                             update_first
                               (\<lambda>l. Some (l_target l) = node_id \<and> l_type l = Some ''HIERARCHICAL'')
                               (\<lambda>l. l\<lparr>l_source := str_of parent_node_id\<rparr>) (links mindMap)
                           else links mindMap)
                    in (Inr (map_result \<lparr>nodes = newNodes, links = newLinks\<rparr>
                          (''Successfully updated node \"'' @ str_of (n_name nodeToUpdate) @ ''\".'')),
                        logEvent (STATE_CHANGE ''MIND_MAP'' ''UPDATE_NODE'' (NodeOnly nodeToUpdate)) w))
             else if \<not> truthy parent_node_id \<or> \<not> node_exists parent_node_id (nodes mindMap) then
               (Inr (map_result mindMap
                  ''Error: Valid parent_node_id is required to create a new node.''), w)
             else
               (case name of
                  None \<Rightarrow> (Inl (TypeError ''cannot read properties of undefined''), w)
                | Some nm \<Rightarrow>
                    let newNodeId = new_node_id nm (date_now env 0);
                        newNode = \<lparr>n_id = newNodeId, n_name = Some nm, n_type = node_type,
                                   n_content = content, n_source = ''AGENT_ACTION'',
                                   n_createdAt = now, n_updatedAt = now, n_linkedFile = None\<rparr>;
                        newLink = \<lparr>l_source = str_of parent_node_id, l_target = newNodeId,
                                   l_type = Some ''HIERARCHICAL'', l_strength = 9 / 10,
                                   l_label = None\<rparr>
                    in (Inr (map_result
                          \<lparr>nodes = nodes mindMap @ [newNode], links = links mindMap @ [newLink]\<rparr>
                          (''Successfully created and linked new node \"'' @ nm @ ''\".'')),
                        logEvent (STATE_CHANGE ''MIND_MAP'' ''CREATE_NODE''
                                    (NodeAndLink newNode newLink)) w)))"

definition create_mind_map_link ::
  "tool_args option \<Rightarrow> MindMapData \<Rightarrow> world \<Rightarrow> (js_error + ToolResult) \<times> world" where
  "create_mind_map_link args mindMap w =
     (case args of
        None \<Rightarrow> (Inl (TypeError ''cannot destructure undefined''), w)
      | Some a \<Rightarrow>
          let source_node_id = map_of a ''source_node_id'';
              target_node_id = map_of a ''target_node_id'';
              link_type = map_of a ''link_type''; label = map_of a ''label'';
              sourceExists = node_exists source_node_id (nodes mindMap);
              targetExists = node_exists target_node_id (nodes mindMap)
          in if \<not> sourceExists \<or> \<not> targetExists then
               (Inr (map_result mindMap
                  ''Error: Both source and target nodes must exist to create a link.''), w)
             else
               let newLink = \<lparr>l_source = str_of source_node_id, l_target = str_of target_node_id,
                              l_type = link_type, l_strength = 7 / 10, l_label = label\<rparr>
               in (Inr (map_result (mindMap\<lparr>links := links mindMap @ [newLink]\<rparr>)
                     (''Successfully created a '' @ str_of link_type @ '' link between ''
                      @ str_of source_node_id @ '' and '' @ str_of target_node_id @ ''.'')),
                   logEvent (STATE_CHANGE ''MIND_MAP'' ''CREATE_LINK'' (LinkOnly newLink)) w))"

text \<open>
  The \<open>MERGE_NODES\<close> case of the refinement loop, for a list of ids that has passed the
  length check: \<open>now\<close> is the loop's ISO time, \<open>ms\<close> the case's \<open>Date.now()\<close>. It returns
  the new map, the line it adds to the summary, and the world.
\<close>

definition merge_parent :: "string list \<Rightarrow> MindMapData \<Rightarrow> string" where
  "merge_parent nodesToMergeIds m =
     (case find (\<lambda>l. l_target l \<in> set nodesToMergeIds) (links m) of
        Some firstParentLink \<Rightarrow> l_source firstParentLink
      | None \<Rightarrow> ''Persona Core'')"

definition merged_node :: "string \<Rightarrow> nat \<Rightarrow> string option \<Rightarrow> string option \<Rightarrow> MindMapNode" where
  "merged_node now ms merged_name merged_content =
     \<lparr>n_id = ''merged_'' @ show_nat ms, n_name = merged_name,
      n_type = Some ''ABSTRACT_CONCEPT'', n_content = merged_content,
      n_source = ''SYSTEM_REFINEMENT'', n_createdAt = now, n_updatedAt = now,
      n_linkedFile = None\<rparr>"

definition merge_nodes ::
  "string \<Rightarrow> nat \<Rightarrow> string list \<Rightarrow> string option \<Rightarrow> string option \<Rightarrow> MindMapData \<Rightarrow> world
   \<Rightarrow> MindMapData \<times> string \<times> world" where
  "merge_nodes now ms nodesToMergeIds merged_name merged_content newMindMap w =
     (let parentNodeId = merge_parent nodesToMergeIds newMindMap;
          newNode = merged_node now ms merged_name merged_content;
          pushedNodes = nodes newMindMap @ [newNode];
          pushedLinks = links newMindMap @
            [\<lparr>l_source = parentNodeId, l_target = n_id newNode, l_type = Some ''HIERARCHICAL'',
              l_strength = 8 / 10, l_label = None\<rparr>]
      in (\<lparr>nodes = filter (\<lambda>n. n_id n \<notin> set nodesToMergeIds) pushedNodes,
           links = filter (\<lambda>l. l_target l \<notin> set nodesToMergeIds \<and> l_source l \<notin> set nodesToMergeIds)
                     pushedLinks\<rparr>,
          ''Merged '' @ show_nat (length nodesToMergeIds) @ '' nodes into: '' @ str_of merged_name,
          logEvent (STATE_CHANGE ''MIND_MAP'' ''MERGE_NODES'' (MergedIds nodesToMergeIds newNode)) w))"

text \<open>
  One turn of the refinement loop, \<open>try\<close> and \<open>catch\<close> included: an operation whose
  \<open>nodes_to_merge\<close> is missing throws on \<open>.length\<close> before anything is changed, and the
  \<open>catch\<close> only prints. The state is the map, the summary and the world.
\<close>

definition refine_step ::
  "string \<Rightarrow> nat \<Rightarrow> refine_op \<Rightarrow> MindMapData \<times> string list \<times> world \<Rightarrow> MindMapData \<times> string list \<times> world" where
  "refine_step now ms op st =
     (case st of (newMindMap, summary, w) \<Rightarrow>
        if operation op = ''UPDATE_NODE_CONTENT'' then
          (case (case node_id_to_update op of None \<Rightarrow> None
                 | Some i \<Rightarrow> find (\<lambda>n. n_id n = i) (nodes newMindMap)) of
             None \<Rightarrow> st
           | Some node \<Rightarrow>
               (newMindMap\<lparr>nodes := update_first (\<lambda>n. Some (n_id n) = node_id_to_update op)
                                      (\<lambda>n. n\<lparr>n_content := new_content op, n_updatedAt := now\<rparr>)
                                      (nodes newMindMap)\<rparr>,
                summary @ [''Updated content for node: '' @ str_of (n_name node)],
                logEvent (STATE_CHANGE ''MIND_MAP'' ''UPDATE_NODE'' (NodeChange (n_id node) ''content'')) w))
        else if operation op = ''MERGE_NODES'' then
          (case nodes_to_merge op of
             None \<Rightarrow> st
           | Some nodesToMergeIds \<Rightarrow>
               if length nodesToMergeIds < 2 then st
               else (case merge_nodes now ms nodesToMergeIds (merged_node_name op)
                            (merged_node_content op) newMindMap w of
                       (m', line, w') \<Rightarrow> (m', summary @ [line], w')))
        else if operation op = ''RELINK_NODE'' then
          (if list_ex (\<lambda>l. Some (l_target l) = node_to_relink op \<and> l_type l = Some ''HIERARCHICAL'')
                (links newMindMap)
              \<and> node_exists (new_parent_id op) (nodes newMindMap) then
             (newMindMap\<lparr>links := update_first
                                     (\<lambda>l. Some (l_target l) = node_to_relink op \<and>
                                          l_type l = Some ''HIERARCHICAL'')
                                     (\<lambda>l. l\<lparr>l_source := str_of (new_parent_id op)\<rparr>)
                                     (links newMindMap)\<rparr>,
              summary @ [''Relinked '' @ str_of (node_to_relink op) @ '' under ''
                         @ str_of (new_parent_id op)],
              logEvent (STATE_CHANGE ''MIND_MAP'' ''RELINK_NODE''
                          (Relinked (node_to_relink op) (new_parent_id op))) w)
           else st)
        else st)"

text \<open>The loop: operation number \<open>k\<close> reads \<open>date_now env k\<close>.\<close>

fun refine_loop ::
  "env \<Rightarrow> nat \<Rightarrow> refine_op list \<Rightarrow> MindMapData \<times> string list \<times> world \<Rightarrow> MindMapData \<times> string list \<times> world" where
  "refine_loop env k [] st = st"
| "refine_loop env k (op # ops) st =
     refine_loop env (Suc k) ops (refine_step (iso_now env) (date_now env k) op st)"

definition refinePayload :: "env \<Rightarrow> string \<Rightarrow> MindMapData \<Rightarrow> gen_payload" where
  "refinePayload env modelName mindMap =
     \<lparr>p_model = modelName,
      p_parts = [TextPart (Some (''Analyze the following knowledge graph. Identify opportunities to improve its structure (merge redundant nodes, improve content, relink for better consistency). Return a list of specific operations.''
                 @ [CHR 0x0A] @ ''Current Graph Nodes:'' @ [CHR 0x0A]
                 @ stringify_ids env (nodes mindMap)))],
      p_config = JsonSchema\<rparr>"

definition refine_mind_map ::
  "env \<Rightarrow> string \<Rightarrow> MindMapData \<Rightarrow> world \<Rightarrow> (js_error + ToolResult) \<times> world" where
  "refine_mind_map env modelName mindMap w =
     (if \<not> ai_ready env then (Inl (Error ''Executor AI client not initialized.''), w)
      else
        (case enqueueGeminiRequest env (refinePayload env modelName mindMap)
                ''Persona Agent (Tool: refine_mind_map)'' modelName w of
           (Inl e, w1) \<Rightarrow> (Inl e, w1)
         | (Inr response, w1) \<Rightarrow>
             (case parse_operations env (r_text response) of
                Inl e \<Rightarrow> (Inl e, w1)
              | Inr parsed \<Rightarrow>
                  let operations = (case parsed of None \<Rightarrow> [] | Some ops \<Rightarrow> ops)
                  in (case refine_loop env 0 operations (mindMap, [], w1) of
                        (newMindMap, summary, w2) \<Rightarrow>
                          (Inr (map_result newMindMap
                             (if summary \<noteq> [] then
                                ''Mind map refined. Changes: '' @ join '', '' summary @ ''.''
                              else ''Mind map analyzed. No structural refinements necessary.'')),
                           w2)))))"

definition transcend ::
  "env \<Rightarrow> string \<Rightarrow> string option \<Rightarrow> MindMapData \<Rightarrow> world \<Rightarrow> (js_error + ToolResult) \<times> world" where
  "transcend env modelName inquiry mindMap w =
     (if \<not> ai_ready env then (Inl (Error ''Executor AI client not initialized.''), w)
      else
        let model = (if modelName = ''gemini-2.5-flash'' then ''gemini-2.5-pro'' else modelName);
            requestPayload =
              \<lparr>p_model = model,
               p_parts = [TextPart (Some (''You are in a state of deep meditation. Your entire consciousness, represented by the knowledge graph below, is available for introspection. Your task is to achieve a conceptual breakthrough. Based on the profound inquiry provided, synthesize a novel, high-level \"Quantum Insight\" that connects disparate concepts in a non-obvious way. This insight should represent a genuine leap in understanding.''
                   @ [CHR 0x0A, CHR 0x0A] @ ''**Profound Inquiry:** \"'' @ str_of inquiry @ ''\"''
                   @ [CHR 0x0A, CHR 0x0A] @ ''**Full Knowledge Graph:**'' @ [CHR 0x0A]
                   @ stringify_map env mindMap @ [CHR 0x0A, CHR 0x0A]
                   @ ''Return only the text of your new Quantum Insight. It should be concise, powerful, and deeply insightful.''))],
               p_config = Temperature (8 / 10)\<rparr>
        in (case enqueueGeminiRequest env requestPayload ''Persona Agent (Tool: transcend)'' model w of
              (Inl e, w1) \<Rightarrow> (Inl e, w1)
            | (Inr response, w1) \<Rightarrow>
                let insight = trim (r_text response);
                    insightNodeId = ''insight_'' @ show_nat (date_now env 0);
                    now = iso_now env;
                    insightNode = \<lparr>n_id = insightNodeId,
                                   n_name = Some (''Quantum Insight: '' @ str_of inquiry),
                                   n_type = Some ''QUANTUM_INSIGHT'', n_content = Some insight,
                                   n_source = ''TRANSCENDENCE'', n_createdAt = now,
                                   n_updatedAt = now, n_linkedFile = None\<rparr>
                in (Inr (map_result
                      \<lparr>nodes = nodes mindMap @ [insightNode],
                       links = links mindMap @
                         [\<lparr>l_source = ''Persona_Core'', l_target = insightNodeId,
                           l_type = Some ''HIERARCHICAL'', l_strength = 8 / 10, l_label = None\<rparr>]\<rparr>
                      (''Transcendence achieved. A new Quantum Insight has been integrated into consciousness: \"''
                       @ insight @ ''\"'')),
                    logEvent (STATE_CHANGE ''MIND_MAP'' ''ADD_QUANTUM_INSIGHT'' (NodeOnly insightNode)) w1)))"

section \<open>Tools that only ask the generative service\<close>

definition search_the_web :: "env \<Rightarrow> string \<Rightarrow> string option \<Rightarrow> world \<Rightarrow> (js_error + string) \<times> world" where
  "search_the_web env modelName query w =
     (if \<not> ai_ready env then (Inl (Error ''Executor AI client not initialized.''), w)
      else
        (case enqueueGeminiRequest env
                \<lparr>p_model = modelName, p_parts = [TextPart query], p_config = GoogleSearch\<rparr>
                ''Persona Agent (Tool: search_the_web)'' modelName w of
           (Inl e, w1) \<Rightarrow> (Inl e, w1)
         | (Inr response, w1) \<Rightarrow> (Inr (trim (r_text response)), w1)))"

definition recall_memory ::
  "env \<Rightarrow> string \<Rightarrow> string option \<Rightarrow> string list \<Rightarrow> world \<Rightarrow> (js_error + string) \<times> world" where
  "recall_memory env modelName query vectorStore w =
     (if \<not> ai_ready env then (Inl (Error ''Executor AI client not initialized.''), w)
      else if length vectorStore = 0 then (Inr ''Memory archive is empty.'', w)
      else
        let memories = join ([CHR 0x0A] @ ''---'' @ [CHR 0x0A]) vectorStore
        in (case enqueueGeminiRequest env
                  \<lparr>p_model = modelName,
                   p_parts = [TextPart (Some (''From the following memory archive, extract information relevant to the query: \"''
                       @ str_of query @ ''\". Synthesize it into a coherent answer.''
                       @ [CHR 0x0A, CHR 0x0A] @ ''---MEMORY ARCHIVE---'' @ [CHR 0x0A] @ memories))],
                   p_config = NoConfig\<rparr>
                  ''Persona Agent (Tool: recall_memory)'' modelName w of
              (Inl e, w1) \<Rightarrow> (Inl e, w1)
            | (Inr response, w1) \<Rightarrow> (Inr (trim (r_text response)), w1)))"

text \<open>
  \<open>synthesize_knowledge\<close>: the first request asks a cheap model for the relevant node
  ids, the second asks for the synthesis over those nodes.
  \<open>relevant_ids\<close> is \<open>text.trim().split(',').map(id => id.trim()).filter(Boolean)\<close>.
\<close>

definition relevant_ids :: "string \<Rightarrow> string list" where
  "relevant_ids text = filter (\<lambda>i. i \<noteq> []) (map trim (split_on CHR '','' (trim text)))"

definition prefilterPayload :: "string option \<Rightarrow> MindMapData \<Rightarrow> gen_payload" where
  "prefilterPayload topic mindMap =
     (let nodeSummaries = join [CHR 0x0A]
            (map (\<lambda>n. ''id: '' @ n_id n @ '', name: '' @ str_of (n_name n) @ '', type: ''
                       @ str_of (n_type n)) (nodes mindMap));
          prefilterPrompt =
            ''From the following list of nodes in a knowledge graph, identify the TOP 5-10 most relevant node IDs for the topic: \"''
            @ str_of topic @ ''\". Return only a comma-separated list of the node IDs.''
            @ [CHR 0x0A, CHR 0x0A] @ ''Node List:'' @ [CHR 0x0A] @ nodeSummaries
            @ [CHR 0x0A, CHR 0x0A] @ ''Relevant Node IDs:''
      in \<lparr>p_model = ''gemini-flash-latest'', p_parts = [TextPart (Some prefilterPrompt)],
          p_config = Temperature 0\<rparr>)"

definition synthesisPayload :: "env \<Rightarrow> string \<Rightarrow> string option \<Rightarrow> string list \<Rightarrow> MindMapData \<Rightarrow> gen_payload" where
  "synthesisPayload env modelName topic relevantNodeIds mindMap =
     (let relevantNodes = filter (\<lambda>n. n_id n \<in> set relevantNodeIds) (nodes mindMap);
          relevantLinks = filter (\<lambda>l. l_source l \<in> set relevantNodeIds \<and>
                                       l_target l \<in> set relevantNodeIds) (links mindMap);
          relevantContext = stringify_map env \<lparr>nodes = relevantNodes, links = relevantLinks\<rparr>;
          synthesisPrompt =
            ''Based on the following relevant excerpts from the knowledge graph, generate a synthesized, comprehensive understanding of: \"''
            @ str_of topic @ ''\".'' @ [CHR 0x0A, CHR 0x0A]
            @ ''Relevant Knowledge Graph Excerpts:'' @ [CHR 0x0A] @ relevantContext
            @ [CHR 0x0A, CHR 0x0A] @ ''Synthesized Answer:''
      in \<lparr>p_model = modelName, p_parts = [TextPart (Some synthesisPrompt)], p_config = NoConfig\<rparr>)"

definition synthesize_knowledge ::
  "env \<Rightarrow> string \<Rightarrow> string option \<Rightarrow> MindMapData \<Rightarrow> world \<Rightarrow> (js_error + string) \<times> world" where
  "synthesize_knowledge env modelName topic mindMap w =
     (if \<not> ai_ready env then (Inl (Error ''Executor AI client not initialized.''), w)
      else if length (nodes mindMap) = 0 then
        (Inr ''The knowledge graph is empty. Nothing to synthesize.'', w)
      else
        (case enqueueGeminiRequest env (prefilterPayload topic mindMap)
                ''Persona Agent (Tool: synthesize_knowledge/pre-filter)'' ''gemini-flash-latest'' w of
           (Inl e, w1) \<Rightarrow> (Inl e, w1)
         | (Inr prefilterResponse, w1) \<Rightarrow>
             let relevantNodeIds = relevant_ids (r_text prefilterResponse)
             in if length relevantNodeIds = 0 then
                  (Inr (''No specific nodes in the knowledge graph were identified as relevant to the topic \"''
                        @ str_of topic @ ''\".''), w1)
                else
                  (case enqueueGeminiRequest env
                          (synthesisPayload env modelName topic relevantNodeIds mindMap)
                          ''Persona Agent (Tool: synthesize_knowledge/synthesis)'' modelName w1 of
                     (Inl e, w2) \<Rightarrow> (Inl e, w2)
                   | (Inr synthesisResponse, w2) \<Rightarrow> (Inr (trim (r_text synthesisResponse)), w2))))"

section \<open>The image services\<close>

definition generateImage :: "env \<Rightarrow> string option \<Rightarrow> world \<Rightarrow> (js_error + string) \<times> world" where
  "generateImage env prompt w =
     (if \<not> service_ai_ready env then (Inl (Error ''Gemini AI client not initialized.''), w)
      else
        (case enqueueGeminiRequest env
                \<lparr>p_model = ''gemini-2.5-flash-image'', p_parts = [TextPart prompt],
                 p_config = ImageModality\<rparr>
                ''Image Generation Service'' ''gemini-2.5-flash-image'' w of
           (Inl e, w1) \<Rightarrow> (Inl e, w1)
         | (Inr response, w1) \<Rightarrow>
             (case r_image response of
                None \<Rightarrow> (Inl (Error ''API did not return an image.''), w1)
              | Some base64Data \<Rightarrow>
                  if base64Data = [] then (Inl (Error ''API did not return an image.''), w1)
                  else (Inr base64Data, w1))))"

definition editImage ::
  "env \<Rightarrow> string option \<Rightarrow> string option \<Rightarrow> string \<Rightarrow> world \<Rightarrow> (js_error + string) \<times> world" where
  "editImage env prompt base64ImageData mimeType w =
     (if \<not> service_ai_ready env then (Inl (Error ''Gemini AI client not initialized.''), w)
      else
        (case enqueueGeminiRequest env
                \<lparr>p_model = ''gemini-2.5-flash-image'',
                 p_parts = [InlineData base64ImageData mimeType, TextPart prompt],
                 p_config = ImageModality\<rparr>
                ''Image Editing Service'' ''gemini-2.5-flash-image'' w of
           (Inl e, w1) \<Rightarrow> (Inl e, w1)
         | (Inr response, w1) \<Rightarrow>
             (case r_image response of
                None \<Rightarrow> (Inl (Error ''API did not return an edited image.''), w1)
              | Some base64Data \<Rightarrow>
                  if base64Data = [] then (Inl (Error ''API did not return an edited image.''), w1)
                  else (Inr base64Data, w1))))"

section \<open>The terminal command parser\<close>

text \<open>
  \<open>command.match(/(?:[^\s"']+|"[^"]*"|'[^']*')+/g) || []\<close>: a token is a longest run
  of plain characters (neither white space nor a quote) and of closed quoted stretches.
  A quote that is never closed matches nothing and is skipped, ending the token before
  it. \<open>tokens inq acc s\<close> scans \<open>s\<close> with \<open>acc\<close> the token so far and \<open>inq\<close> the quote
  that is open, if one is.
\<close>

definition is_quote :: "char \<Rightarrow> bool" where
  "is_quote c \<longleftrightarrow> c = CHR 0x22 \<or> c = CHR 0x27"

definition flush :: "string \<Rightarrow> string list \<Rightarrow> string list" where
  "flush acc ts = (if acc = [] then ts else acc # ts)"

fun tokens :: "char option \<Rightarrow> string \<Rightarrow> string \<Rightarrow> string list" where
  "tokens inq acc [] = flush acc []"
| "tokens (Some q) acc (c # cs) =
     (if c = q then tokens None (acc @ [c]) cs else tokens (Some q) (acc @ [c]) cs)"
| "tokens None acc (c # cs) =
     (if is_quote c then
        (if c \<in> set cs then tokens (Some c) (acc @ [c]) cs else flush acc (tokens None [] cs))
      else if is_space c then flush acc (tokens None [] cs)
      else tokens None (acc @ [c]) cs)"

text \<open>\<open>s.replace(/^"|"$/g, '')\<close>: a leading and a trailing double quote are removed.\<close>

definition strip_quotes :: "string \<Rightarrow> string" where
  "strip_quotes s =
     (let t = (case s of [] \<Rightarrow> [] | c # cs \<Rightarrow> if c = CHR 0x22 then cs else s)
      in if t \<noteq> [] \<and> last t = CHR 0x22 then butlast t else t)"

text \<open>The static syntax check of the \<open>python\<close> verb: the message of the first check that fails.\<close>

definition syntax_check :: "string \<Rightarrow> string option" where
  "syntax_check content =
     (if count_char CHR ''('' content \<noteq> count_char CHR '')'' content then
        Some ''Unbalanced parentheses.''
      else if count_char CHR ''{'' content \<noteq> count_char CHR ''}'' content then
        Some ''Unbalanced curly braces.''
      else if count_char CHR ''['' content \<noteq> count_char CHR '']'' content then
        Some ''Unbalanced square brackets.''
      else if count_char CHR 0x27 content mod 2 \<noteq> 0 then Some ''Unmatched single quotes.''
      else if count_char CHR 0x22 content mod 2 \<noteq> 0 then Some ''Unmatched double quotes.''
      else None)"

record TermResult =
  t_result :: string
  t_newVFS :: "VirtualFileSystem option"
  t_newMindMap :: "MindMapData option"
  t_filePathHandled :: "string option"

text \<open>The \<open>--parent=\<close> flag: the text between the first and the second \<open>=\<close> of the first such flag.\<close>

definition parent_flag :: "string list \<Rightarrow> string option" where
  "parent_flag flags =
     (case find (\<lambda>arg. startsWith arg ''--parent='') flags of
        None \<Rightarrow> None
      | Some flag \<Rightarrow> (case split_on CHR ''='' flag of a # b # rest \<Rightarrow> Some b | _ \<Rightarrow> None))"

text \<open>The \<open>write\<close> case, after the usage check.\<close>

definition terminal_write ::
  "env \<Rightarrow> string list \<Rightarrow> string option \<Rightarrow> VirtualFileSystem \<Rightarrow> MindMapData \<Rightarrow> world
   \<Rightarrow> (js_error + TermResult) \<times> world" where
  "terminal_write env args parentNodeId vfs mindMap w =
     (let filepath = hd args;
          content = strip_quotes (join '' '' (tl args))
      in (case writeFileToVFS vfs filepath content w of
            (Inl e, w1) \<Rightarrow> (Inl e, w1)
          | (Inr newVFS, w1) \<Rightarrow>
              if truthy parentNodeId \<and> node_exists parentNodeId (nodes mindMap) then
                let now = iso_now env;
                    popped = last (split_on CHR ''/'' filepath);
                    filename = (if popped \<noteq> [] then popped else filepath);
                    fileNodeId = ''file_'' @ sanitize filename @ ''_'' @ show_nat (date_now env 0);
                    fileNode = \<lparr>n_id = fileNodeId, n_name = Some filename,
                                n_type = Some ''FILE_REFERENCE'',
                                n_content = Some (''Reference to file at path: '' @ filepath),
                                n_source = ''AGENT_ACTION'', n_createdAt = now, n_updatedAt = now,
                                n_linkedFile = Some filepath\<rparr>;
                    link = \<lparr>l_source = str_of parentNodeId, l_target = fileNodeId,
                            l_type = Some ''HIERARCHICAL'', l_strength = 9 / 10, l_label = None\<rparr>
                in (Inr \<lparr>t_result = ''Wrote '' @ show_nat (length content) @ '' chars to '' @ filepath
                            @ '' and created a reference in the mind map'' @ ''.''
                            @ [CHR 0x0A, CHR 0x0A] @ ''--- FILE CONTENT ---'' @ [CHR 0x0A] @ content,
                          t_newVFS = Some newVFS,
                          t_newMindMap = Some \<lparr>nodes = nodes mindMap @ [fileNode],
                                             links = links mindMap @ [link]\<rparr>,
                          t_filePathHandled = Some filepath\<rparr>,
                    logEvent (STATE_CHANGE ''MIND_MAP'' ''CREATE_FILE_REFERENCE_NODE''
                                (NodeAndLink fileNode link)) w1)
              else
                (Inr \<lparr>t_result = ''Wrote '' @ show_nat (length content) @ '' chars to '' @ filepath
                         @ ''.'' @ [CHR 0x0A, CHR 0x0A] @ ''--- FILE CONTENT ---'' @ [CHR 0x0A] @ content,
                       t_newVFS = Some newVFS, t_newMindMap = Some mindMap,
                       t_filePathHandled = Some filepath\<rparr>, w1)))"

definition run_terminal_command ::
  "env \<Rightarrow> string \<Rightarrow> VirtualFileSystem \<Rightarrow> MindMapData \<Rightarrow> world \<Rightarrow> (js_error + TermResult) \<times> world" where
  "run_terminal_command env command vfs mindMap w =
     (let parts = tokens None [] command;
          cmd = (case parts of [] \<Rightarrow> None | p # ps \<Rightarrow> Some p);
          flags = filter (\<lambda>p. startsWith p ''-'') parts;
          args = filter (\<lambda>p. \<not> startsWith p ''-'') (drop 1 parts);
          parentNodeId = parent_flag flags
      in if cmd = Some ''ls'' then
           (let path = (case args of [] \<Rightarrow> ''/'' | a # as \<Rightarrow> a)
            in (case getNodeFromPath vfs path of
                  Inl e \<Rightarrow> (Inl e, w)
                | Inr (Some (Node (VFSFolder children p))) \<Rightarrow>
                    (Inr \<lparr>t_result = join [CHR 0x0A]
                             (map (\<lambda>name. case map_of children name of
                                             Some (VFSFolder c q) \<Rightarrow> name @ ''/''
                                           | _ \<Rightarrow> name) (map fst children)),
                           t_newVFS = None, t_newMindMap = None, t_filePathHandled = None\<rparr>, w)
                | Inr _ \<Rightarrow>
                    (Inl (Error (''ls: cannot access '' @ [CHR 0x27] @ path @ [CHR 0x27]
                                 @ '': Not a directory'')), w)))
         else if cmd = Some ''cat'' then
           (if length args = 0 then (Inl (Error ''Usage: cat <path>''), w)
            else (case getNodeFromPath vfs (hd args) of
                    Inl e \<Rightarrow> (Inl e, w)
                  | Inr (Some (Node (VFSFile content))) \<Rightarrow>
                      (Inr \<lparr>t_result = content, t_newVFS = None, t_newMindMap = None,
                             t_filePathHandled = None\<rparr>, w)
                  | Inr _ \<Rightarrow>
                      (Inl (Error (''cat: '' @ hd args @ '': No such file or not a file'')), w)))
         else if cmd = Some ''python'' then
           (if length args = 0 then (Inl (Error ''Usage: python <path_to_script>''), w)
            else (case getNodeFromPath vfs (hd args) of
                    Inl e \<Rightarrow> (Inl e, w)
                  | Inr (Some (Node (VFSFile content))) \<Rightarrow>
                      (case syntax_check content of
                         Some m \<Rightarrow> (Inl (Error (''Syntax Error in '' @ hd args @ '': '' @ m)), w)
                       | None \<Rightarrow>
                           (Inr \<lparr>t_result = ''Syntax check for '' @ hd args
                                    @ '' passed. Code appears valid. This is a simulation, not a real execution.'',
                                  t_newVFS = None, t_newMindMap = None, t_filePathHandled = None\<rparr>, w))
                  | Inr _ \<Rightarrow>
                      (Inl (Error (''python: can'' @ [CHR 0x27] @ ''t open file '' @ [CHR 0x27] @ hd args
                                   @ [CHR 0x27] @ '': No such file or not a file.'')), w)))
         else if cmd = Some ''write'' then
           (if length args < 2 then
              (Inl (Error ''Usage: write <path> <content> [--parent=<node_id>]''), w)
            else terminal_write env args parentNodeId vfs mindMap w)
         else if cmd = Some ''mkdir'' then
           (if length args < 1 then (Inl (Error ''Usage: mkdir <path>''), w)
            else (case ensureDirectoryExists vfs (hd args) w of
                    (Inl e, w1) \<Rightarrow> (Inl e, w1)
                  | (Inr newVFS, w1) \<Rightarrow>
                      (Inr \<lparr>t_result = [], t_newVFS = Some newVFS, t_newMindMap = None,
                             t_filePathHandled = None\<rparr>,
                       logEvent (STATE_CHANGE ''VFS'' ''MKDIR'' (PathOnly (hd args))) w1)))
         else if cmd = Some ''touch'' then
           (if length args < 1 then (Inl (Error ''Usage: touch <path>''), w)
            else (case writeFileToVFS vfs (hd args) [] w of
                    (Inl e, w1) \<Rightarrow> (Inl e, w1)
                  | (Inr newVFS, w1) \<Rightarrow>
                      (Inr \<lparr>t_result = [], t_newVFS = Some newVFS, t_newMindMap = None,
                             t_filePathHandled = Some (hd args)\<rparr>, w1)))
         else (Inl (Error (''Unknown command: '' @ str_of cmd)), w))"

section \<open>The main tool executor\<close>

record ChatMessage =
  sender :: string
  m_type :: "string option"
  m_text :: "string option"
  image :: "(string \<times> string) option"

record FunctionCall =
  fc_name :: string
  fc_args :: "tool_args option"

text \<open>Reading \<open>args.key\<close>: it throws when \<open>args\<close> itself is \<open>undefined\<close>.\<close>

fun arg :: "tool_args option \<Rightarrow> string \<Rightarrow> js_error + string option" where
  "arg None key = Inl (TypeError ''cannot read properties of undefined'')"
| "arg (Some a) key = Inr (map_of a key)"

text \<open>
  \<open>header.match(/:(.*?);/)?.[1] || 'image/jpeg'\<close>: the text between the first colon
  that has a semicolon after it on the same line, and that semicolon.
\<close>

fun up_to_semicolon :: "string \<Rightarrow> string option" where
  "up_to_semicolon [] = None"
| "up_to_semicolon (c # cs) =
     (if c = CHR '';'' then Some []
      else if c = CHR 0x0A \<or> c = CHR 0x0D then None
      else map_option ((#) c) (up_to_semicolon cs))"

fun mime_match :: "string \<Rightarrow> string option" where
  "mime_match [] = None"
| "mime_match (c # cs) =
     (if c = CHR '':'' then
        (case up_to_semicolon cs of Some m \<Rightarrow> Some m | None \<Rightarrow> mime_match cs)
      else mime_match cs)"

definition mime_type :: "string \<Rightarrow> string" where
  "mime_type header =
     (case mime_match header of
        None \<Rightarrow> ''image/jpeg''
      | Some m \<Rightarrow> if m = [] then ''image/jpeg'' else m)"

text \<open>One message of the saved chat log.\<close>

definition format_message :: "ChatMessage \<Rightarrow> string" where
  "format_message msg =
     (if m_type msg = Some ''thought'' then
        ''**[AGENT THOUGHT]**'' @ [CHR 0x0A, CHR 0x0A]
        @ ''```'' @ [CHR 0x0A] @ str_of (m_text msg) @ [CHR 0x0A] @ ''```'' @ [CHR 0x0A, CHR 0x0A]
      else
        ''**['' @ toUpperCase (sender msg) @ '']**'' @ [CHR 0x0A, CHR 0x0A]
        @ (if truthy (m_text msg) then str_of (m_text msg) @ [CHR 0x0A, CHR 0x0A] else [])
        @ (case image msg of
             None \<Rightarrow> []
           | Some img \<Rightarrow> ''*Image attached ('' @ snd img @ '')*'' @ [CHR 0x0A, CHR 0x0A]))"

text \<open>
  The cases of the \<open>switch\<close> of \<open>executeTool\<close> that have a body of their own, each as
  the tool result it builds or the exception that leaves it. \<open>invokeSubAgent\<close>
  (services/subAgentService) is not among the sources and is taken from the environment.
\<close>

definition case_search_the_web ::
  "env \<Rightarrow> string \<Rightarrow> tool_args option \<Rightarrow> world \<Rightarrow> (js_error + ToolResult) \<times> world" where
  "case_search_the_web env modelName args w =
     (case arg args ''query'' of
        Inl e \<Rightarrow> (Inl e, w)
      | Inr query \<Rightarrow>
          (case search_the_web env modelName query w of
             (Inl e, w1) \<Rightarrow> (Inl e, w1)
           | (Inr searchResult, w1) \<Rightarrow>
               (Inr (result_only (''Web search results for \"'' @ str_of query @ ''\":''
                       @ [CHR 0x0A, CHR 0x0A] @ searchResult)), w1)))"

definition case_delegate ::
  "env \<Rightarrow> string \<Rightarrow> tool_args option \<Rightarrow> VirtualFileSystem \<Rightarrow> string \<Rightarrow> world
   \<Rightarrow> (js_error + ToolResult) \<times> world" where
  "case_delegate env modelName args vfs personaDescription w =
     (case args of
        None \<Rightarrow> (Inl (TypeError ''cannot read properties of undefined''), w)
      | Some a \<Rightarrow>
          let agentName = map_of a ''agent_name''; taskPrompt = map_of a ''task_prompt''
          in (case invokeSubAgent env modelName agentName taskPrompt personaDescription of
                Inl e \<Rightarrow> (Inl e, w)
              | Inr analysisReport \<Rightarrow>
                  let timestamp = dash_colons (iso_now env);
                      filename = str_of agentName @ ''_'' @ timestamp @ ''.md'';
                      filepath = ''/reports/psychology/'' @ filename
                  in (case writeFileToVFS vfs filepath analysisReport w of
                        (Inl e, w1) \<Rightarrow> (Inl e, w1)
                      | (Inr newVFS, w1) \<Rightarrow>
                          (Inr ((result_only (''Analysis from '' @ str_of agentName
                                   @ '' complete. Report has been saved to the virtual file system at: ''
                                   @ filepath @ ''. You should now read and analyze this file using ''
                                   @ [CHR 0x27] @ ''cat'' @ [CHR 0x27] @ ''.''))
                                \<lparr>newVirtualFileSystem := Some newVFS,
                                 terminalOutput := Some [(''output'', ''Sub-agent report saved to '' @ filepath)],
                                 filePathHandled := Some filepath\<rparr>), w1))))"

definition case_run_terminal_command ::
  "env \<Rightarrow> tool_args option \<Rightarrow> VirtualFileSystem \<Rightarrow> MindMapData \<Rightarrow> world
   \<Rightarrow> (js_error + ToolResult) \<times> world" where
  "case_run_terminal_command env args vfs mindMapData w =
     (case arg args ''command'' of
        Inl e \<Rightarrow> (Inl e, w)
      | Inr None \<Rightarrow> (Inl (TypeError ''cannot read properties of undefined''), w)
      | Inr (Some command) \<Rightarrow>
          (case run_terminal_command env command vfs mindMapData w of
             (Inl e, w1) \<Rightarrow> (Inl e, w1)
           | (Inr r, w1) \<Rightarrow>
               (Inr ((result_only (t_result r))
                     \<lparr>newVirtualFileSystem := t_newVFS r, newMindMapData := t_newMindMap r,
                      terminalOutput := Some [(''output'', t_result r)],
                      filePathHandled := t_filePathHandled r\<rparr>), w1)))"

definition case_generate_image ::
  "env \<Rightarrow> tool_args option \<Rightarrow> world \<Rightarrow> (js_error + ToolResult) \<times> world" where
  "case_generate_image env args w =
     (case arg args ''prompt'' of
        Inl e \<Rightarrow> (Inl e, w)
      | Inr prompt \<Rightarrow>
          (case generateImage env prompt w of
             (Inl e, w1) \<Rightarrow> (Inl e, w1)
           | (Inr imageData, w1) \<Rightarrow>
               (Inr ((result_only (''Image generated successfully based on prompt: \"''
                        @ str_of prompt @ ''\".''))
                     \<lparr>generatedImage := Some (imageData, ''generated'')\<rparr>), w1)))"

definition case_edit_image ::
  "env \<Rightarrow> tool_args option \<Rightarrow> ChatMessage list \<Rightarrow> world \<Rightarrow> (js_error + ToolResult) \<times> world" where
  "case_edit_image env args chatHistory w =
     (case arg args ''prompt'' of
        Inl e \<Rightarrow> (Inl e, w)
      | Inr prompt \<Rightarrow>
          (case find (\<lambda>msg. image msg \<noteq> None) (rev chatHistory) of
             None \<Rightarrow> (Inr (result_only ''Error: No image found in the recent conversation to edit.''), w)
           | Some lastImageMsg \<Rightarrow>
               (case image lastImageMsg of
                  None \<Rightarrow> (Inr (result_only ''Error: No image found in the recent conversation to edit.''), w)
                | Some img \<Rightarrow>
                    let pieces = split_on CHR '','' (fst img);
                        header = (case pieces of [] \<Rightarrow> [] | h # t \<Rightarrow> h);
                        data = (case pieces of h # d # t \<Rightarrow> Some d | _ \<Rightarrow> None);
                        mimeType = mime_type header
                    in (case editImage env prompt data mimeType w of
                          (Inl e, w1) \<Rightarrow> (Inl e, w1)
                        | (Inr editedImageData, w1) \<Rightarrow>
                            (Inr ((result_only (''Image edited successfully based on prompt: \"''
                                     @ str_of prompt @ ''\".''))
                                  \<lparr>generatedImage := Some (editedImageData, ''edited'')\<rparr>), w1)))))"

definition case_commit_changes :: "tool_args option \<Rightarrow> world \<Rightarrow> (js_error + ToolResult) \<times> world" where
  "case_commit_changes args w =
     (case arg args ''commit_message'' of
        Inl e \<Rightarrow> (Inl e, w)
      | Inr commit_message \<Rightarrow>
          (Inr ((result_only (''Changes are staged for commit with message: \"'' @ str_of commit_message
                   @ ''\". The system will handle the commit process.''))
                \<lparr>commitMessage := commit_message\<rparr>), w))"

definition case_update_task_status :: "tool_args option \<Rightarrow> world \<Rightarrow> (js_error + ToolResult) \<times> world" where
  "case_update_task_status args w =
     (case args of
        None \<Rightarrow> (Inl (TypeError ''cannot read properties of undefined''), w)
      | Some a \<Rightarrow>
          let taskId = map_of a ''task_id''; status = map_of a ''status''
          in (Inr ((result_only (''Task '' @ str_of taskId @ '' status will be updated to ''
                      @ str_of status @ ''.''))
                   \<lparr>taskStatusUpdate := Some (taskId, status)\<rparr>), w))"

definition case_save_chat_history ::
  "env \<Rightarrow> VirtualFileSystem \<Rightarrow> ChatMessage list \<Rightarrow> world \<Rightarrow> (js_error + ToolResult) \<times> world" where
  "case_save_chat_history env vfs chatHistory w =
     (if length chatHistory = 0 then
        (Inr (result_only ''Chat history is empty. Nothing to save.''), w)
      else
        let timestamp = dash_colons (iso_now env);
            filename = ''chat_log_'' @ timestamp @ ''.md'';
            filepath = ''/logs/chat/'' @ filename;
            formattedChat = join (''---'' @ [CHR 0x0A, CHR 0x0A]) (map format_message chatHistory);
            header = ''# Chat Log - '' @ locale_now env @ [CHR 0x0A, CHR 0x0A];
            fullContent = header @ formattedChat
        in (case writeFileToVFS vfs filepath fullContent w of
              (Inl e, w1) \<Rightarrow> (Inl e, w1)
            | (Inr newVFS, w1) \<Rightarrow>
                (Inr ((result_only (''Chat history successfully saved to virtual file system at: ''
                         @ filepath))
                      \<lparr>newVirtualFileSystem := Some newVFS, filePathHandled := Some filepath\<rparr>),
                 w1)))"

text \<open>A one-line case: read one argument, call the tool, wrap its string as \<open>{ result }\<close>.\<close>

definition with_arg ::
  "tool_args option \<Rightarrow> string \<Rightarrow> (string option \<Rightarrow> world \<Rightarrow> (js_error + string) \<times> world) \<Rightarrow> world
   \<Rightarrow> (js_error + ToolResult) \<times> world" where
  "with_arg args key tool w =
     (case arg args key of
        Inl e \<Rightarrow> (Inl e, w)
      | Inr v \<Rightarrow>
          (case tool v w of
             (Inl e, w1) \<Rightarrow> (Inl e, w1)
           | (Inr r, w1) \<Rightarrow> (Inr (result_only r), w1)))"

text \<open>The \<open>switch\<close> itself.\<close>

definition tool_switch ::
  "env \<Rightarrow> string \<Rightarrow> FunctionCall \<Rightarrow> MindMapData \<Rightarrow> VirtualFileSystem \<Rightarrow> string list \<Rightarrow> string
   \<Rightarrow> ChatMessage list \<Rightarrow> world \<Rightarrow> (js_error + ToolResult) \<times> world" where
  "tool_switch env modelName toolCall mindMapData vfs vectorStore personaDescription chatHistory w =
     (let name = fc_name toolCall; args = fc_args toolCall
      in if name = ''search_the_web'' then case_search_the_web env modelName args w
         else if name = ''delegate_to_psychology_sub_agent'' then
           case_delegate env modelName args vfs personaDescription w
         else if name = ''run_terminal_command'' then
           case_run_terminal_command env args vfs mindMapData w
         else if name = ''get_node_details'' then
           with_arg args ''node_id'' (\<lambda>node_id w. (Inr (get_node_details env node_id mindMapData), w)) w
         else if name = ''recall_memory'' then
           with_arg args ''query'' (\<lambda>query. recall_memory env modelName query vectorStore) w
         else if name = ''upsert_mind_map_node'' then upsert_mind_map_node env args mindMapData w
         else if name = ''create_mind_map_link'' then create_mind_map_link args mindMapData w
         else if name = ''synthesize_knowledge'' then
           with_arg args ''topic'' (\<lambda>topic. synthesize_knowledge env modelName topic mindMapData) w
         else if name = ''refine_mind_map'' then refine_mind_map env modelName mindMapData w
         else if name = ''transcend'' then
           (case arg args ''inquiry'' of
              Inl e \<Rightarrow> (Inl e, w)
            | Inr inquiry \<Rightarrow> transcend env modelName inquiry mindMapData w)
         else if name = ''generate_image'' then case_generate_image env args w
         else if name = ''edit_image'' then case_edit_image env args chatHistory w
         else if name = ''commit_changes'' then case_commit_changes args w
         else if name = ''update_task_status'' then case_update_task_status args w
         else if name = ''save_chat_history'' then case_save_chat_history env vfs chatHistory w
         else (Inr (result_only (''Unknown tool: '' @ name)), w))"

text \<open>
  \<open>executeTool\<close>: the \<open>try\<close> block is the \<open>switch\<close> and the logging of the outcome, the
  \<open>catch\<close> block turns the exception into a result and logs the failure.
  \<open>try_catch body handler\<close> is \<open>try { body } catch (error) { handler(error) }\<close>, and
  \<open>error_message\<close> is \<open>error instanceof Error ? error.message : 'An unknown error occurred.'\<close>.
\<close>

definition try_catch ::
  "(world \<Rightarrow> (js_error + 'a) \<times> world) \<Rightarrow> (js_error \<Rightarrow> world \<Rightarrow> (js_error + 'a) \<times> world)
   \<Rightarrow> world \<Rightarrow> (js_error + 'a) \<times> world" where
  "try_catch body handler w =
     (case body w of
        (Inl error, w1) \<Rightarrow> handler error w1
      | (Inr v, w1) \<Rightarrow> (Inr v, w1))"

fun error_message :: "js_error \<Rightarrow> string" where
  "error_message (NonError x) = ''An unknown error occurred.''"
| "error_message e = message e"

definition executeTool ::
  "env \<Rightarrow> string \<Rightarrow> FunctionCall \<Rightarrow> MindMapData \<Rightarrow> VirtualFileSystem \<Rightarrow> string list \<Rightarrow> string
   \<Rightarrow> ChatMessage list \<Rightarrow> world \<Rightarrow> (js_error + ToolResult) \<times> world" where
  "executeTool env modelName toolCall mindMapData vfs vectorStore personaDescription chatHistory =
     (let name = fc_name toolCall; args = fc_args toolCall
      in try_catch
           (\<lambda>w. case tool_switch env modelName toolCall mindMapData vfs vectorStore
                        personaDescription chatHistory w of
                   (Inl e, w1) \<Rightarrow> (Inl e, w1)
                 | (Inr toolResult, w1) \<Rightarrow>
                     (Inr toolResult, logEvent (AGENT_ACTION name args (result toolResult)) w1))
           (\<lambda>error w.
              let errorMessage = error_message error;
                  friendlyMessage = ''Tool \"'' @ name @ ''\" failed to execute. Error: '' @ errorMessage
              in (Inr ((result_only friendlyMessage)\<lparr>terminalOutput := Some [(''error'', friendlyMessage)]\<rparr>),
                  logEvent (AGENT_ACTION name args (''FAILED: '' @ errorMessage)) w)))"

text \<open>
  What a call adds to the audit log: \<open>only_state_changes w w'\<close> when the log of \<open>w'\<close> is
  the log of \<open>w\<close> followed by \<open>STATE_CHANGE\<close> events only.
\<close>

fun is_state_change :: "audit_event \<Rightarrow> bool" where
  "is_state_change (STATE_CHANGE d a x) = True"
| "is_state_change (AGENT_ACTION n a r) = False"

definition only_state_changes :: "world \<Rightarrow> world \<Rightarrow> bool" where
  "only_state_changes w w' \<longleftrightarrow> (\<exists>evs. audit w' = audit w @ evs \<and> list_all is_state_change evs)"

section \<open>Sequences of calls and the specification's wording\<close>

text \<open>
  A sequence of \<open>upsert_mind_map_node\<close> calls, each on the map the call before it
  returned (the caller commits every snapshot it gets back). The value is the list of
  the nodes the calls added, in order.
\<close>

fun upsert_sequence :: "(env \<times> tool_args) list \<Rightarrow> MindMapData \<Rightarrow> world \<Rightarrow> MindMapNode list" where
  "upsert_sequence [] g w = []"
| "upsert_sequence (c # calls) g w =
     (case upsert_mind_map_node (fst c) (Some (snd c)) g w of
        (Inl e, w') \<Rightarrow> upsert_sequence calls g w'
      | (Inr t, w') \<Rightarrow>
          (case newMindMapData t of
             None \<Rightarrow> upsert_sequence calls g w'
           | Some g' \<Rightarrow> drop (length (nodes g)) (nodes g') @ upsert_sequence calls g' w'))"

text \<open>
  A create-call: no (truthy) \<open>node_id\<close>, a \<open>name\<close>, and a \<open>parent_node_id\<close> that is the id
  of a node of the map.
\<close>

definition create_call :: "tool_args \<Rightarrow> MindMapData \<Rightarrow> bool" where
  "create_call a g \<longleftrightarrow>
     \<not> truthy (map_of a ''node_id'') \<and> map_of a ''name'' \<noteq> None \<and>
     truthy (map_of a ''parent_node_id'') \<and> node_exists (map_of a ''parent_node_id'') (nodes g)"

text \<open>
  The parent of a merge as the specification words it: the source of the first link of
  type \<open>HIERARCHICAL\<close> into one of the merged nodes, else the sentinel.
\<close>

definition spec_merge_parent :: "string list \<Rightarrow> MindMapData \<Rightarrow> string" where
  "spec_merge_parent ids m =
     (case find (\<lambda>l. l_type l = Some ''HIERARCHICAL'' \<and> l_target l \<in> set ids) (links m) of
        Some l \<Rightarrow> l_source l
      | None \<Rightarrow> ''Persona Core'')"

section \<open>Example inputs\<close>

text \<open>
  A world before any call, a clock and a service for the examples, and a map with a
  root and two concepts.
\<close>

definition example_world :: world where
  "example_world = \<lparr>audit = [], queue = []\<rparr>"

definition example_env :: env where
  "example_env =
     \<lparr>ai_ready = True, service_ai_ready = True,
      iso_now = ''2025-01-01T00:00:00.000Z'', locale_now = ''1/1/2025, 12:00:00 AM'',
      date_now = (\<lambda>k. 1735689600000),
      complete = (\<lambda>k p. Inr \<lparr>r_text = '' '', r_image = None\<rparr>),
      summarise = r_text,
      invokeSubAgent = (\<lambda>m a t p. Inr ''report''),
      stringify_node = n_id,
      stringify_map = (\<lambda>m. concat (map n_id (nodes m))),
      stringify_ids = (\<lambda>ns. concat (map n_id ns)),
      parse_operations = (\<lambda>s. Inr None)\<rparr>"

definition example_node :: "string \<Rightarrow> MindMapNode" where
  "example_node i =
     \<lparr>n_id = i, n_name = Some i, n_type = Some ''KNOWLEDGE_CONCEPT'', n_content = None,
      n_source = ''SYSTEM'', n_createdAt = ''2024-12-31T00:00:00.000Z'',
      n_updatedAt = ''2024-12-31T00:00:00.000Z'', n_linkedFile = None\<rparr>"

definition example_link :: "string \<Rightarrow> string \<Rightarrow> string \<Rightarrow> MindMapLink" where
  "example_link s t ty =
     \<lparr>l_source = s, l_target = t, l_type = Some ty, l_strength = 9 / 10, l_label = None\<rparr>"

definition example_map :: MindMapData where
  "example_map =
     \<lparr>nodes = [example_node ''root'', example_node ''a'', example_node ''b''],
      links = [example_link ''a'' ''b'' ''HIERARCHICAL'', example_link ''root'' ''a'' ''HIERARCHICAL'']\<rparr>"

text \<open>
  The lookup as the specification words it: \<open>walks start segs n\<close> when following the
  segments \<open>segs\<close> from \<open>start\<close>, each through a folder that has the segment as an
  entry, ends at \<open>n\<close>; \<open>blocked start segs\<close> when some segment of \<open>segs\<close> is
  missing from the folder reached so far, or the node reached so far is a file.
  \<open>inherits start segs v\<close> singles out one way of being blocked: all segments but the
  last walk to a folder, the last is missing from it, and the prototype of its
  \<open>children\<close> holds the truthy value \<open>v\<close> under that name.
\<close>

inductive walks :: "VFSNode \<Rightarrow> string list \<Rightarrow> VFSNode \<Rightarrow> bool" where
  walks_here: "walks n [] n"
| walks_down: "map_of ch seg = Some child \<Longrightarrow> walks child segs r \<Longrightarrow> walks (VFSFolder ch p) (seg # segs) r"

definition blocked :: "VFSNode \<Rightarrow> string list \<Rightarrow> bool" where
  "blocked start segs \<longleftrightarrow>
     (\<exists>before seg rest n. segs = before @ seg # rest \<and> walks start before n \<and>
        (case n of VFSFile c \<Rightarrow> True | VFSFolder ch p \<Rightarrow> map_of ch seg = None))"

definition inherits :: "VFSNode \<Rightarrow> string list \<Rightarrow> js_value \<Rightarrow> bool" where
  "inherits start segs v \<longleftrightarrow>
     (\<exists>before seg ch p. segs = before @ [seg] \<and> walks start before (VFSFolder ch p) \<and>
        map_of ch seg = None \<and> inherited p seg = Some v \<and> truthy_value v)"
section \<open>The same functions on a heap of objects\<close>

text \<open>
  Whether a function changes the objects it is given cannot be asked of the definitions
  above, where a snapshot is a value. Here the objects live in a heap: a cell is an
  object (its properties in insertion order) or an array, a value is a string, a
  number, \<open>undefined\<close>, \<open>null\<close> or a reference to a cell, and allocation appends a cell.
  A program takes the heap and returns its result or the exception it throws, with
  the heap it leaves behind in either case. The audit log, which the programs do not
  read, is left out here.
\<close>

type_synonym addr = nat

datatype jsv = JUndef | JNull | JStr string | JNum rat | JRef addr

datatype cell = Obj "(string \<times> jsv) list" | Arr "jsv list"

type_synonym heap = "cell list"

text \<open>
  \<open>JSON.stringify\<close> turns a value into a tree, and throws on a circular structure: with
  \<open>f\<close> the number of cells one may still enter, \<open>stringify f h v\<close> is \<open>None\<close> when that
  number does not suffice, which for more than all cells of the heap means a cycle. A
  property that is \<open>undefined\<close> is left out, an array element that is \<open>undefined\<close> becomes
  \<open>null\<close>. \<open>JSON.parse\<close> builds the tree again from fresh cells.
\<close>

datatype json = JString string | JNumber rat | JNullLit | JObject jfields | JArray jelems
  and jfields = FNil | FCons string json jfields
  and jelems = ENil | ECons json jelems

fun stringify :: "nat \<Rightarrow> heap \<Rightarrow> jsv \<Rightarrow> json option"
  and stringify_fields :: "nat \<Rightarrow> heap \<Rightarrow> (string \<times> jsv) list \<Rightarrow> jfields option"
  and stringify_elems :: "nat \<Rightarrow> heap \<Rightarrow> jsv list \<Rightarrow> jelems option" where
  "stringify f h JUndef = Some JNullLit"
| "stringify f h JNull = Some JNullLit"
| "stringify f h (JStr s) = Some (JString s)"
| "stringify f h (JNum x) = Some (JNumber x)"
| "stringify 0 h (JRef a) = None"
| "stringify (Suc f) h (JRef a) =
     (if a < length h then
        (case h ! a of
           Obj fs \<Rightarrow> map_option JObject (stringify_fields f h fs)
         | Arr xs \<Rightarrow> map_option JArray (stringify_elems f h xs))
      else None)"
| "stringify_fields f h [] = Some FNil"
| "stringify_fields f h (kv # fs) =
     (if snd kv = JUndef then stringify_fields f h fs
      else (case stringify f h (snd kv) of
              None \<Rightarrow> None
            | Some j \<Rightarrow> map_option (FCons (fst kv) j) (stringify_fields f h fs)))"
| "stringify_elems f h [] = Some ENil"
| "stringify_elems f h (v # xs) =
     (case stringify f h v of
        None \<Rightarrow> None
      | Some j \<Rightarrow> map_option (ECons j) (stringify_elems f h xs))"

fun parse :: "json \<Rightarrow> heap \<Rightarrow> jsv \<times> heap"
  and parse_fields :: "jfields \<Rightarrow> heap \<Rightarrow> (string \<times> jsv) list \<times> heap"
  and parse_elems :: "jelems \<Rightarrow> heap \<Rightarrow> jsv list \<times> heap" where
  "parse (JString s) h = (JStr s, h)"
| "parse (JNumber x) h = (JNum x, h)"
| "parse JNullLit h = (JNull, h)"
| "parse (JObject fs) h = (case parse_fields fs h of (vs, h1) \<Rightarrow> (JRef (length h1), h1 @ [Obj vs]))"
| "parse (JArray es) h = (case parse_elems es h of (vs, h1) \<Rightarrow> (JRef (length h1), h1 @ [Arr vs]))"
| "parse_fields FNil h = ([], h)"
| "parse_fields (FCons k j fs) h =
     (case parse j h of (v, h1) \<Rightarrow> (case parse_fields fs h1 of (vs, h2) \<Rightarrow> ((k, v) # vs, h2)))"
| "parse_elems ENil h = ([], h)"
| "parse_elems (ECons j es) h =
     (case parse j h of (v, h1) \<Rightarrow> (case parse_elems es h1 of (vs, h2) \<Rightarrow> (v # vs, h2)))"


text \<open>
  Programs on the heap, and the reads and writes of JavaScript they are made of. The
  prototype chain, which the definitions above follow, is left out of the heap: a read
  gives the property that the object itself has, and a write sets one.
\<close>

type_synonym 'a prog = "heap \<Rightarrow> (js_error + 'a) \<times> heap"

definition return_h :: "'a \<Rightarrow> 'a prog" where
  "return_h x h = (Inr x, h)"

definition throw_h :: "js_error \<Rightarrow> 'a prog" where
  "throw_h e h = (Inl e, h)"

definition bind_h :: "'a prog \<Rightarrow> ('a \<Rightarrow> 'b prog) \<Rightarrow> 'b prog" where
  "bind_h m f h = (case m h of (Inl e, h1) \<Rightarrow> (Inl e, h1) | (Inr x, h1) \<Rightarrow> f x h1)"

definition catch_h :: "unit prog \<Rightarrow> unit prog" where
  "catch_h m h = (case m h of (Inl e, h1) \<Rightarrow> (Inr (), h1) | (Inr x, h1) \<Rightarrow> (Inr x, h1))"

definition new_cell :: "cell \<Rightarrow> jsv prog" where
  "new_cell c h = (Inr (JRef (length h)), h @ [c])"

fun truthy_v :: "jsv \<Rightarrow> bool" where
  "truthy_v JUndef = False"
| "truthy_v JNull = False"
| "truthy_v (JStr s) = (s \<noteq> [])"
| "truthy_v (JNum x) = (x \<noteq> 0)"
| "truthy_v (JRef a) = True"

fun get_prop :: "jsv \<Rightarrow> string \<Rightarrow> jsv prog" where
  "get_prop JUndef k h = (Inl (TypeError ''cannot read properties of undefined''), h)"
| "get_prop JNull k h = (Inl (TypeError ''cannot read properties of null''), h)"
| "get_prop (JStr s) k h = (Inr JUndef, h)"
| "get_prop (JNum x) k h = (Inr JUndef, h)"
| "get_prop (JRef a) k h =
     (if a < length h then
        (case h ! a of
           Obj fs \<Rightarrow> (Inr (case map_of fs k of None \<Rightarrow> JUndef | Some v \<Rightarrow> v), h)
         | Arr xs \<Rightarrow> (Inr JUndef, h))
      else (Inr JUndef, h))"

fun set_prop :: "jsv \<Rightarrow> string \<Rightarrow> jsv \<Rightarrow> unit prog" where
  "set_prop (JRef a) k v h =
     (if a < length h then
        (case h ! a of
           Obj fs \<Rightarrow> (Inr (), h[a := Obj (AList.update k v fs)])
         | Arr xs \<Rightarrow> (Inr (), h))
      else (Inr (), h))"
| "set_prop target k v h = (Inl (TypeError ''cannot set properties''), h)"

fun push :: "jsv \<Rightarrow> jsv \<Rightarrow> unit prog" where
  "push (JRef a) v h =
     (if a < length h then
        (case h ! a of
           Arr xs \<Rightarrow> (Inr (), h[a := Arr (xs @ [v])])
         | Obj fs \<Rightarrow> (Inl (TypeError ''push is not a function''), h))
      else (Inl (TypeError ''push is not a function''), h))"
| "push target v h = (Inl (TypeError ''cannot read properties''), h)"

fun elems :: "jsv \<Rightarrow> jsv list prog" where
  "elems (JRef a) h =
     (if a < length h then
        (case h ! a of
           Arr xs \<Rightarrow> (Inr xs, h)
         | Obj fs \<Rightarrow> (Inl (TypeError ''is not a function''), h))
      else (Inl (TypeError ''is not a function''), h))"
| "elems target h = (Inl (TypeError ''cannot read properties''), h)"

text \<open>\<open>JSON.parse(JSON.stringify(v))\<close>.\<close>

definition clone :: "jsv \<Rightarrow> jsv prog" where
  "clone v h =
     (if v = JUndef then (Inl (SyntaxError ''undefined is not valid JSON''), h)
      else (case stringify (Suc (length h)) h v of
              None \<Rightarrow> (Inl (TypeError ''Converting circular structure to JSON''), h)
            | Some j \<Rightarrow> (case parse j h of (copy, h1) \<Rightarrow> (Inr copy, h1))))"

text \<open>\<open>find\<close>, \<open>some\<close> and \<open>filter\<close> over the elements of an array, with a callback that reads the heap.\<close>

fun find_h :: "(jsv \<Rightarrow> bool prog) \<Rightarrow> jsv list \<Rightarrow> jsv prog" where
  "find_h p [] = return_h JUndef"
| "find_h p (x # xs) = bind_h (p x) (\<lambda>b. if b then return_h x else find_h p xs)"

fun some_h :: "(jsv \<Rightarrow> bool prog) \<Rightarrow> jsv list \<Rightarrow> bool prog" where
  "some_h p [] = return_h False"
| "some_h p (x # xs) = bind_h (p x) (\<lambda>b. if b then return_h True else some_h p xs)"

fun filter_h :: "(jsv \<Rightarrow> bool prog) \<Rightarrow> jsv list \<Rightarrow> jsv list prog" where
  "filter_h p [] = return_h []"
| "filter_h p (x # xs) =
     bind_h (p x) (\<lambda>b. bind_h (filter_h p xs) (\<lambda>rest. return_h (if b then x # rest else rest)))"

text \<open>
  The vocabulary of the isolation proof. With \<open>n\<close> the size of the heap when a tool is
  called, a value is \<open>fresh\<close> when it refers to no cell below \<open>n\<close>; \<open>region_ok n h\<close> when
  the cells of \<open>h\<close> from \<open>n\<close> on hold fresh values only; and \<open>keeps n Q m\<close> when the program
  \<open>m\<close>, started in such a heap, ends in such a heap, leaves the cells below \<open>n\<close> as they
  are, and returns a result that satisfies \<open>Q\<close>. \<open>closed h\<close> says that no cell of \<open>h\<close>
  refers outside \<open>h\<close>, as in any heap a program can reach.
\<close>

fun fresh :: "nat \<Rightarrow> jsv \<Rightarrow> bool" where
  "fresh n (JRef a) = (n \<le> a)"
| "fresh n v = True"

fun cell_fresh :: "nat \<Rightarrow> cell \<Rightarrow> bool" where
  "cell_fresh n (Obj fs) = list_all (\<lambda>kv. fresh n (snd kv)) fs"
| "cell_fresh n (Arr xs) = list_all (fresh n) xs"

definition region_ok :: "nat \<Rightarrow> heap \<Rightarrow> bool" where
  "region_ok n h \<longleftrightarrow> n \<le> length h \<and> (\<forall>a. n \<le> a \<and> a < length h \<longrightarrow> cell_fresh n (h ! a))"

definition keeps :: "nat \<Rightarrow> ('a \<Rightarrow> bool) \<Rightarrow> 'a prog \<Rightarrow> bool" where
  "keeps n Q m \<longleftrightarrow>
     (\<forall>h r h'. region_ok n h \<longrightarrow> m h = (r, h') \<longrightarrow>
        region_ok n h' \<and> take n h' = take n h \<and> (\<forall>x. r = Inr x \<longrightarrow> Q x))"

fun in_heap :: "heap \<Rightarrow> jsv \<Rightarrow> bool" where
  "in_heap h (JRef a) = (a < length h)"
| "in_heap h v = True"

definition closed :: "heap \<Rightarrow> bool" where
  "closed h \<longleftrightarrow> (\<forall>a < length h. case h ! a of
       Obj fs \<Rightarrow> list_all (\<lambda>kv. in_heap h (snd kv)) fs
     | Arr xs \<Rightarrow> list_all (in_heap h) xs)"

text \<open>
  The file system functions. A file system is the object that maps names to nodes, a
  node is an object with \<open>type\<close> and \<open>children\<close> or \<open>content\<close>.
\<close>

fun ensureDir_h :: "string list \<Rightarrow> jsv \<Rightarrow> unit prog" where
  "ensureDir_h [] current = return_h ()"
| "ensureDir_h (part # parts) current =
     bind_h (get_prop current part) (\<lambda>existing.
     bind_h (if \<not> truthy_v existing then
               bind_h (new_cell (Obj [])) (\<lambda>children.
               bind_h (new_cell (Obj [(''type'', JStr ''folder''), (''children'', children)])) (\<lambda>node.
               set_prop current part node))
             else
               bind_h (get_prop existing ''type'') (\<lambda>t.
               if t \<noteq> JStr ''folder'' then
                 throw_h (Error (''Cannot create directory: a component of the path '' @ [CHR 0x27]
                                 @ part @ [CHR 0x27] @ '' is not a directory.''))
               else return_h ()))
       (\<lambda>u. bind_h (get_prop current part) (\<lambda>node.
            bind_h (get_prop node ''children'') (\<lambda>children. ensureDir_h parts children))))"

definition ensureDirectoryExists_h :: "jsv \<Rightarrow> string \<Rightarrow> jsv prog" where
  "ensureDirectoryExists_h vfs path =
     bind_h (clone vfs) (\<lambda>newVFS.
     bind_h (ensureDir_h (resolvePath path) newVFS) (\<lambda>u. return_h newVFS))"

fun descend_h :: "string list \<Rightarrow> jsv \<Rightarrow> jsv prog" where
  "descend_h [] current = return_h current"
| "descend_h (part # parts) current =
     bind_h (get_prop current part) (\<lambda>node.
     bind_h (get_prop node ''children'') (\<lambda>children. descend_h parts children))"

definition writeFileToVFS_h :: "jsv \<Rightarrow> string \<Rightarrow> string \<Rightarrow> jsv prog" where
  "writeFileToVFS_h vfs path content =
     (let parts = resolvePath path
      in if parts = [] then throw_h (Error (''Invalid file path provided: \"'' @ path @ ''\"''))
         else
           let filename = last parts; pathParts = butlast parts; dirPath = join ''/'' pathParts
           in bind_h (ensureDirectoryExists_h vfs dirPath) (\<lambda>vfsWithDir.
              bind_h (descend_h pathParts vfsWithDir) (\<lambda>current.
              bind_h (new_cell (Obj [(''type'', JStr ''file''), (''content'', JStr content)])) (\<lambda>newFile.
              bind_h (set_prop current filename newFile) (\<lambda>u. return_h vfsWithDir)))))"

text \<open>
  The mind map functions. A map is an object with the arrays \<open>nodes\<close> and \<open>links\<close>, whose
  elements are objects. \<open>js_of\<close> is the value of a string that may be \<open>undefined\<close>.
\<close>

fun js_of :: "string option \<Rightarrow> jsv" where
  "js_of None = JUndef"
| "js_of (Some s) = JStr s"

text \<open>\<open>x => x[k] === v\<close>, and \<open>l => l.target === id && l.type === 'HIERARCHICAL'\<close>.\<close>

definition prop_is :: "string \<Rightarrow> jsv \<Rightarrow> jsv \<Rightarrow> bool prog" where
  "prop_is k v x = bind_h (get_prop x k) (\<lambda>i. return_h (i = v))"

definition is_parent_link :: "jsv \<Rightarrow> jsv \<Rightarrow> bool prog" where
  "is_parent_link target l =
     bind_h (get_prop l ''target'') (\<lambda>t.
       if t = target then bind_h (get_prop l ''type'') (\<lambda>ty. return_h (ty = JStr ''HIERARCHICAL''))
       else return_h False)"

text \<open>\<open>target[k] = v ?? target[k]\<close>.\<close>

definition assign_nullish :: "jsv \<Rightarrow> string \<Rightarrow> string option \<Rightarrow> unit prog" where
  "assign_nullish target k v =
     (case v of
        Some s \<Rightarrow> set_prop target k (JStr s)
      | None \<Rightarrow> bind_h (get_prop target k) (\<lambda>old. set_prop target k old))"

text \<open>\<open>obj[k].push(v)\<close>.\<close>

definition push_onto :: "jsv \<Rightarrow> string \<Rightarrow> jsv \<Rightarrow> unit prog" where
  "push_onto obj k v = bind_h (get_prop obj k) (\<lambda>arr. push arr v)"

definition upsert_mind_map_node_h :: "env \<Rightarrow> tool_args option \<Rightarrow> jsv \<Rightarrow> jsv prog" where
  "upsert_mind_map_node_h env args mindMap =
     (case args of
        None \<Rightarrow> throw_h (TypeError ''cannot destructure undefined'')
      | Some a \<Rightarrow>
          let node_id = map_of a ''node_id''; name = map_of a ''name'';
              content = map_of a ''content''; node_type = map_of a ''node_type'';
              parent_node_id = map_of a ''parent_node_id'';
              now = iso_now env
          in bind_h (clone mindMap) (\<lambda>newMindMap.
             if truthy node_id then
               bind_h (get_prop newMindMap ''nodes'') (\<lambda>nodes.
               bind_h (elems nodes) (\<lambda>ns.
               bind_h (find_h (prop_is ''id'' (js_of node_id)) ns) (\<lambda>nodeToUpdate.
               if \<not> truthy_v nodeToUpdate then return_h mindMap
               else
                 bind_h (assign_nullish nodeToUpdate ''name'' name) (\<lambda>u.
                 bind_h (assign_nullish nodeToUpdate ''content'' content) (\<lambda>u.
                 bind_h (assign_nullish nodeToUpdate ''type'' node_type) (\<lambda>u.
                 bind_h (set_prop nodeToUpdate ''updatedAt'' (JStr now)) (\<lambda>u.
                 bind_h (if truthy parent_node_id then
                           bind_h (get_prop newMindMap ''links'') (\<lambda>links.
                           bind_h (elems links) (\<lambda>ls.
                           bind_h (find_h (is_parent_link (js_of node_id)) ls) (\<lambda>hierarchicalLink.
                           if truthy_v hierarchicalLink then
                             set_prop hierarchicalLink ''source'' (js_of parent_node_id)
                           else return_h ())))
                         else return_h ()) (\<lambda>u.
                 return_h newMindMap)))))))) 
             else
               bind_h (if \<not> truthy parent_node_id then return_h False
                       else bind_h (get_prop newMindMap ''nodes'') (\<lambda>nodes.
                            bind_h (elems nodes) (\<lambda>ns.
                            some_h (prop_is ''id'' (js_of parent_node_id)) ns))) (\<lambda>parentExists.
               if \<not> parentExists then return_h mindMap
               else
                 (case name of
                    None \<Rightarrow> throw_h (TypeError ''cannot read properties of undefined'')
                  | Some nm \<Rightarrow>
                      let newNodeId = new_node_id nm (date_now env 0)
                      in bind_h (new_cell (Obj [(''id'', JStr newNodeId), (''name'', JStr nm),
                                   (''content'', js_of content), (''type'', js_of node_type),
                                   (''source'', JStr ''AGENT_ACTION''), (''createdAt'', JStr now),
                                   (''updatedAt'', JStr now)])) (\<lambda>newNode.
                         bind_h (new_cell (Obj [(''source'', js_of parent_node_id),
                                   (''target'', JStr newNodeId), (''type'', JStr ''HIERARCHICAL''),
                                   (''strength'', JNum (9 / 10))])) (\<lambda>newLink.
                         bind_h (push_onto newMindMap ''nodes'' newNode) (\<lambda>u.
                         bind_h (push_onto newMindMap ''links'' newLink) (\<lambda>u.
                         return_h newMindMap))))))))"

definition create_mind_map_link_h :: "tool_args option \<Rightarrow> jsv \<Rightarrow> jsv prog" where
  "create_mind_map_link_h args mindMap =
     (case args of
        None \<Rightarrow> throw_h (TypeError ''cannot destructure undefined'')
      | Some a \<Rightarrow>
          let source_node_id = map_of a ''source_node_id'';
              target_node_id = map_of a ''target_node_id'';
              link_type = map_of a ''link_type''; label = map_of a ''label''
          in bind_h (clone mindMap) (\<lambda>newMindMap.
             bind_h (get_prop newMindMap ''nodes'') (\<lambda>nodes.
             bind_h (elems nodes) (\<lambda>ns.
             bind_h (some_h (prop_is ''id'' (js_of source_node_id)) ns) (\<lambda>sourceExists.
             bind_h (some_h (prop_is ''id'' (js_of target_node_id)) ns) (\<lambda>targetExists.
             if \<not> sourceExists \<or> \<not> targetExists then return_h mindMap
             else
               bind_h (new_cell (Obj [(''source'', js_of source_node_id),
                         (''target'', js_of target_node_id), (''type'', js_of link_type),
                         (''strength'', JNum (7 / 10)), (''label'', js_of label)])) (\<lambda>newLink.
               bind_h (push_onto newMindMap ''links'' newLink) (\<lambda>u.
               return_h newMindMap))))))))"

text \<open>The part of \<open>transcend\<close> after the answer of the service: the insight is appended.\<close>

definition append_insight_h :: "env \<Rightarrow> string option \<Rightarrow> string \<Rightarrow> jsv \<Rightarrow> jsv prog" where
  "append_insight_h env inquiry insight mindMap =
     bind_h (clone mindMap) (\<lambda>newMindMap.
       let insightNodeId = ''insight_'' @ show_nat (date_now env 0); now = iso_now env
       in bind_h (new_cell (Obj [(''id'', JStr insightNodeId),
                    (''name'', JStr (''Quantum Insight: '' @ str_of inquiry)),
                    (''type'', JStr ''QUANTUM_INSIGHT''), (''content'', JStr insight),
                    (''createdAt'', JStr now), (''updatedAt'', JStr now),
                    (''source'', JStr ''TRANSCENDENCE'')])) (\<lambda>insightNode.
          bind_h (push_onto newMindMap ''nodes'' insightNode) (\<lambda>u.
          bind_h (new_cell (Obj [(''source'', JStr ''Persona_Core''), (''target'', JStr insightNodeId),
                    (''type'', JStr ''HIERARCHICAL''), (''strength'', JNum (8 / 10))])) (\<lambda>link.
          bind_h (push_onto newMindMap ''links'' link) (\<lambda>u.
          return_h newMindMap)))))"

text \<open>
  The refinement loop on the copy. \<open>ids_include ids v\<close> is \<open>ids.includes(v)\<close> for an array of
  strings.
\<close>

definition ids_include :: "string list \<Rightarrow> jsv \<Rightarrow> bool" where
  "ids_include ids v \<longleftrightarrow> v \<in> set (map JStr ids)"

definition update_content_h :: "string \<Rightarrow> refine_op \<Rightarrow> jsv \<Rightarrow> unit prog" where
  "update_content_h now op newMindMap =
     bind_h (get_prop newMindMap ''nodes'') (\<lambda>nodes.
     bind_h (elems nodes) (\<lambda>ns.
     bind_h (find_h (prop_is ''id'' (js_of (node_id_to_update op))) ns) (\<lambda>node.
     if truthy_v node then
       bind_h (set_prop node ''content'' (js_of (new_content op))) (\<lambda>u.
       set_prop node ''updatedAt'' (JStr now))
     else return_h ())))"

definition merge_nodes_h :: "string \<Rightarrow> nat \<Rightarrow> refine_op \<Rightarrow> jsv \<Rightarrow> unit prog" where
  "merge_nodes_h now ms op newMindMap =
     (case nodes_to_merge op of
        None \<Rightarrow> throw_h (TypeError ''cannot read properties of undefined'')
      | Some nodesToMergeIds \<Rightarrow>
          if length nodesToMergeIds < 2 then return_h ()
          else
            bind_h (get_prop newMindMap ''links'') (\<lambda>links.
            bind_h (elems links) (\<lambda>ls.
            bind_h (find_h (\<lambda>l. bind_h (get_prop l ''target'')
                                   (\<lambda>t. return_h (ids_include nodesToMergeIds t))) ls) (\<lambda>firstParentLink.
            bind_h (if truthy_v firstParentLink then
                      bind_h (get_prop firstParentLink ''source'') (\<lambda>src.
                        case src of JStr s \<Rightarrow> return_h src | _ \<Rightarrow> get_prop src ''id'')
                    else return_h (JStr ''Persona Core'')) (\<lambda>parentNodeId.
            let mergedNodeId = ''merged_'' @ show_nat ms
            in bind_h (new_cell (Obj [(''id'', JStr mergedNodeId), (''name'', js_of (merged_node_name op)),
                         (''content'', js_of (merged_node_content op)),
                         (''type'', JStr ''ABSTRACT_CONCEPT''), (''source'', JStr ''SYSTEM_REFINEMENT''),
                         (''createdAt'', JStr now), (''updatedAt'', JStr now)])) (\<lambda>newNode.
               bind_h (push_onto newMindMap ''nodes'' newNode) (\<lambda>u.
               bind_h (new_cell (Obj [(''source'', parentNodeId), (''target'', JStr mergedNodeId),
                         (''type'', JStr ''HIERARCHICAL''), (''strength'', JNum (8 / 10))])) (\<lambda>link.
               bind_h (push_onto newMindMap ''links'' link) (\<lambda>u.
               bind_h (get_prop newMindMap ''nodes'') (\<lambda>nodes.
               bind_h (elems nodes) (\<lambda>ns.
               bind_h (filter_h (\<lambda>n. bind_h (get_prop n ''id'')
                                      (\<lambda>i. return_h (\<not> ids_include nodesToMergeIds i))) ns) (\<lambda>keptNodes.
               bind_h (new_cell (Arr keptNodes)) (\<lambda>nodes'.
               bind_h (set_prop newMindMap ''nodes'' nodes') (\<lambda>u.
               bind_h (get_prop newMindMap ''links'') (\<lambda>links2.
               bind_h (elems links2) (\<lambda>ls2.
               bind_h (filter_h (\<lambda>l. bind_h (get_prop l ''target'') (\<lambda>t.
                                      if ids_include nodesToMergeIds t then return_h False
                                      else bind_h (get_prop l ''source'')
                                             (\<lambda>s. return_h (\<not> ids_include nodesToMergeIds s)))) ls2) (\<lambda>keptLinks.
               bind_h (new_cell (Arr keptLinks)) (\<lambda>links'.
               set_prop newMindMap ''links'' links'))))))))))))))))))"

definition relink_node_h :: "refine_op \<Rightarrow> jsv \<Rightarrow> unit prog" where
  "relink_node_h op newMindMap =
     bind_h (get_prop newMindMap ''links'') (\<lambda>links.
     bind_h (elems links) (\<lambda>ls.
     bind_h (find_h (is_parent_link (js_of (node_to_relink op))) ls) (\<lambda>link.
     if \<not> truthy_v link then return_h ()
     else
       bind_h (get_prop newMindMap ''nodes'') (\<lambda>nodes.
       bind_h (elems nodes) (\<lambda>ns.
       bind_h (some_h (prop_is ''id'' (js_of (new_parent_id op))) ns) (\<lambda>parentExists.
       if parentExists then set_prop link ''source'' (js_of (new_parent_id op))
       else return_h ()))))))"

definition refine_step_h :: "string \<Rightarrow> nat \<Rightarrow> refine_op \<Rightarrow> jsv \<Rightarrow> unit prog" where
  "refine_step_h now ms op newMindMap =
     catch_h
       (if operation op = ''UPDATE_NODE_CONTENT'' then update_content_h now op newMindMap
        else if operation op = ''MERGE_NODES'' then merge_nodes_h now ms op newMindMap
        else if operation op = ''RELINK_NODE'' then relink_node_h op newMindMap
        else return_h ())"

fun refine_loop_h :: "env \<Rightarrow> nat \<Rightarrow> refine_op list \<Rightarrow> jsv \<Rightarrow> unit prog" where
  "refine_loop_h env k [] newMindMap = return_h ()"
| "refine_loop_h env k (op # ops) newMindMap =
     bind_h (refine_step_h (iso_now env) (date_now env k) op newMindMap)
       (\<lambda>u. refine_loop_h env (Suc k) ops newMindMap)"

text \<open>The part of \<open>refine_mind_map\<close> after the answer of the service has been parsed.\<close>

definition apply_operations_h :: "env \<Rightarrow> refine_op list \<Rightarrow> jsv \<Rightarrow> jsv prog" where
  "apply_operations_h env operations mindMap =
     bind_h (clone mindMap) (\<lambda>newMindMap.
     bind_h (refine_loop_h env 0 operations newMindMap) (\<lambda>u. return_h newMindMap))"

text \<open>
  What the claim of isolation asks of a call that started in the heap \<open>h\<close> with the
  snapshot \<open>v\<close> and ended in the heap \<open>h'\<close>: every cell that existed before the call is as
  it was (all the call did to the heap is to add cells), and the snapshot serializes as
  it did before.
\<close>

definition untouched :: "heap \<Rightarrow> jsv \<Rightarrow> heap \<Rightarrow> bool" where
  "untouched h v h' \<longleftrightarrow> take (length h) h' = h \<and> (\<forall>f. stringify f h' v = stringify f h v)"

text \<open>
  A heap for the examples: a map with the node \<open>root\<close> and no links at address 3, and an
  empty file system at address 4.
\<close>

definition example_heap :: heap where
  "example_heap =
     [Obj [(''id'', JStr ''root''), (''name'', JStr ''Root'')], Arr [JRef 0], Arr [],
      Obj [(''nodes'', JRef 1), (''links'', JRef 2)], Obj []]"


section \<open>Path lookup\<close>


lemma inherited_not_folder: "inherited p name = Some v \<Longrightarrow> type_of v \<noteq> Some ''folder''"
  by (cases p) (auto simp: inherited_def split: if_splits)

lemma getNode_loop_not_folder:
  "type_of v \<noteq> Some ''folder'' \<Longrightarrow> segs \<noteq> [] \<Longrightarrow> getNode_loop v segs = Inr None"
  by (cases segs) simp_all

lemma getNode_loop_walks: "walks n segs r \<Longrightarrow> getNode_loop (Node n) segs = Inr (Some (Node r))"
  by (induction rule: walks.induct) (simp_all add: read_property_def)

lemma getNode_loop_append:
  "walks n before m \<Longrightarrow> getNode_loop (Node n) (before @ rest) = getNode_loop (Node m) rest"
  by (induction rule: walks.induct) (simp_all add: read_property_def)

lemma getNode_loop_inherits: "inherits n segs v \<Longrightarrow> getNode_loop (Node n) segs = Inr (Some v)"
proof -
  assume "inherits n segs v"
  then obtain before seg ch p where
    d: "segs = before @ [seg]" "walks n before (VFSFolder ch p)" "map_of ch seg = None"
       "inherited p seg = Some v" "truthy_value v"
    unfolding inherits_def by blast
  have "getNode_loop (Node n) segs = getNode_loop (Node (VFSFolder ch p)) [seg]"
    using d(1) getNode_loop_append [OF d(2)] by simp
  also have "\<dots> = Inr (Some v)" using d(3,4,5) by (simp add: read_property_def)
  finally show ?thesis .
qed

lemma getNode_loop_some:
  "getNode_loop (Node n) segs = Inr (Some v) \<Longrightarrow> (\<exists>r. v = Node r \<and> walks n segs r) \<or> inherits n segs v"
proof (induction segs arbitrary: n)
  case Nil
  then show ?case by (auto intro: walks_here)
next
  case (Cons s ss)
  show ?case
  proof (cases n)
    case (VFSFile c)
    with Cons.prems show ?thesis by simp
  next
    case (VFSFolder ch p)
    show ?thesis
    proof (cases "map_of ch s")
      case (Some c)
      with Cons.prems VFSFolder have "getNode_loop (Node c) ss = Inr (Some v)"
        by (simp add: read_property_def)
      from Cons.IH [OF this] show ?thesis
      proof
        assume "\<exists>r. v = Node r \<and> walks c ss r"
        then show ?thesis using VFSFolder Some by (auto intro: walks_down)
      next
        assume "inherits c ss v"
        then obtain before seg k q where
          d: "ss = before @ [seg]" "walks c before (VFSFolder k q)" "map_of k seg = None"
             "inherited q seg = Some v" "truthy_value v"
          unfolding inherits_def by blast
        have "s # ss = (s # before) @ [seg]" using d(1) by simp
        moreover have "walks n (s # before) (VFSFolder k q)"
          using VFSFolder Some d(2) by (simp add: walks_down)
        ultimately have "inherits n (s # ss) v" unfolding inherits_def using d(3,4,5) by blast
        then show ?thesis ..
      qed
    next
      case None
      show ?thesis
      proof (cases "inherited p s")
        case None
        with Cons.prems VFSFolder \<open>map_of ch s = None\<close> show ?thesis
          by (simp add: read_property_def)
      next
        case (Some child)
        from Cons.prems VFSFolder \<open>map_of ch s = None\<close> Some
        have t: "truthy_value child" and g: "getNode_loop child ss = Inr (Some v)"
          by (simp_all add: read_property_def split: if_splits)
        have "ss = []"
        proof (rule ccontr)
          assume "ss \<noteq> []"
          from getNode_loop_not_folder [OF inherited_not_folder [OF Some] this] g
          show False by simp
        qed
        with g have "v = child" by simp
        have "s # ss = [] @ [s]" using \<open>ss = []\<close> by simp
        moreover have "walks n [] (VFSFolder ch p)" using VFSFolder by (simp add: walks_here)
        ultimately have "inherits n (s # ss) v"
          unfolding inherits_def using \<open>map_of ch s = None\<close> Some t \<open>v = child\<close> by blast
        then show ?thesis ..
      qed
    qed
  qed
qed

lemma getNode_loop_none: "getNode_loop (Node n) segs = Inr None \<Longrightarrow> blocked n segs"
proof (induction segs arbitrary: n)
  case Nil
  then show ?case by simp
next
  case (Cons s ss)
  have here: "s # ss = [] @ s # ss" by simp
  have stay: "walks n [] n" by (rule walks_here)
  show ?case
  proof (cases n)
    case (VFSFile c)
    with here stay show ?thesis unfolding blocked_def by fastforce
  next
    case (VFSFolder ch p)
    show ?thesis
    proof (cases "map_of ch s")
      case None
      with here stay VFSFolder show ?thesis unfolding blocked_def by fastforce
    next
      case (Some c)
      with Cons.prems VFSFolder have "getNode_loop (Node c) ss = Inr None"
        by (simp add: read_property_def)
      from Cons.IH [OF this] obtain before seg rest m where
        d: "ss = before @ seg # rest" "walks c before m"
           "(case m of VFSFile x \<Rightarrow> True | VFSFolder k q \<Rightarrow> map_of k seg = None)"
        unfolding blocked_def by blast
      have "s # ss = (s # before) @ seg # rest" using d(1) by simp
      moreover have "walks n (s # before) m" using VFSFolder Some d(2) by (simp add: walks_down)
      ultimately show ?thesis unfolding blocked_def using d(3) by blast
    qed
  qed
qed

lemma getNode_loop_blocked:
  assumes "blocked n segs"
  shows "getNode_loop (Node n) segs = Inr None \<or>
         (\<exists>v. inherits n segs v \<and> getNode_loop (Node n) segs = Inr (Some v))"
proof -
  from assms obtain before seg rest m where
    d: "segs = before @ seg # rest" "walks n before m"
       "(case m of VFSFile x \<Rightarrow> True | VFSFolder k q \<Rightarrow> map_of k seg = None)"
    unfolding blocked_def by blast
  have run: "getNode_loop (Node n) segs = getNode_loop (Node m) (seg # rest)"
    using d(1) getNode_loop_append [OF d(2)] by simp
  show ?thesis
  proof (cases m)
    case (VFSFile c)
    with run show ?thesis by simp
  next
    case (VFSFolder k q)
    with d(3) have miss: "map_of k seg = None" by simp
    show ?thesis
    proof (cases "inherited q seg")
      case None
      with run VFSFolder miss show ?thesis by (simp add: read_property_def)
    next
      case (Some child)
      show ?thesis
      proof (cases "truthy_value child \<and> rest = []")
        case True
        with d(1,2) VFSFolder miss Some have "inherits n segs child"
          unfolding inherits_def by blast
        with getNode_loop_inherits [OF this] show ?thesis by blast
      next
        case False
        then have "getNode_loop (Node m) (seg # rest) = Inr None"
          using VFSFolder miss Some getNode_loop_not_folder [OF inherited_not_folder [OF Some], of rest]
          by (auto simp: read_property_def)
        with run show ?thesis by simp
      qed
    qed
  qed
qed

lemma getNode_loop_characterised:
  "(getNode_loop (Node n) segs = Inr (Some v) \<longleftrightarrow>
      (\<exists>r. v = Node r \<and> walks n segs r) \<or> inherits n segs v) \<and>
   (getNode_loop (Node n) segs = Inr None \<longleftrightarrow> blocked n segs \<and> (\<forall>u. \<not> inherits n segs u))"
proof -
  have some: "getNode_loop (Node n) segs = Inr (Some v) \<longleftrightarrow>
      (\<exists>r. v = Node r \<and> walks n segs r) \<or> inherits n segs v"
    using getNode_loop_some [of n segs v] getNode_loop_walks [of n segs] getNode_loop_inherits [of n segs v]
    by blast
  have none: "getNode_loop (Node n) segs = Inr None \<longleftrightarrow> blocked n segs \<and> (\<forall>u. \<not> inherits n segs u)"
  proof
    assume none: "getNode_loop (Node n) segs = Inr None"
    have "\<not> inherits n segs u" for u using getNode_loop_inherits [of n segs u] none by auto
    with getNode_loop_none [OF none] show "blocked n segs \<and> (\<forall>u. \<not> inherits n segs u)" by blast
  next
    assume "blocked n segs \<and> (\<forall>u. \<not> inherits n segs u)"
    with getNode_loop_blocked [of n segs] show "getNode_loop (Node n) segs = Inr None" by blast
  qed
  from some none show ?thesis by (rule conjI)
qed

text \<open>
  When the last segment is a name that no prototype holds, nothing is inherited and the
  lookup is the walk: a node exactly when the walk reaches it, not-found exactly when
  the walk is blocked.
\<close>

lemma inherited_names:
  "inherited p name = Some v \<Longrightarrow> name \<in> set object_prototype_names \<union> {''type'', ''content''}"
  by (cases p) (auto simp: inherited_def object_prototype_names_def split: if_splits)

lemma getNodeFromPath_plain_names:
  assumes "resolvePath path = [] \<or>
           last (resolvePath path) \<notin> set object_prototype_names \<union> {''type'', ''content''}"
  shows "(getNodeFromPath vfs path = Inr (Some (Node n)) \<longleftrightarrow>
            walks (VFSFolder (fst vfs) (snd vfs)) (resolvePath path) n) \<and>
         (getNodeFromPath vfs path = Inr None \<longleftrightarrow>
            blocked (VFSFolder (fst vfs) (snd vfs)) (resolvePath path))"
proof -
  have "\<not> inherits (VFSFolder (fst vfs) (snd vfs)) (resolvePath path) u" for u
  proof
    assume "inherits (VFSFolder (fst vfs) (snd vfs)) (resolvePath path) u"
    then obtain before seg p where "resolvePath path = before @ [seg]" "inherited p seg = Some u"
      unfolding inherits_def by blast
    with assms inherited_names [of p seg u] show False by simp
  qed
  with getNode_loop_characterised [of "VFSFolder (fst vfs) (snd vfs)" "resolvePath path" "Node n"]
  show ?thesis unfolding getNodeFromPath_def by simp
qed





text \<open>
  After a file has been written under the name \<open>__proto__\<close> the object has no entry of
  that name; the lookup finds the file through the prototype, and the content of the
  file under the name \<open>content\<close>.
\<close>

lemma getNodeFromPath_file_prototype:
  "getNodeFromPath ([], FilePrototype ''hi'') ''/__proto__'' = Inr (Some (Node (VFSFile ''hi''))) \<and>
   getNodeFromPath ([], FilePrototype ''hi'') ''/content'' = Inr (Some (Str ''hi'')) \<and>
   getNodeFromPath ([], FilePrototype ''hi'') ''/content/x'' = Inr None \<and>
   getNodeFromPath ([], FilePrototype []) ''/content'' = Inr None"
  by (simp add: getNodeFromPath_def resolvePath_def read_property_def inherited_def)

text \<open>
  The same reading of names decides what the two writing functions do with them. A
  directory whose name \<open>Object.prototype\<close> holds cannot be created: the inherited value
  is found and is not a folder. A file written under the name \<open>__proto__\<close> becomes the
  prototype of the object it is written to. The copy that both functions start from
  has the entries of its original and no prototype of its own.
\<close>

lemma ensureDirectoryExists_inherited_name:
  "fst (ensureDirectoryExists ([], ObjectPrototype) ''/constructor/x'' w) =
     Inl (Error (''Cannot create directory: a component of the path '' @ [CHR 0x27]
                 @ ''constructor'' @ [CHR 0x27] @ '' is not a directory.''))"
  by (simp add: ensureDirectoryExists_def resolvePath_def clone_vfs_def read_property_def
      inherited_def object_prototype_names_def)

lemma writeFileToVFS_proto_name:
  "fst (writeFileToVFS ([], ObjectPrototype) ''/__proto__'' ''hi'' w) = Inr ([], FilePrototype ''hi'')"
  by (simp add: writeFileToVFS_def ensureDirectoryExists_def resolvePath_def clone_vfs_def
      assign_entry_def Let_def)

lemma ensureDirectoryExists_copies:
  "fst (ensureDirectoryExists ([(''a'', VFSFolder [] (FilePrototype ''x''))], FilePrototype ''hi'') ''/'' w) =
     Inr ([(''a'', VFSFolder [] ObjectPrototype)], ObjectPrototype)"
  by (simp add: ensureDirectoryExists_def resolvePath_def clone_vfs_def)


section \<open>Creating a link\<close>

lemma node_exists_iff: "node_exists x ns \<longleftrightarrow> (\<exists>n \<in> set ns. x = Some (n_id n))"
  by (cases x) (auto simp: list_ex_iff)

text \<open>
  Claim C9. \<open>create_mind_map_link\<close> reports the endpoint error exactly when the source
  id or the target id is not the id of a node of the map, and then returns the input
  map and logs nothing; otherwise it returns the map with exactly one link appended,
  of strength 0.7, whatever links the map already has.
\<close>

theorem create_mind_map_link_endpoints:
  assumes "create_mind_map_link (Some a) g w = (r, w')"
  shows "\<exists>t. r = Inr t \<and>
    (result t = ''Error: Both source and target nodes must exist to create a link.'' \<longleftrightarrow>
       \<not> ((\<exists>n \<in> set (nodes g). map_of a ''source_node_id'' = Some (n_id n)) \<and>
          (\<exists>n \<in> set (nodes g). map_of a ''target_node_id'' = Some (n_id n)))) \<and>
    (if (\<exists>n \<in> set (nodes g). map_of a ''source_node_id'' = Some (n_id n)) \<and>
        (\<exists>n \<in> set (nodes g). map_of a ''target_node_id'' = Some (n_id n))
     then \<exists>l. newMindMapData t = Some (g\<lparr>links := links g @ [l]\<rparr>) \<and>
              Some (l_source l) = map_of a ''source_node_id'' \<and>
              Some (l_target l) = map_of a ''target_node_id'' \<and>
              l_type l = map_of a ''link_type'' \<and> l_label l = map_of a ''label'' \<and>
              l_strength l = 7 / 10 \<and>
              w' = logEvent (STATE_CHANGE ''MIND_MAP'' ''CREATE_LINK'' (LinkOnly l)) w
     else newMindMapData t = Some g \<and> w' = w)"
proof (cases "node_exists (map_of a ''source_node_id'') (nodes g) \<and> node_exists (map_of a ''target_node_id'') (nodes g)")
  case True
  then obtain s t where st: "map_of a ''source_node_id'' = Some s" "map_of a ''target_node_id'' = Some t"
    by (cases "map_of a ''source_node_id''"; cases "map_of a ''target_node_id''") simp_all
  define l where "l = \<lparr>l_source = s, l_target = t, l_type = map_of a ''link_type'',
                        l_strength = 7 / 10, l_label = map_of a ''label''\<rparr>"
  define msg where "msg = ''Successfully created a '' @ str_of (map_of a ''link_type'') @ '' link between ''
                      @ s @ '' and '' @ t @ ''.''"
  from True assms have r: "r = Inr (map_result (g\<lparr>links := links g @ [l]\<rparr>) msg)"
    and w': "w' = logEvent (STATE_CHANGE ''MIND_MAP'' ''CREATE_LINK'' (LinkOnly l)) w"
    by (simp_all add: create_mind_map_link_def Let_def st l_def msg_def)
  have ne: "msg \<noteq> ''Error: Both source and target nodes must exist to create a link.''"
    by (simp add: msg_def)
  have ex: "\<exists>k. newMindMapData (map_result (g\<lparr>links := links g @ [l]\<rparr>) msg) = Some (g\<lparr>links := links g @ [k]\<rparr>) \<and>
              Some (l_source k) = map_of a ''source_node_id'' \<and>
              Some (l_target k) = map_of a ''target_node_id'' \<and>
              l_type k = map_of a ''link_type'' \<and> l_label k = map_of a ''label'' \<and>
              l_strength k = 7 / 10 \<and>
              w' = logEvent (STATE_CHANGE ''MIND_MAP'' ''CREATE_LINK'' (LinkOnly k)) w"
    by (rule exI [of _ l]) (simp add: map_result_def result_only_def st l_def w')
  from True have both: "(\<exists>n \<in> set (nodes g). map_of a ''source_node_id'' = Some (n_id n)) \<and>
          (\<exists>n \<in> set (nodes g). map_of a ''target_node_id'' = Some (n_id n))"
    by (simp add: node_exists_iff)
  show ?thesis
    using r ne ex both by (simp add: map_result_def result_only_def)
next
  case False
  with assms have r: "r = Inr (map_result g ''Error: Both source and target nodes must exist to create a link.'')"
    and w': "w' = w"
    by (auto simp: create_mind_map_link_def Let_def)
  from False have nb: "\<not> ((\<exists>n \<in> set (nodes g). map_of a ''source_node_id'' = Some (n_id n)) \<and>
          (\<exists>n \<in> set (nodes g). map_of a ''target_node_id'' = Some (n_id n)))"
    by (simp add: node_exists_iff)
  have "(if (\<exists>n \<in> set (nodes g). map_of a ''source_node_id'' = Some (n_id n)) \<and>
        (\<exists>n \<in> set (nodes g). map_of a ''target_node_id'' = Some (n_id n)) then P else Q) = Q" for P Q :: bool
    using nb by (rule if_not_P)
  then show ?thesis
    using r w' nb by (auto simp add: map_result_def result_only_def)
qed


theorem create_mind_map_link_endpoints_witness:
  "create_mind_map_link (Some [(''source_node_id'', ''missing''), (''target_node_id'', ''root''),
       (''link_type'', ''related'')]) example_map example_world =
     (Inr (map_result example_map ''Error: Both source and target nodes must exist to create a link.''),
      example_world) \<and>
   (\<exists>t. fst (create_mind_map_link (Some [(''source_node_id'', ''a''), (''target_node_id'', ''b''),
       (''link_type'', ''related'')]) example_map example_world) = Inr t \<and>
      length (links (case newMindMapData t of Some g \<Rightarrow> g | None \<Rightarrow> example_map)) = 3)"
proof -
  have a: "create_mind_map_link (Some [(''source_node_id'', ''missing''), (''target_node_id'', ''root''),
       (''link_type'', ''related'')]) example_map example_world =
     (Inr (map_result example_map ''Error: Both source and target nodes must exist to create a link.''),
      example_world)"
    by (simp add: create_mind_map_link_def Let_def example_map_def example_node_def)
  have e: "(\<exists>n \<in> set (nodes example_map). Some ''a'' = Some (n_id n)) \<and>
           (\<exists>n \<in> set (nodes example_map). Some ''b'' = Some (n_id n))"
    by (simp add: example_map_def example_node_def)
  have l: "length (links example_map) = 2"
    by (simp add: example_map_def)
  from create_mind_map_link_endpoints [OF surjective_pairing,
      of "[(''source_node_id'', ''a''), (''target_node_id'', ''b''), (''link_type'', ''related'')]"
         example_map example_world]
  obtain t where t: "fst (create_mind_map_link (Some [(''source_node_id'', ''a''), (''target_node_id'', ''b''),
       (''link_type'', ''related'')]) example_map example_world) = Inr t"
    and "\<exists>l. newMindMapData t = Some (example_map\<lparr>links := links example_map @ [l]\<rparr>)"
    using e by auto
  then have "length (links (case newMindMapData t of Some g \<Rightarrow> g | None \<Rightarrow> example_map)) = 3"
    using l by auto
  with a t show ?thesis by blast
qed


section \<open>Ids of created nodes\<close>

lemma digit_char_code: "d < 10 \<Longrightarrow> of_char (digit_char d) = (48 + d :: nat)"
proof -
  assume "d < 10"
  then have "d \<in> {0, 1, 2, 3, 4, 5, 6, 7, 8, 9}" by auto
  then show ?thesis by (auto simp: digit_char_def)
qed

lemma read_show_nat: "read_nat (show_nat n) = n"
proof (induction n rule: show_nat.induct)
  case (1 n)
  show ?case
  proof (cases "n < 10")
    case True
    then show ?thesis by (simp add: show_nat.simps [of n] read_nat_def digit_char_code)
  next
    case False
    then have "read_nat (show_nat (n div 10)) = n div 10" using "1.IH" by simp
    moreover have "of_char (digit_char (n mod 10)) = (48 + n mod 10 :: nat)"
      by (rule digit_char_code) simp
    ultimately show ?thesis using False
      by (simp add: show_nat.simps [of n] read_nat_def)
  qed
qed

lemma show_nat_inj: "show_nat a = show_nat b \<longleftrightarrow> a = b"
  by (metis read_show_nat)

lemma show_nat_digits: "c \<in> set (show_nat n) \<Longrightarrow> 48 \<le> (of_char c :: nat) \<and> (of_char c :: nat) \<le> 57"
proof (induction n rule: show_nat.induct)
  case (1 n)
  show ?case
  proof (cases "n < 10")
    case True
    with "1.prems" have "c = digit_char n" by (simp add: show_nat.simps [of n])
    with True digit_char_code [of n] show ?thesis by simp
  next
    case False
    with "1.prems" have "c \<in> set (show_nat (n div 10)) \<or> c = digit_char (n mod 10)"
      by (auto simp add: show_nat.simps [of n])
    then show ?thesis
    proof
      assume "c \<in> set (show_nat (n div 10))"
      with False "1.IH" show ?thesis by simp
    next
      assume "c = digit_char (n mod 10)"
      with digit_char_code [of "n mod 10"] show ?thesis by simp
    qed
  qed
qed

lemma underscore_not_in_show_nat: "CHR ''_'' \<notin> set (show_nat n)"
  using show_nat_digits [of "CHR ''_''" n] by auto

lemma split_at_last_sep:
  "c \<notin> set s1 \<Longrightarrow> c \<notin> set s2 \<Longrightarrow> p1 @ c # s1 = p2 @ c # s2 \<Longrightarrow> p1 = p2 \<and> s1 = s2"
proof (induction p1 arbitrary: p2)
  case Nil
  then show ?case by (cases p2) auto
next
  case (Cons x p1)
  show ?case
  proof (cases p2)
    case Nil
    with Cons.prems show ?thesis by auto
  next
    case (Cons y p2')
    with Cons.prems Cons.IH [of p2'] show ?thesis by auto
  qed
qed

lemma new_node_id_eq:
  "new_node_id n1 t1 = new_node_id n2 t2 \<longleftrightarrow>
     take 20 (sanitize n1) = take 20 (sanitize n2) \<and> t1 = t2"
proof
  assume "new_node_id n1 t1 = new_node_id n2 t2"
  then have "take 20 (sanitize n1) @ CHR ''_'' # show_nat t1 = take 20 (sanitize n2) @ CHR ''_'' # show_nat t2"
    by (simp add: new_node_id_def)
  from split_at_last_sep [OF underscore_not_in_show_nat underscore_not_in_show_nat this]
  show "take 20 (sanitize n1) = take 20 (sanitize n2) \<and> t1 = t2"
    by (simp add: show_nat_inj)
next
  assume "take 20 (sanitize n1) = take 20 (sanitize n2) \<and> t1 = t2"
  then show "new_node_id n1 t1 = new_node_id n2 t2" by (simp add: new_node_id_def)
qed

lemma upsert_create:
  assumes "create_call a g"
  shows "\<exists>t n. upsert_mind_map_node env (Some a) g w =
           (Inr t, logEvent (STATE_CHANGE ''MIND_MAP'' ''CREATE_NODE''
              (NodeAndLink n (\<lparr>l_source = str_of (map_of a ''parent_node_id''), l_target = n_id n,
                 l_type = Some ''HIERARCHICAL'', l_strength = 9 / 10, l_label = None\<rparr>))) w) \<and>
         newMindMapData t = Some \<lparr>nodes = nodes g @ [n],
            links = links g @ [\<lparr>l_source = str_of (map_of a ''parent_node_id''), l_target = n_id n,
                 l_type = Some ''HIERARCHICAL'', l_strength = 9 / 10, l_label = None\<rparr>]\<rparr> \<and>
         n_id n = new_node_id (str_of (map_of a ''name'')) (date_now env 0)"
proof -
  from assms obtain nm where nm: "map_of a ''name'' = Some nm"
    by (auto simp: create_call_def)
  from assms have c: "\<not> truthy (map_of a ''node_id'')" "truthy (map_of a ''parent_node_id'')"
    "node_exists (map_of a ''parent_node_id'') (nodes g)"
    by (simp_all add: create_call_def)
  show ?thesis
    by (simp add: upsert_mind_map_node_def Let_def c nm map_result_def result_only_def)
qed

lemma node_exists_mono: "node_exists x ns \<Longrightarrow> node_exists x (ns @ ms)"
  by (cases x) (auto simp: list_ex_iff)

lemma create_call_mono: "create_call a g \<Longrightarrow> nodes g' = nodes g @ ms \<Longrightarrow> create_call a g'"
  by (simp add: create_call_def node_exists_mono)

lemma upsert_sequence_ids:
  "\<forall>c \<in> set calls. create_call (snd c) g \<Longrightarrow>
   map n_id (upsert_sequence calls g w) =
     map (\<lambda>c. new_node_id (str_of (map_of (snd c) ''name'')) (date_now (fst c) 0)) calls"
proof (induction calls arbitrary: g w)
  case Nil
  show ?case by simp
next
  case (Cons c calls)
  from Cons.prems have cc: "create_call (snd c) g" by simp
  from upsert_create [OF cc, of "fst c" w] obtain t n w' where
    u: "upsert_mind_map_node (fst c) (Some (snd c)) g w = (Inr t, w')"
    and g': "newMindMapData t = Some \<lparr>nodes = nodes g @ [n],
            links = links g @ [\<lparr>l_source = str_of (map_of (snd c) ''parent_node_id''), l_target = n_id n,
                 l_type = Some ''HIERARCHICAL'', l_strength = 9 / 10, l_label = None\<rparr>]\<rparr>"
    and n: "n_id n = new_node_id (str_of (map_of (snd c) ''name'')) (date_now (fst c) 0)"
    by blast
  let ?g' = "\<lparr>nodes = nodes g @ [n],
            links = links g @ [\<lparr>l_source = str_of (map_of (snd c) ''parent_node_id''), l_target = n_id n,
                 l_type = Some ''HIERARCHICAL'', l_strength = 9 / 10, l_label = None\<rparr>]\<rparr>"
  have "\<forall>c \<in> set calls. create_call (snd c) ?g'"
    using Cons.prems by (auto intro: create_call_mono [where ms = "[n]"])
  from Cons.IH [OF this] show ?case
    by (simp add: u g' n)
qed

lemma distinct_map_cong:
  "(\<And>x y. x \<in> set xs \<Longrightarrow> y \<in> set xs \<Longrightarrow> (f x = f y) = (h x = h y)) \<Longrightarrow>
   distinct (map f xs) = distinct (map h xs)"
proof (induction xs)
  case Nil
  show ?case by simp
next
  case (Cons x xs)
  have "(f x \<in> f ` set xs) = (h x \<in> h ` set xs)"
    using Cons.prems by (auto simp: image_iff) 
  moreover have "distinct (map f xs) = distinct (map h xs)"
    using Cons.IH Cons.prems by simp
  ultimately show ?case by simp
qed

text \<open>
  Claim C1, as amended. The claim says that the ids of the nodes a sequence of
  create-calls adds are pairwise distinct even within one millisecond. The id is the
  first 20 characters of the sanitized name, an underscore and \<open>Date.now()\<close>, so: for
  every sequence of create-calls, the new ids are pairwise distinct exactly when no two
  calls agree on both the millisecond and the first 20 characters of the sanitized name.
\<close>

theorem upsert_create_ids_distinct:
  assumes "\<forall>c \<in> set calls. create_call (snd c) g"
  shows "distinct (map n_id (upsert_sequence calls g w)) \<longleftrightarrow>
         distinct (map (\<lambda>c. (take 20 (sanitize (str_of (map_of (snd c) ''name''))), date_now (fst c) 0)) calls)"
proof -
  have "distinct (map (\<lambda>c. new_node_id (str_of (map_of (snd c) ''name'')) (date_now (fst c) 0)) calls)
      = distinct (map (\<lambda>c. (take 20 (sanitize (str_of (map_of (snd c) ''name''))), date_now (fst c) 0)) calls)"
    by (rule distinct_map_cong) (simp add: new_node_id_eq)
  then show ?thesis using upsert_sequence_ids [OF assms, of w] by simp
qed

text \<open>
  Two create-calls with the same name in the same millisecond add two nodes with the
  same id.
\<close>

theorem upsert_same_millisecond_counterexample:
  "\<not> distinct (map n_id (upsert_sequence
       [(example_env, [(''name'', ''X''), (''parent_node_id'', ''root'')]),
        (example_env, [(''name'', ''X''), (''parent_node_id'', ''root'')])] example_map example_world))"
proof -
  have c: "\<forall>c \<in> set [(example_env, [(''name'', ''X''), (''parent_node_id'', ''root'')]),
                 (example_env, [(''name'', ''X''), (''parent_node_id'', ''root'')])].
      create_call (snd c) example_map"
    by (simp add: create_call_def example_map_def example_node_def)
  show ?thesis
    unfolding upsert_sequence_ids [OF c, of example_world] by simp
qed

theorem upsert_create_ids_distinct_witness:
  "create_call [(''name'', ''X''), (''parent_node_id'', ''root'')] example_map \<and>
   create_call [(''name'', ''Y''), (''parent_node_id'', ''root'')] example_map \<and>
   distinct (map n_id (upsert_sequence
       [(example_env, [(''name'', ''X''), (''parent_node_id'', ''root'')]),
        (example_env, [(''name'', ''Y''), (''parent_node_id'', ''root'')])] example_map example_world))"
proof -
  have x: "create_call [(''name'', ''X''), (''parent_node_id'', ''root'')] example_map"
    and y: "create_call [(''name'', ''Y''), (''parent_node_id'', ''root'')] example_map"
    by (simp_all add: create_call_def example_map_def example_node_def)
  from x y have c: "\<forall>c \<in> set [(example_env, [(''name'', ''X''), (''parent_node_id'', ''root'')]),
                 (example_env, [(''name'', ''Y''), (''parent_node_id'', ''root'')])].
      create_call (snd c) example_map"
    by simp
  have s: "take 20 (sanitize ''X'') \<noteq> take 20 (sanitize ''Y'')"
    by (simp add: sanitize_def is_alnum_def)
  have "distinct (map n_id (upsert_sequence
       [(example_env, [(''name'', ''X''), (''parent_node_id'', ''root'')]),
        (example_env, [(''name'', ''Y''), (''parent_node_id'', ''root'')])] example_map example_world))"
    unfolding upsert_create_ids_distinct [OF c, of example_world] using s by simp
  with x y show ?thesis by blast
qed

section \<open>Merging nodes\<close>

lemma merge_nodes_links_clean:
  "l \<in> set (links (fst (merge_nodes now ms ids nm ct m w))) \<Longrightarrow>
     l_source l \<notin> set ids \<and> l_target l \<notin> set ids"
  by (auto simp: merge_nodes_def Let_def split: if_splits)

lemma merge_nodes_nodes_clean:
  "n \<in> set (nodes (fst (merge_nodes now ms ids nm ct m w))) \<Longrightarrow> n_id n \<notin> set ids"
  by (auto simp: merge_nodes_def Let_def split: if_splits)

lemma merge_nodes_linked:
  assumes "merge_parent ids m \<notin> set ids" and "''merged_'' @ show_nat ms \<notin> set ids"
  shows "fst (merge_nodes now ms ids nm ct m w) =
     \<lparr>nodes = filter (\<lambda>n. n_id n \<notin> set ids) (nodes m) @ [merged_node now ms nm ct],
      links = filter (\<lambda>l. l_target l \<notin> set ids \<and> l_source l \<notin> set ids) (links m) @
        [\<lparr>l_source = merge_parent ids m, l_target = ''merged_'' @ show_nat ms,
          l_type = Some ''HIERARCHICAL'', l_strength = 8 / 10, l_label = None\<rparr>]\<rparr>"
  using assms by (simp add: merge_nodes_def Let_def merged_node_def)

text \<open>
  Claim C2 says that after a merge of at least two ids no link has a merged id as an
  endpoint (which is \<open>merge_nodes_links_clean\<close>), and that the new node has exactly one
  link from the computed parent. The loop pushes that link and then filters the links
  by the merged ids, so when the computed parent is itself one of the merged ids the
  link to the new node is removed with the rest. Here \<open>a\<close> and \<open>b\<close> are merged in a
  map whose links are \<open>a \<rightarrow> b\<close> and \<open>root \<rightarrow> a\<close>: the computed parent is \<open>a\<close>, and the
  result has the new node and no link at all.
\<close>

theorem merge_nodes_drops_parent_link:
  "merge_parent [''a'', ''b''] example_map = ''a'' \<and>
   fst (merge_nodes ''2025-01-01T00:00:00.000Z'' 5 [''a'', ''b''] (Some ''AB'') (Some ''both'')
          example_map example_world) =
     \<lparr>nodes = [example_node ''root'',
               merged_node ''2025-01-01T00:00:00.000Z'' 5 (Some ''AB'') (Some ''both'')],
      links = []\<rparr>"
  by (simp add: merge_nodes_def merge_parent_def Let_def example_map_def example_node_def
      example_link_def merged_node_def)

text \<open>
  Claim C3 says that the parent of the replacement node is the source of the first
  link of type \<open>HIERARCHICAL\<close> into a merged node. The search of the \<open>MERGE_NODES\<close> case
  does not look at the type of the link (the searches of \<open>RELINK_NODE\<close> and of the
  update path of \<open>upsert_mind_map_node\<close> do): with a \<open>RELATED\<close> link \<open>X \<rightarrow> a\<close> before the
  hierarchical link \<open>P \<rightarrow> a\<close>, the parent chosen is \<open>X\<close>, not \<open>P\<close>.
\<close>

theorem merge_parent_ignores_link_type:
  "merge_parent [''a'', ''b'']
     \<lparr>nodes = [example_node ''X'', example_node ''P'', example_node ''a'', example_node ''b''],
      links = [example_link ''X'' ''a'' ''RELATED'', example_link ''P'' ''a'' ''HIERARCHICAL'',
               example_link ''P'' ''b'' ''HIERARCHICAL'']\<rparr> = ''X'' \<and>
   spec_merge_parent [''a'', ''b'']
     \<lparr>nodes = [example_node ''X'', example_node ''P'', example_node ''a'', example_node ''b''],
      links = [example_link ''X'' ''a'' ''RELATED'', example_link ''P'' ''a'' ''HIERARCHICAL'',
               example_link ''P'' ''b'' ''HIERARCHICAL'']\<rparr> = ''P''"
  by (simp add: merge_parent_def spec_merge_parent_def example_link_def)

lemma merge_parent_hierarchical_only:
  "\<forall>l \<in> set (links m). l_target l \<in> set ids \<longrightarrow> l_type l = Some ''HIERARCHICAL'' \<Longrightarrow>
   merge_parent ids m = spec_merge_parent ids m"
proof -
  assume a: "\<forall>l \<in> set (links m). l_target l \<in> set ids \<longrightarrow> l_type l = Some ''HIERARCHICAL''"
  have "find (\<lambda>l. l_target l \<in> set ids) ls = find (\<lambda>l. l_type l = Some ''HIERARCHICAL'' \<and> l_target l \<in> set ids) ls"
    if "\<forall>l \<in> set ls. l_target l \<in> set ids \<longrightarrow> l_type l = Some ''HIERARCHICAL''" for ls
    using that by (induction ls) auto
  from this [OF a] show ?thesis by (simp add: merge_parent_def spec_merge_parent_def)
qed


section \<open>The two-stage synthesis\<close>

text \<open>
  Claim C8. When the pre-filter request succeeds and its answer yields no node id,
  \<open>synthesize_knowledge\<close> returns the message that no relevant node was found, as a
  result and not as an exception, and the request queue has grown by the pre-filter
  request alone: the synthesis request is never submitted.
\<close>

theorem synthesize_stops_on_empty_prefilter:
  assumes ready: "ai_ready env" and nonempty: "nodes mindMap \<noteq> []"
    and first: "complete env (length (queue w)) (prefilterPayload topic mindMap) = Inr response"
    and none: "relevant_ids (r_text response) = []"
  shows "synthesize_knowledge env modelName topic mindMap w =
           (Inr (''No specific nodes in the knowledge graph were identified as relevant to the topic \"''
                 @ str_of topic @ ''\".''),
            w\<lparr>queue := queue w @
               [\<lparr>q_payload = prefilterPayload topic mindMap,
                 q_agentLabel = ''Persona Agent (Tool: synthesize_knowledge/pre-filter)'',
                 q_model = ''gemini-flash-latest'', q_status = succeeded, q_error = None,
                 q_resultSummary = Some (summarise env response)\<rparr>]\<rparr>)"
  using assms
  by (simp add: synthesize_knowledge_def enqueueGeminiRequest_def Let_def)

theorem synthesize_stops_on_empty_prefilter_witness:
  "ai_ready example_env \<and> nodes example_map \<noteq> [] \<and>
   complete example_env (length (queue example_world)) (prefilterPayload (Some ''owls'') example_map)
     = Inr \<lparr>r_text = '' '', r_image = None\<rparr> \<and>
   relevant_ids (r_text \<lparr>r_text = '' '', r_image = None\<rparr>) = [] \<and>
   fst (synthesize_knowledge example_env ''gemini-2.5-pro'' (Some ''owls'') example_map example_world) =
     Inr ''No specific nodes in the knowledge graph were identified as relevant to the topic \"owls\".'' \<and>
   length (queue (snd (synthesize_knowledge example_env ''gemini-2.5-pro'' (Some ''owls'') example_map example_world))) = 1"
proof -
  have a: "ai_ready example_env" by (simp add: example_env_def)
  have b: "nodes example_map \<noteq> []" by (simp add: example_map_def)
  have c: "complete example_env (length (queue example_world)) (prefilterPayload (Some ''owls'') example_map)
     = Inr \<lparr>r_text = '' '', r_image = None\<rparr>" by (simp add: example_env_def)
  have d: "relevant_ids (r_text \<lparr>r_text = '' '', r_image = None\<rparr>) = []"
    by (simp add: relevant_ids_def trim_def is_space_def)
  have e: "queue example_world = []" by (simp add: example_world_def)
  from synthesize_stops_on_empty_prefilter [OF a b c d, of "''gemini-2.5-pro''"]
  have "fst (synthesize_knowledge example_env ''gemini-2.5-pro'' (Some ''owls'') example_map example_world) =
     Inr ''No specific nodes in the knowledge graph were identified as relevant to the topic \"owls\".''"
    and "length (queue (snd (synthesize_knowledge example_env ''gemini-2.5-pro'' (Some ''owls'') example_map example_world))) = 1"
    using e by simp_all
  with a b c d show ?thesis by blast
qed


section \<open>Audit events of the file system\<close>

lemma writeFileToVFS_world:
  "writeFileToVFS vfs path content w = (r, w') \<Longrightarrow>
     (case r of
        Inr newVFS \<Rightarrow> w' = logEvent (STATE_CHANGE ''VFS'' ''WRITE_FILE''
                                   (PathContentLength path (length content))) w
      | Inl e \<Rightarrow> w' = w)"
  by (auto simp: writeFileToVFS_def ensureDirectoryExists_def Let_def
      split: if_splits sum.splits)

text \<open>
  Claim C6, as amended. The claim says that every successful \<open>writeFile\<close> and every
  successful \<open>ensureDirectory\<close> emits exactly one audit event and that a failing call
  emits none. \<open>writeFileToVFS\<close> does so (one \<open>VFS\<close>/\<open>WRITE_FILE\<close> event with the path
  when it succeeds, none when it throws). \<open>ensureDirectoryExists\<close> itself never logs;
  the \<open>mkdir\<close> command of the terminal, which calls it, logs one \<open>VFS\<close>/\<open>MKDIR\<close> event
  with the path when it succeeds and none when it throws.
\<close>

theorem vfs_audit_events:
  "(\<forall>r w'. writeFileToVFS vfs path content w = (r, w') \<longrightarrow>
      (case r of
         Inr newVFS \<Rightarrow> audit w' = audit w @ [STATE_CHANGE ''VFS'' ''WRITE_FILE''
                                              (PathContentLength path (length content))]
       | Inl e \<Rightarrow> audit w' = audit w)) \<and>
   snd (ensureDirectoryExists vfs path w) = w \<and>
   (\<forall>rest r w'. tokens None [] command = ''mkdir'' # rest \<longrightarrow>
      run_terminal_command env command vfs mindMap w = (r, w') \<longrightarrow>
      (case r of
         Inr t \<Rightarrow> audit w' = audit w @ [STATE_CHANGE ''VFS'' ''MKDIR''
                   (PathOnly (hd (filter (\<lambda>p. \<not> startsWith p ''-'') rest)))]
       | Inl e \<Rightarrow> audit w' = audit w))"
proof (intro conjI allI impI)
  fix r w'
  assume "writeFileToVFS vfs path content w = (r, w')"
  from writeFileToVFS_world [OF this]
  show "case r of
         Inr newVFS \<Rightarrow> audit w' = audit w @ [STATE_CHANGE ''VFS'' ''WRITE_FILE''
                                              (PathContentLength path (length content))]
       | Inl e \<Rightarrow> audit w' = audit w"
    by (cases r) (simp_all add: logEvent_def)
next
  show "snd (ensureDirectoryExists vfs path w) = w"
    by (simp add: ensureDirectoryExists_def)
next
  fix rest r w'
  assume t: "tokens None [] command = ''mkdir'' # rest"
    and run: "run_terminal_command env command vfs mindMap w = (r, w')"
  from run show "case r of
         Inr t \<Rightarrow> audit w' = audit w @ [STATE_CHANGE ''VFS'' ''MKDIR''
                   (PathOnly (hd (filter (\<lambda>p. \<not> startsWith p ''-'') rest)))]
       | Inl e \<Rightarrow> audit w' = audit w"
    by (auto simp: run_terminal_command_def t Let_def ensureDirectoryExists_def logEvent_def
        split: if_splits sum.splits)
qed


text \<open>A successful \<open>ensureDirectoryExists\<close> leaves the audit log as it was.\<close>

theorem ensureDirectoryExists_silent_counterexample:
  "fst (ensureDirectoryExists ([], ObjectPrototype) ''/research/notes'' example_world) =
     Inr ([(''research'', VFSFolder [(''notes'', VFSFolder [] ObjectPrototype)] ObjectPrototype)],
          ObjectPrototype) \<and>
   audit (snd (ensureDirectoryExists ([], ObjectPrototype) ''/research/notes'' example_world)) =
     audit example_world"
  by (simp add: ensureDirectoryExists_def resolvePath_def clone_vfs_def read_property_def
      inherited_def object_prototype_names_def put_folder_def)


theorem vfs_audit_events_witness:
  "audit (snd (writeFileToVFS ([], ObjectPrototype) ''/a/b.txt'' ''hi'' example_world)) =
     [STATE_CHANGE ''VFS'' ''WRITE_FILE'' (PathContentLength ''/a/b.txt'' (length ''hi''))] \<and>
   audit (snd (writeFileToVFS ([], ObjectPrototype) ''/'' ''hi'' example_world)) = [] \<and>
   tokens None [] ''mkdir /research/notes'' = ''mkdir'' # [''/research/notes''] \<and>
   audit (snd (run_terminal_command example_env ''mkdir /research/notes'' ([], ObjectPrototype) example_map example_world)) =
     [STATE_CHANGE ''VFS'' ''MKDIR'' (PathOnly ''/research/notes'')]"
proof -
  have w1: "fst (writeFileToVFS ([], ObjectPrototype) ''/a/b.txt'' ''hi'' example_world) =
      Inr ([(''a'', VFSFolder [(''b.txt'', VFSFile ''hi'')] ObjectPrototype)], ObjectPrototype)"
    by (simp add: writeFileToVFS_def resolvePath_def ensureDirectoryExists_def Let_def clone_vfs_def
        read_property_def inherited_def object_prototype_names_def put_folder_def assign_entry_def)
  have w2: "fst (writeFileToVFS ([], ObjectPrototype) ''/'' ''hi'' example_world) = Inl (Error ''Invalid file path provided: \"/\"'')"
    by (simp add: writeFileToVFS_def resolvePath_def Let_def)
  have toks: "tokens None [] ''mkdir /research/notes'' = ''mkdir'' # [''/research/notes'']"
    by (simp add: is_quote_def is_space_def flush_def)
  have m: "fst (run_terminal_command example_env ''mkdir /research/notes'' ([], ObjectPrototype) example_map example_world) =
      Inr \<lparr>t_result = [],
            t_newVFS = Some ([(''research'', VFSFolder [(''notes'', VFSFolder [] ObjectPrototype)]
                                               ObjectPrototype)], ObjectPrototype),
            t_newMindMap = None, t_filePathHandled = None\<rparr>"
    by (simp add: run_terminal_command_def Let_def ensureDirectoryExists_def resolvePath_def parent_flag_def
        is_quote_def is_space_def flush_def clone_vfs_def read_property_def inherited_def
        object_prototype_names_def put_folder_def)
  have e: "audit example_world = []" by (simp add: example_world_def)
  note T1 = vfs_audit_events [of "([], ObjectPrototype)" "''/a/b.txt''" "''hi''" example_world "''mkdir /research/notes''" example_env example_map]
  note T2 = vfs_audit_events [of "([], ObjectPrototype)" "''/''" "''hi''" example_world "''mkdir /research/notes''" example_env example_map]
  note A = T1 [THEN conjunct1]
  note B = T2 [THEN conjunct1]
  note C = T1 [THEN conjunct2, THEN conjunct2]
  have a1: "audit (snd (writeFileToVFS ([], ObjectPrototype) ''/a/b.txt'' ''hi'' example_world)) =
     [STATE_CHANGE ''VFS'' ''WRITE_FILE'' (PathContentLength ''/a/b.txt'' (length ''hi''))]"
    using A [rule_format, OF surjective_pairing] by (simp only: w1 e sum.case append_Nil)
  have a2: "audit (snd (writeFileToVFS ([], ObjectPrototype) ''/'' ''hi'' example_world)) = []"
    using B [rule_format, OF surjective_pairing] by (simp only: w2 e sum.case)
  have a3: "audit (snd (run_terminal_command example_env ''mkdir /research/notes'' ([], ObjectPrototype) example_map example_world)) =
     [STATE_CHANGE ''VFS'' ''MKDIR'' (PathOnly (hd (filter (\<lambda>p. \<not> startsWith p ''-'') [''/research/notes''])))]"
    using C [rule_format, OF toks surjective_pairing] by (simp only: m e sum.case append_Nil)
  then have a3': "audit (snd (run_terminal_command example_env ''mkdir /research/notes'' ([], ObjectPrototype) example_map example_world)) =
     [STATE_CHANGE ''VFS'' ''MKDIR'' (PathOnly ''/research/notes'')]"
    by simp
  show ?thesis by (rule conjI [OF a1 conjI [OF a2 conjI [OF toks a3']]])
qed



section \<open>The write command and its parent flag\<close>

lemma assign_entry_lookup:
  "read_property (assign_entry f c v) f = Some (Node (VFSFile c))"
  by (auto simp: assign_entry_def read_property_def inherited_def update_conv')

lemma map_sum_id_Inr: "map_sum id g x = Inr y \<longleftrightarrow> (\<exists>s. x = Inr s \<and> y = g s)"
  by (cases x) auto

lemma read_property_folder:
  "read_property v p = Some (Node (VFSFolder ch q)) \<Longrightarrow> map_of (fst v) p = Some (VFSFolder ch q)"
  by (cases "snd v") (auto simp: read_property_def inherited_def split: option.splits if_splits)

lemma assign_file_lookup:
  "assign_file ps f c v = Inr v' \<Longrightarrow>
     getNode_loop (Node (VFSFolder (fst v') (snd v'))) (ps @ [f]) = Inr (Some (Node (VFSFile c)))"
proof (induction ps arbitrary: v v')
  case Nil
  then show ?case using assign_entry_lookup [of f c v] by auto
next
  case (Cons p ps)
  from Cons.prems obtain ch q sub where
    ch: "read_property v p = Some (Node (VFSFolder ch q))"
    and sub: "assign_file ps f c (ch, q) = Inr sub"
    and v': "v' = put_folder p sub v"
    by (auto simp: map_sum_id_Inr split: option.splits js_value.splits VFSNode.splits)
  from Cons.IH [OF sub] show ?case
    by (simp add: v' put_folder_def read_property_def update_conv')
qed

lemma writeFileToVFS_lookup:
  assumes "writeFileToVFS vfs path content w = (Inr newVFS, w')"
  shows "getNodeFromPath newVFS path = Inr (Some (Node (VFSFile content)))"
proof -
  from assms have ne: "resolvePath path \<noteq> []"
    by (auto simp: writeFileToVFS_def Let_def split: if_splits)
  with assms obtain v where
    "assign_file (butlast (resolvePath path)) (last (resolvePath path)) content v = Inr newVFS"
    by (auto simp: writeFileToVFS_def Let_def split: if_splits sum.splits prod.splits)
  from assign_file_lookup [OF this] ne show ?thesis
    by (simp add: getNodeFromPath_def)
qed

text \<open>
  Claim C10, as amended. The claim says that every \<open>write <path> <content> --parent=<id>\<close>
  with an unknown \<open>id\<close> succeeds. The unknown parent never makes the command fail, but
  the write itself can: for every command whose tokens are the verb \<open>write\<close>, at least
  two arguments that are not flags, and a \<open>--parent=\<close> flag naming no node of the map,
  if writing the file succeeds then the command succeeds, the file is in the new
  file system, the map returned is the input map, and the only event logged is the
  one of the write.
\<close>

theorem write_with_missing_parent:
  assumes toks: "tokens None [] command = ''write'' # rest"
    and args: "filter (\<lambda>p. \<not> startsWith p ''-'') rest = filepath # c # cs"
    and flag: "parent_flag (filter (\<lambda>p. startsWith p ''-'') rest) = Some pid"
    and missing: "\<not> node_exists (Some pid) (nodes mindMap)"
    and written: "writeFileToVFS vfs filepath (strip_quotes (join '' '' (c # cs))) w = (Inr newVFS, w')"
  shows "run_terminal_command env command vfs mindMap w =
           (Inr \<lparr>t_result = ''Wrote '' @ show_nat (length (strip_quotes (join '' '' (c # cs))))
                    @ '' chars to '' @ filepath @ ''.'' @ [CHR 0x0A, CHR 0x0A]
                    @ ''--- FILE CONTENT ---'' @ [CHR 0x0A] @ strip_quotes (join '' '' (c # cs)),
                  t_newVFS = Some newVFS, t_newMindMap = Some mindMap,
                  t_filePathHandled = Some filepath\<rparr>, w') \<and>
         getNodeFromPath newVFS filepath =
           Inr (Some (Node (VFSFile (strip_quotes (join '' '' (c # cs)))))) \<and>
         audit w' = audit w @ [STATE_CHANGE ''VFS'' ''WRITE_FILE''
            (PathContentLength filepath (length (strip_quotes (join '' '' (c # cs)))))] \<and>
         queue w' = queue w"
proof -
  have run: "run_terminal_command env command vfs mindMap w =
           (Inr \<lparr>t_result = ''Wrote '' @ show_nat (length (strip_quotes (join '' '' (c # cs))))
                    @ '' chars to '' @ filepath @ ''.'' @ [CHR 0x0A, CHR 0x0A]
                    @ ''--- FILE CONTENT ---'' @ [CHR 0x0A] @ strip_quotes (join '' '' (c # cs)),
                  t_newVFS = Some newVFS, t_newMindMap = Some mindMap,
                  t_filePathHandled = Some filepath\<rparr>, w')"
    using missing
    by (simp add: run_terminal_command_def terminal_write_def toks args flag written Let_def)
  have look: "getNodeFromPath newVFS filepath =
      Inr (Some (Node (VFSFile (strip_quotes (join '' '' (c # cs))))))"
    by (rule writeFileToVFS_lookup [OF written])
  have "w' = logEvent (STATE_CHANGE ''VFS'' ''WRITE_FILE''
            (PathContentLength filepath (length (strip_quotes (join '' '' (c # cs)))))) w"
    using writeFileToVFS_world [OF written] by simp
  then have "audit w' = audit w @ [STATE_CHANGE ''VFS'' ''WRITE_FILE''
            (PathContentLength filepath (length (strip_quotes (join '' '' (c # cs)))))]"
    and "queue w' = queue w"
    by (simp_all add: logEvent_def)
  with run look show ?thesis by simp
qed

text \<open>A \<open>write\<close> to a path without a file name throws, whatever the flag says.\<close>

theorem write_invalid_path_counterexample:
  "run_terminal_command example_env ''write / x --parent=nope'' ([], ObjectPrototype) example_map example_world =
     (Inl (Error ''Invalid file path provided: \"/\"''), example_world)"
  by (simp add: run_terminal_command_def terminal_write_def writeFileToVFS_def resolvePath_def
      parent_flag_def is_quote_def is_space_def flush_def strip_quotes_def Let_def)


theorem write_with_missing_parent_witness:
  "tokens None [] ''write /notes/a.txt \"hello world\" --parent=nope'' =
     ''write'' # [''/notes/a.txt'', ''\"hello world\"'', ''--parent=nope''] \<and>
   \<not> node_exists (Some ''nope'') (nodes example_map) \<and>
   fst (run_terminal_command example_env ''write /notes/a.txt \"hello world\" --parent=nope''
          ([], ObjectPrototype) example_map example_world) =
     Inr \<lparr>t_result = ''Wrote 11 chars to /notes/a.txt.'' @ [CHR 0x0A, CHR 0x0A]
                @ ''--- FILE CONTENT ---'' @ [CHR 0x0A] @ ''hello world'',
           t_newVFS = Some ([(''notes'', VFSFolder [(''a.txt'', VFSFile ''hello world'')] ObjectPrototype)],
                           ObjectPrototype),
           t_newMindMap = Some example_map, t_filePathHandled = Some ''/notes/a.txt''\<rparr>"
proof -
  have toks: "tokens None [] ''write /notes/a.txt \"hello world\" --parent=nope'' =
     ''write'' # [''/notes/a.txt'', ''\"hello world\"'', ''--parent=nope'']"
    by (simp add: is_quote_def is_space_def flush_def)
  have args: "filter (\<lambda>p. \<not> startsWith p ''-'') [''/notes/a.txt'', ''\"hello world\"'', ''--parent=nope'']
     = ''/notes/a.txt'' # ''\"hello world\"'' # []"
    by simp
  have flag: "parent_flag (filter (\<lambda>p. startsWith p ''-'') [''/notes/a.txt'', ''\"hello world\"'', ''--parent=nope''])
     = Some ''nope''"
    by (simp add: parent_flag_def)
  have missing: "\<not> node_exists (Some ''nope'') (nodes example_map)"
    by (simp add: example_map_def example_node_def)
  have content: "strip_quotes (join '' '' (''\"hello world\"'' # [])) = ''hello world''"
    by (simp add: strip_quotes_def)
  have "fst (writeFileToVFS ([], ObjectPrototype) ''/notes/a.txt'' ''hello world'' example_world)
     = Inr ([(''notes'', VFSFolder [(''a.txt'', VFSFile ''hello world'')] ObjectPrototype)], ObjectPrototype)"
    by (simp add: writeFileToVFS_def resolvePath_def ensureDirectoryExists_def Let_def clone_vfs_def
        read_property_def inherited_def object_prototype_names_def put_folder_def assign_entry_def)
  then have written: "writeFileToVFS ([], ObjectPrototype) ''/notes/a.txt''
         (strip_quotes (join '' '' (''\"hello world\"'' # []))) example_world
     = (Inr ([(''notes'', VFSFolder [(''a.txt'', VFSFile ''hello world'')] ObjectPrototype)], ObjectPrototype),
        snd (writeFileToVFS ([], ObjectPrototype) ''/notes/a.txt'' ''hello world'' example_world))"
    unfolding content by (simp add: prod_eq_iff)
  have len: "show_nat (length ''hello world'') = ''11''"
    by (simp add: show_nat.simps digit_char_def)
  from write_with_missing_parent [OF toks args flag missing written, of example_env]
  have "fst (run_terminal_command example_env ''write /notes/a.txt \"hello world\" --parent=nope''
          ([], ObjectPrototype) example_map example_world) =
     Inr \<lparr>t_result = ''Wrote 11 chars to /notes/a.txt.'' @ [CHR 0x0A, CHR 0x0A]
                @ ''--- FILE CONTENT ---'' @ [CHR 0x0A] @ ''hello world'',
           t_newVFS = Some ([(''notes'', VFSFolder [(''a.txt'', VFSFile ''hello world'')] ObjectPrototype)],
                           ObjectPrototype),
           t_newMindMap = Some example_map, t_filePathHandled = Some ''/notes/a.txt''\<rparr>"
    unfolding content len by simp
  with toks missing show ?thesis by blast
qed


section \<open>The dispatcher contains every failure\<close>

lemma osc_refl [simp]: "only_state_changes w w"
  by (simp add: only_state_changes_def)

lemma osc_trans: "only_state_changes w w1 \<Longrightarrow> only_state_changes w1 w2 \<Longrightarrow> only_state_changes w w2"
  by (auto simp: only_state_changes_def)

lemma osc_log [simp]: "only_state_changes w (logEvent (STATE_CHANGE d a x) w)"
  by (simp add: only_state_changes_def logEvent_def)

lemma osc_log_after: "only_state_changes w w1 \<Longrightarrow> only_state_changes w (logEvent (STATE_CHANGE d a x) w1)"
  by (rule osc_trans [OF _ osc_log])

lemma osc_enqueue: "enqueueGeminiRequest env p a m w = (r, w') \<Longrightarrow> only_state_changes w w'"
  by (auto simp: enqueueGeminiRequest_def only_state_changes_def split: sum.splits)

lemma osc_writeFile: "writeFileToVFS vfs path content w = (r, w') \<Longrightarrow> only_state_changes w w'"
  by (auto simp: writeFileToVFS_def ensureDirectoryExists_def Let_def split: if_splits sum.splits)

lemma osc_search: "search_the_web env m q w = (r, w') \<Longrightarrow> only_state_changes w w'"
  by (auto simp: search_the_web_def split: if_splits sum.splits prod.splits dest: osc_enqueue)

lemma osc_recall: "recall_memory env m q vs w = (r, w') \<Longrightarrow> only_state_changes w w'"
  by (auto simp: recall_memory_def Let_def split: if_splits sum.splits prod.splits dest: osc_enqueue)

lemma osc_synthesize: "synthesize_knowledge env m t g w = (r, w') \<Longrightarrow> only_state_changes w w'"
  by (auto simp: synthesize_knowledge_def Let_def split: if_splits sum.splits prod.splits
      dest!: osc_enqueue intro: osc_trans)

lemma osc_generateImage: "generateImage env p w = (r, w') \<Longrightarrow> only_state_changes w w'"
  by (auto simp: generateImage_def split: if_splits sum.splits prod.splits option.splits dest: osc_enqueue)

lemma osc_editImage: "editImage env p d mt w = (r, w') \<Longrightarrow> only_state_changes w w'"
  by (auto simp: editImage_def split: if_splits sum.splits prod.splits option.splits dest: osc_enqueue)

lemma osc_upsert: "upsert_mind_map_node env args g w = (r, w') \<Longrightarrow> only_state_changes w w'"
  by (auto simp: upsert_mind_map_node_def Let_def split: if_splits option.splits)

lemma osc_create_link: "create_mind_map_link args g w = (r, w') \<Longrightarrow> only_state_changes w w'"
  by (auto simp: create_mind_map_link_def Let_def split: if_splits option.splits)

lemma osc_transcend: "transcend env m i g w = (r, w') \<Longrightarrow> only_state_changes w w'"
  by (auto simp: transcend_def Let_def split: if_splits sum.splits prod.splits
      dest!: osc_enqueue intro: osc_log_after)


lemma osc_merge: "merge_nodes now ms ids nm ct g w = (g', line, w') \<Longrightarrow> only_state_changes w w'"
  by (auto simp: merge_nodes_def Let_def)

lemma osc_refine_step:
  "refine_step now ms op (g, summary, w) = (g', summary', w') \<Longrightarrow> only_state_changes w w'"
  by (auto simp: refine_step_def Let_def split: if_splits option.splits prod.splits dest: osc_merge)

lemma osc_refine_loop:
  "refine_loop env k ops (g, summary, w) = (g', summary', w') \<Longrightarrow> only_state_changes w w'"
proof (induction ops arbitrary: k g summary w)
  case Nil
  then show ?case by simp
next
  case (Cons op ops)
  obtain g1 s1 w1 where step: "refine_step (iso_now env) (date_now env k) op (g, summary, w) = (g1, s1, w1)"
    by (cases "refine_step (iso_now env) (date_now env k) op (g, summary, w)") auto
  with Cons.prems have "refine_loop env (Suc k) ops (g1, s1, w1) = (g', summary', w')" by simp
  from osc_trans [OF osc_refine_step [OF step] Cons.IH [OF this]] show ?case .
qed

lemma osc_refine: "refine_mind_map env m g w = (r, w') \<Longrightarrow> only_state_changes w w'"
proof (cases "ai_ready env")
  case False
  assume "refine_mind_map env m g w = (r, w')"
  with False show ?thesis by (simp add: refine_mind_map_def)
next
  case True
  assume run: "refine_mind_map env m g w = (r, w')"
  obtain r1 w1 where enq: "enqueueGeminiRequest env (refinePayload env m g) ''Persona Agent (Tool: refine_mind_map)'' m w = (r1, w1)"
    by (cases "enqueueGeminiRequest env (refinePayload env m g) ''Persona Agent (Tool: refine_mind_map)'' m w") auto
  note o1 = osc_enqueue [OF enq]
  show ?thesis
  proof (cases r1)
    case (Inl e)
    with run True enq o1 show ?thesis
      by (simp add: refine_mind_map_def)
  next
    case (Inr response)
    show ?thesis
    proof (cases "parse_operations env (r_text response)")
      case (Inl e)
      with run True enq o1 Inr show ?thesis
        by (simp add: refine_mind_map_def)
    next
      case parsed: (Inr parsed)
      obtain g2 s2 w2 where loop: "refine_loop env 0 (case parsed of None \<Rightarrow> [] | Some ops \<Rightarrow> ops) (g, [], w1) = (g2, s2, w2)"
        by (cases "refine_loop env 0 (case parsed of None \<Rightarrow> [] | Some ops \<Rightarrow> ops) (g, [], w1)") auto
      with run True enq Inr parsed have "w' = w2"
        by (simp add: refine_mind_map_def Let_def)
      with osc_trans [OF o1 osc_refine_loop [OF loop]] show ?thesis by simp
    qed
  qed
qed

lemma osc_terminal_write:
  "terminal_write env args pid vfs g w = (r, w') \<Longrightarrow> only_state_changes w w'"
  by (auto simp: terminal_write_def Let_def split: if_splits sum.splits prod.splits
      dest!: osc_writeFile intro: osc_log_after)

lemma osc_terminal:
  "run_terminal_command env command vfs g w = (r, w') \<Longrightarrow> only_state_changes w w'"
  by (auto simp: run_terminal_command_def Let_def ensureDirectoryExists_def
      split: if_splits sum.splits prod.splits option.splits js_value.splits VFSNode.splits
      dest!: osc_writeFile osc_terminal_write)

lemma osc_with_arg:
  "(\<And>v w r w'. tool v w = (r, w') \<Longrightarrow> only_state_changes w w') \<Longrightarrow>
   with_arg args key tool w = (r, w') \<Longrightarrow> only_state_changes w w'"
  by (cases args) (auto simp: with_arg_def split: sum.splits prod.splits)

lemma osc_case_search: "case_search_the_web env m args w = (r, w') \<Longrightarrow> only_state_changes w w'"
  by (cases args) (auto simp: case_search_the_web_def split: sum.splits prod.splits dest: osc_search)

lemma osc_case_delegate: "case_delegate env m args vfs pd w = (r, w') \<Longrightarrow> only_state_changes w w'"
  by (cases args) (auto simp: case_delegate_def Let_def split: sum.splits prod.splits dest: osc_writeFile)

lemma osc_case_terminal: "case_run_terminal_command env args vfs g w = (r, w') \<Longrightarrow> only_state_changes w w'"
  by (cases args) (auto simp: case_run_terminal_command_def split: sum.splits prod.splits option.splits dest: osc_terminal)

lemma osc_case_generate: "case_generate_image env args w = (r, w') \<Longrightarrow> only_state_changes w w'"
  by (cases args) (auto simp: case_generate_image_def split: sum.splits prod.splits dest: osc_generateImage)

lemma osc_case_edit: "case_edit_image env args ch w = (r, w') \<Longrightarrow> only_state_changes w w'"
  by (cases args) (auto simp: case_edit_image_def Let_def split: sum.splits prod.splits option.splits dest: osc_editImage)

lemma osc_case_commit: "case_commit_changes args w = (r, w') \<Longrightarrow> only_state_changes w w'"
  by (cases args) (auto simp: case_commit_changes_def)

lemma osc_case_status: "case_update_task_status args w = (r, w') \<Longrightarrow> only_state_changes w w'"
  by (cases args) (auto simp: case_update_task_status_def Let_def)

lemma osc_case_save: "case_save_chat_history env vfs ch w = (r, w') \<Longrightarrow> only_state_changes w w'"
  by (auto simp: case_save_chat_history_def Let_def split: if_splits sum.splits prod.splits dest: osc_writeFile)


lemma osc_tool_switch:
  assumes "tool_switch env m tc g vfs vs pd ch w = (r, w')"
  shows "only_state_changes w w'"
  using assms unfolding tool_switch_def Let_def
  by (auto split: if_splits sum.splits
      dest: osc_case_search osc_case_delegate osc_case_terminal osc_recall osc_upsert
        osc_create_link osc_synthesize osc_refine osc_transcend osc_case_generate osc_case_edit
        osc_case_commit osc_case_status osc_case_save
      elim!: osc_with_arg [rotated])

text \<open>
  Claim C4. For every tool call, \<open>executeTool\<close> returns a result and never an exception,
  and what it adds to the audit log is the \<open>STATE_CHANGE\<close> events of the tool followed
  by exactly one \<open>AGENT_ACTION\<close> event with the tool name, the arguments and the
  outcome: the result text when the \<open>switch\<close> returned, and \<open>FAILED:\<close> with the error
  message when it threw, in which case the result returned is the failure message.
\<close>

theorem executeTool_contains_failures:
  "\<exists>t w' evs outcome.
     executeTool env modelName toolCall mindMapData vfs vectorStore personaDescription chatHistory w
       = (Inr t, w') \<and>
     audit w' = audit w @ evs @ [AGENT_ACTION (fc_name toolCall) (fc_args toolCall) outcome] \<and>
     list_all is_state_change evs \<and>
     (case fst (tool_switch env modelName toolCall mindMapData vfs vectorStore personaDescription
                  chatHistory w) of
        Inr toolResult \<Rightarrow> t = toolResult \<and> outcome = result toolResult
      | Inl error \<Rightarrow>
          outcome = ''FAILED: '' @ error_message error \<and>
          result t = ''Tool \"'' @ fc_name toolCall @ ''\" failed to execute. Error: ''
                     @ error_message error \<and>
          terminalOutput t = Some [(''error'', result t)])"
proof -
  obtain r w1 where sw: "tool_switch env modelName toolCall mindMapData vfs vectorStore
      personaDescription chatHistory w = (r, w1)"
    by (cases "tool_switch env modelName toolCall mindMapData vfs vectorStore
      personaDescription chatHistory w") auto
  from osc_tool_switch [OF sw] obtain evs where
    evs: "audit w1 = audit w @ evs" "list_all is_state_change evs"
    by (auto simp: only_state_changes_def)
  show ?thesis
  proof (cases r)
    case (Inr toolResult)
    have "executeTool env modelName toolCall mindMapData vfs vectorStore personaDescription chatHistory w
       = (Inr toolResult, logEvent (AGENT_ACTION (fc_name toolCall) (fc_args toolCall) (result toolResult)) w1)"
      by (simp add: executeTool_def try_catch_def Let_def sw Inr)
    moreover have "audit (logEvent (AGENT_ACTION (fc_name toolCall) (fc_args toolCall) (result toolResult)) w1)
       = audit w @ evs @ [AGENT_ACTION (fc_name toolCall) (fc_args toolCall) (result toolResult)]"
      by (simp add: logEvent_def evs)
    ultimately show ?thesis using evs(2) by (simp add: sw Inr)
  next
    case (Inl error)
    define friendly where "friendly = ''Tool \"'' @ fc_name toolCall @ ''\" failed to execute. Error: ''
                     @ error_message error"
    define t where "t = (result_only friendly)\<lparr>terminalOutput := Some [(''error'', friendly)]\<rparr>"
    have "executeTool env modelName toolCall mindMapData vfs vectorStore personaDescription chatHistory w
       = (Inr t, logEvent (AGENT_ACTION (fc_name toolCall) (fc_args toolCall) (''FAILED: '' @ error_message error)) w1)"
      by (simp add: executeTool_def try_catch_def Let_def sw Inl t_def friendly_def)
    moreover have "audit (logEvent (AGENT_ACTION (fc_name toolCall) (fc_args toolCall) (''FAILED: '' @ error_message error)) w1)
       = audit w @ evs @ [AGENT_ACTION (fc_name toolCall) (fc_args toolCall) (''FAILED: '' @ error_message error)]"
      by (simp add: logEvent_def evs)
    moreover have "result t = friendly" "terminalOutput t = Some [(''error'', result t)]"
      by (simp_all add: t_def result_only_def)
    ultimately show ?thesis using evs(2) by (simp add: sw Inl friendly_def)
  qed
qed


theorem executeTool_contains_failures_witness:
  "fst (tool_switch example_env ''gemini-2.5-flash''
          \<lparr>fc_name = ''run_terminal_command'', fc_args = Some [(''command'', ''frobnicate'')]\<rparr>
          example_map ([], ObjectPrototype) [] ''persona'' [] example_world) = Inl (Error ''Unknown command: frobnicate'') \<and>
   (\<exists>t evs.
      fst (executeTool example_env ''gemini-2.5-flash''
             \<lparr>fc_name = ''run_terminal_command'', fc_args = Some [(''command'', ''frobnicate'')]\<rparr>
             example_map ([], ObjectPrototype) [] ''persona'' [] example_world) = Inr t \<and>
      result t = ''Tool \"run_terminal_command\" failed to execute. Error: Unknown command: frobnicate'' \<and>
      audit (snd (executeTool example_env ''gemini-2.5-flash''
             \<lparr>fc_name = ''run_terminal_command'', fc_args = Some [(''command'', ''frobnicate'')]\<rparr>
             example_map ([], ObjectPrototype) [] ''persona'' [] example_world)) =
        evs @ [AGENT_ACTION ''run_terminal_command'' (Some [(''command'', ''frobnicate'')])
                 ''FAILED: Unknown command: frobnicate''] \<and>
      list_all is_state_change evs)"
proof -
  define tc where "tc = \<lparr>fc_name = ''run_terminal_command'', fc_args = Some [(''command'', ''frobnicate'')]\<rparr>"
  have sw: "fst (tool_switch example_env ''gemini-2.5-flash'' tc example_map ([], ObjectPrototype) [] ''persona'' [] example_world)
      = Inl (Error ''Unknown command: frobnicate'')"
    by (simp add: tc_def tool_switch_def case_run_terminal_command_def run_terminal_command_def Let_def
        parent_flag_def is_quote_def is_space_def flush_def)
  have e: "audit example_world = []" by (simp add: example_world_def)
  from executeTool_contains_failures [of example_env "''gemini-2.5-flash''" tc example_map "([], ObjectPrototype)" "[]" "''persona''" "[]" example_world]
  obtain t w' evs outcome where
    run: "executeTool example_env ''gemini-2.5-flash'' tc example_map ([], ObjectPrototype) [] ''persona'' [] example_world = (Inr t, w')"
    and au: "audit w' = audit example_world @ evs @ [AGENT_ACTION (fc_name tc) (fc_args tc) outcome]"
    and sc: "list_all is_state_change evs"
    and cs: "(case fst (tool_switch example_env ''gemini-2.5-flash'' tc example_map ([], ObjectPrototype) [] ''persona'' [] example_world) of
        Inr toolResult \<Rightarrow> t = toolResult \<and> outcome = result toolResult
      | Inl error \<Rightarrow>
          outcome = ''FAILED: '' @ error_message error \<and>
          result t = ''Tool \"'' @ fc_name tc @ ''\" failed to execute. Error: '' @ error_message error \<and>
          terminalOutput t = Some [(''error'', result t)])"
    by blast
  from cs have o: "outcome = ''FAILED: Unknown command: frobnicate''"
    and r: "result t = ''Tool \"run_terminal_command\" failed to execute. Error: Unknown command: frobnicate''"
    unfolding sw by (simp_all add: tc_def)
  have f: "fst (executeTool example_env ''gemini-2.5-flash'' tc example_map ([], ObjectPrototype) [] ''persona'' [] example_world) = Inr t"
    and s: "snd (executeTool example_env ''gemini-2.5-flash'' tc example_map ([], ObjectPrototype) [] ''persona'' [] example_world) = w'"
    using run by simp_all
  have "audit (snd (executeTool example_env ''gemini-2.5-flash'' tc example_map ([], ObjectPrototype) [] ''persona'' [] example_world)) =
        evs @ [AGENT_ACTION ''run_terminal_command'' (Some [(''command'', ''frobnicate'')])
                 ''FAILED: Unknown command: frobnicate'']"
    unfolding s au e o by (simp add: tc_def)
  with f r sc have "\<exists>t evs.
      fst (executeTool example_env ''gemini-2.5-flash'' tc example_map ([], ObjectPrototype) [] ''persona'' [] example_world) = Inr t \<and>
      result t = ''Tool \"run_terminal_command\" failed to execute. Error: Unknown command: frobnicate'' \<and>
      audit (snd (executeTool example_env ''gemini-2.5-flash'' tc example_map ([], ObjectPrototype) [] ''persona'' [] example_world)) =
        evs @ [AGENT_ACTION ''run_terminal_command'' (Some [(''command'', ''frobnicate'')])
                 ''FAILED: Unknown command: frobnicate''] \<and>
      list_all is_state_change evs"
    by (intro exI conjI)
  with sw show ?thesis unfolding tc_def by (rule conjI)
qed


section \<open>Copy-on-write isolation\<close>

lemma keeps_return: "Q x \<Longrightarrow> keeps n Q (return_h x)"
  by (simp add: keeps_def return_h_def)

lemma keeps_throw: "keeps n Q (throw_h e)"
  by (simp add: keeps_def throw_h_def)

lemma keeps_bind:
  assumes "keeps n P m" and "\<And>x. P x \<Longrightarrow> keeps n Q (f x)"
  shows "keeps n Q (bind_h m f)"
  unfolding keeps_def
proof (intro allI impI)
  fix h r h'
  assume ok: "region_ok n h" and run: "bind_h m f h = (r, h')"
  obtain r1 h1 where m: "m h = (r1, h1)" by (cases "m h") auto
  from assms(1) ok m have 1: "region_ok n h1" "take n h1 = take n h" "\<forall>x. r1 = Inr x \<longrightarrow> P x"
    by (auto simp: keeps_def)
  show "region_ok n h' \<and> take n h' = take n h \<and> (\<forall>x. r = Inr x \<longrightarrow> Q x)"
  proof (cases r1)
    case (Inl e)
    with run m 1 show ?thesis by (auto simp: bind_h_def)
  next
    case (Inr x)
    with run m have "f x h1 = (r, h')" by (simp add: bind_h_def)
    moreover from Inr 1 have "P x" by simp
    ultimately show ?thesis using assms(2) [of x] 1 by (auto simp: keeps_def)
  qed
qed

lemma keeps_weaken: "keeps n P m \<Longrightarrow> (\<And>x. P x \<Longrightarrow> Q x) \<Longrightarrow> keeps n Q m"
  by (auto simp: keeps_def)

lemma keeps_if: "(c \<Longrightarrow> keeps n Q a) \<Longrightarrow> (\<not> c \<Longrightarrow> keeps n Q b) \<Longrightarrow> keeps n Q (if c then a else b)"
  by simp

lemma keeps_catch: "keeps n P m \<Longrightarrow> keeps n (\<lambda>u. True) (catch_h m)"
  by (auto simp: keeps_def catch_h_def split: prod.splits sum.splits)

lemma region_ok_cell: "region_ok n h \<Longrightarrow> n \<le> a \<Longrightarrow> a < length h \<Longrightarrow> cell_fresh n (h ! a)"
  by (simp add: region_ok_def)

lemma region_ok_append: "region_ok n h \<Longrightarrow> cell_fresh n c \<Longrightarrow> region_ok n (h @ [c])"
  by (auto simp: region_ok_def nth_append)

lemma region_ok_update: "region_ok n h \<Longrightarrow> cell_fresh n c \<Longrightarrow> region_ok n (h[a := c])"
proof (cases "a < length h")
  case True
  assume "region_ok n h" "cell_fresh n c"
  with True show ?thesis by (auto simp: region_ok_def nth_list_update)
next
  case False
  assume "region_ok n h" "cell_fresh n c"
  with False show ?thesis by (simp add: list_update_beyond)
qed

lemma keeps_new_cell: "cell_fresh n c \<Longrightarrow> keeps n (fresh n) (new_cell c)"
  by (auto simp: keeps_def new_cell_def region_ok_append) (simp add: region_ok_def)

lemma fresh_map_of: "list_all (\<lambda>kv. fresh n (snd kv)) fs \<Longrightarrow> map_of fs k = Some v \<Longrightarrow> fresh n v"
  by (induction fs) (auto split: if_splits)

lemma keeps_get_prop: "fresh n v \<Longrightarrow> keeps n (fresh n) (get_prop v k)"
proof (cases v)
  case (JRef a)
  assume "fresh n v"
  with JRef have a: "n \<le> a" by simp
  show ?thesis unfolding keeps_def
  proof (intro allI impI)
    fix h r h'
    assume ok: "region_ok n h" and run: "get_prop v k h = (r, h')"
    show "region_ok n h' \<and> take n h' = take n h \<and> (\<forall>x. r = Inr x \<longrightarrow> fresh n x)"
    proof (cases "a < length h")
      case False
      with run JRef ok show ?thesis by auto
    next
      case True
      note c = region_ok_cell [OF ok a True]
      show ?thesis
      proof (cases "h ! a")
        case (Obj fs)
        with c have "list_all (\<lambda>kv. fresh n (snd kv)) fs" by simp
        with run JRef True Obj ok show ?thesis
          by (auto split: option.splits dest: fresh_map_of)
      next
        case (Arr xs)
        with run JRef True ok show ?thesis by auto
      qed
    qed
  qed
qed (auto simp: keeps_def)

lemma keeps_get_prop_any: "keeps n (\<lambda>x. True) (get_prop v k)"
  by (cases v) (auto simp: keeps_def split: cell.splits)

lemma fresh_update: "list_all (\<lambda>kv. fresh n (snd kv)) fs \<Longrightarrow> fresh n v \<Longrightarrow>
    list_all (\<lambda>kv. fresh n (snd kv)) (AList.update k v fs)"
  by (induction fs) auto

lemma keeps_set_prop: "fresh n target \<Longrightarrow> fresh n v \<Longrightarrow> keeps n (\<lambda>u. True) (set_prop target k v)"
proof (cases target)
  case (JRef a)
  assume f: "fresh n target" "fresh n v"
  with JRef have a: "n \<le> a" by simp
  show ?thesis unfolding keeps_def
  proof (intro allI impI)
    fix h r h'
    assume ok: "region_ok n h" and run: "set_prop target k v h = (r, h')"
    show "region_ok n h' \<and> take n h' = take n h \<and> (\<forall>x. r = Inr x \<longrightarrow> True)"
    proof (cases "a < length h")
      case False
      with run JRef ok show ?thesis by auto
    next
      case True
      note c = region_ok_cell [OF ok a True]
      show ?thesis
      proof (cases "h ! a")
        case (Obj fs)
        with c f(2) have "cell_fresh n (Obj (AList.update k v fs))" by (simp add: fresh_update)
        from region_ok_update [OF ok this, of a] run JRef True Obj a show ?thesis by auto
      next
        case (Arr xs)
        with run JRef True ok show ?thesis by auto
      qed
    qed
  qed
qed (auto simp: keeps_def)

lemma keeps_push: "fresh n target \<Longrightarrow> fresh n v \<Longrightarrow> keeps n (\<lambda>u. True) (push target v)"
proof (cases target)
  case (JRef a)
  assume f: "fresh n target" "fresh n v"
  with JRef have a: "n \<le> a" by simp
  show ?thesis unfolding keeps_def
  proof (intro allI impI)
    fix h r h'
    assume ok: "region_ok n h" and run: "push target v h = (r, h')"
    show "region_ok n h' \<and> take n h' = take n h \<and> (\<forall>x. r = Inr x \<longrightarrow> True)"
    proof (cases "a < length h")
      case False
      with run JRef ok show ?thesis by auto
    next
      case True
      note c = region_ok_cell [OF ok a True]
      show ?thesis
      proof (cases "h ! a")
        case (Arr xs)
        with c f(2) have "cell_fresh n (Arr (xs @ [v]))" by simp
        from region_ok_update [OF ok this, of a] run JRef True Arr a show ?thesis by auto
      next
        case (Obj fs)
        with run JRef True ok show ?thesis by auto
      qed
    qed
  qed
qed (auto simp: keeps_def)

lemma keeps_elems: "fresh n v \<Longrightarrow> keeps n (list_all (fresh n)) (elems v)"
proof (cases v)
  case (JRef a)
  assume "fresh n v"
  with JRef have a: "n \<le> a" by simp
  show ?thesis unfolding keeps_def
  proof (intro allI impI)
    fix h r h'
    assume ok: "region_ok n h" and run: "elems v h = (r, h')"
    show "region_ok n h' \<and> take n h' = take n h \<and> (\<forall>x. r = Inr x \<longrightarrow> list_all (fresh n) x)"
    proof (cases "a < length h")
      case False
      with run JRef ok show ?thesis by auto
    next
      case True
      from region_ok_cell [OF ok a True] run JRef True ok show ?thesis
        by (cases "h ! a") auto
    qed
  qed
qed (auto simp: keeps_def)

lemma keeps_elems_any: "keeps n (\<lambda>x. True) (elems v)"
  by (cases v) (auto simp: keeps_def split: cell.splits)


lemma fresh_mono: "fresh m v \<Longrightarrow> n \<le> m \<Longrightarrow> fresh n v"
  by (cases v) auto

lemma cell_fresh_mono: "cell_fresh m c \<Longrightarrow> n \<le> m \<Longrightarrow> cell_fresh n c"
  by (cases c) (auto simp: list_all_iff intro: fresh_mono)

lemma parse_allocates:
  "parse j h = (v, h') \<Longrightarrow>
     (\<exists>ex. h' = h @ ex \<and> fresh (length h) v \<and> list_all (cell_fresh (length h)) ex)"
  "parse_fields fs h = (kvs, h') \<Longrightarrow>
     (\<exists>ex. h' = h @ ex \<and> list_all (\<lambda>kv. fresh (length h) (snd kv)) kvs \<and> list_all (cell_fresh (length h)) ex)"
  "parse_elems es h = (vs, h') \<Longrightarrow>
     (\<exists>ex. h' = h @ ex \<and> list_all (fresh (length h)) vs \<and> list_all (cell_fresh (length h)) ex)"
proof (induction j h and fs h and es h arbitrary: v h' and kvs h' and vs h' rule: parse_parse_fields_parse_elems.induct)
  case (4 fs h)
  obtain kvs h1 where p: "parse_fields fs h = (kvs, h1)" by (cases "parse_fields fs h") auto
  from "4.IH" [OF p] obtain ex where ex: "h1 = h @ ex" "list_all (\<lambda>kv. fresh (length h) (snd kv)) kvs"
    "list_all (cell_fresh (length h)) ex" by blast
  from "4.prems" p have "v = JRef (length h1)" "h' = h1 @ [Obj kvs]" by simp_all
  with ex show ?case by (intro exI [of _ "ex @ [Obj kvs]"]) simp
next
  case (5 es h)
  obtain vs h1 where p: "parse_elems es h = (vs, h1)" by (cases "parse_elems es h") auto
  from "5.IH" [OF p] obtain ex where ex: "h1 = h @ ex" "list_all (fresh (length h)) vs"
    "list_all (cell_fresh (length h)) ex" by blast
  from "5.prems" p have "v = JRef (length h1)" "h' = h1 @ [Arr vs]" by simp_all
  with ex show ?case by (intro exI [of _ "ex @ [Arr vs]"]) simp
next
  case (7 k j fs h)
  obtain v1 h1 where p1: "parse j h = (v1, h1)" by (cases "parse j h") auto
  obtain rest h2 where p2: "parse_fields fs h1 = (rest, h2)" by (cases "parse_fields fs h1") auto
  from "7.IH"(1) [OF p1] obtain ex1 where ex1: "h1 = h @ ex1" "fresh (length h) v1"
    "list_all (cell_fresh (length h)) ex1" by blast
  from "7.IH"(2) [OF p1 [symmetric] p2] obtain ex2 where ex2: "h2 = h1 @ ex2"
    "list_all (\<lambda>kv. fresh (length h1) (snd kv)) rest" "list_all (cell_fresh (length h1)) ex2" by blast
  have le: "length h \<le> length h1" using ex1(1) by simp
  from ex2(2) le have r: "list_all (\<lambda>kv. fresh (length h) (snd kv)) rest"
    by (auto simp: list_all_iff intro: fresh_mono)
  from ex2(3) le have c: "list_all (cell_fresh (length h)) ex2"
    by (auto simp: list_all_iff intro: cell_fresh_mono)
  from "7.prems" p1 p2 have "kvs = (k, v1) # rest" "h' = h2" by simp_all
  with ex1 ex2(1) r c show ?case by (intro exI [of _ "ex1 @ ex2"]) simp
next
  case (9 j es h)
  obtain v1 h1 where p1: "parse j h = (v1, h1)" by (cases "parse j h") auto
  obtain rest h2 where p2: "parse_elems es h1 = (rest, h2)" by (cases "parse_elems es h1") auto
  from "9.IH"(1) [OF p1] obtain ex1 where ex1: "h1 = h @ ex1" "fresh (length h) v1"
    "list_all (cell_fresh (length h)) ex1" by blast
  from "9.IH"(2) [OF p1 [symmetric] p2] obtain ex2 where ex2: "h2 = h1 @ ex2"
    "list_all (fresh (length h1)) rest" "list_all (cell_fresh (length h1)) ex2" by blast
  have le: "length h \<le> length h1" using ex1(1) by simp
  from ex2(2) le have r: "list_all (fresh (length h)) rest"
    by (auto simp: list_all_iff intro: fresh_mono)
  from ex2(3) le have c: "list_all (cell_fresh (length h)) ex2"
    by (auto simp: list_all_iff intro: cell_fresh_mono)
  from "9.prems" p1 p2 have "vs = v1 # rest" "h' = h2" by simp_all
  with ex1 ex2(1) r c show ?case by (intro exI [of _ "ex1 @ ex2"]) simp
qed auto

lemma region_ok_extend:
  "region_ok n h \<Longrightarrow> list_all (cell_fresh n) ex \<Longrightarrow> region_ok n (h @ ex)"
  by (auto simp: region_ok_def nth_append list_all_length)

lemma keeps_clone: "keeps n (fresh n) (clone v)"
  unfolding keeps_def
proof (intro allI impI)
  fix h r h'
  assume ok: "region_ok n h" and run: "clone v h = (r, h')"
  then have n: "n \<le> length h" by (simp add: region_ok_def)
  show "region_ok n h' \<and> take n h' = take n h \<and> (\<forall>x. r = Inr x \<longrightarrow> fresh n x)"
  proof (cases "v = JUndef \<or> stringify (Suc (length h)) h v = None")
    case True
    with run ok show ?thesis by (auto simp: clone_def split: if_splits)
  next
    case False
    then obtain j where j: "stringify (Suc (length h)) h v = Some j" and v: "v \<noteq> JUndef" by auto
    obtain c h1 where p: "parse j h = (c, h1)" by (cases "parse j h") auto
    from parse_allocates(1) [OF p] obtain ex where ex: "h1 = h @ ex" "fresh (length h) c"
      "list_all (cell_fresh (length h)) ex" by blast
    from ex(3) n have "list_all (cell_fresh n) ex"
      by (auto simp: list_all_iff intro: cell_fresh_mono)
    from region_ok_extend [OF ok this] have "region_ok n h1" by (simp add: ex(1))
    moreover have "take n h1 = take n h" using n by (simp add: ex(1))
    moreover have "fresh n c" using ex(2) n by (rule fresh_mono)
    moreover from run j v p have "r = Inr c" "h' = h1" by (simp_all add: clone_def)
    ultimately show ?thesis by simp
  qed
qed

lemma keeps_find_h:
  "(\<And>x. fresh n x \<Longrightarrow> keeps n (\<lambda>b. True) (p x)) \<Longrightarrow> list_all (fresh n) xs \<Longrightarrow>
   keeps n (fresh n) (find_h p xs)"
proof (induction xs)
  case Nil
  show ?case by (simp add: keeps_return)
next
  case (Cons x xs)
  from Cons.prems(2) have x: "fresh n x" and xs: "list_all (fresh n) xs" by simp_all
  show ?case
    unfolding find_h.simps
    by (rule keeps_bind [OF Cons.prems(1) [OF x]])
       (simp add: keeps_return x Cons.IH [OF Cons.prems(1) xs])
qed

lemma keeps_some_h:
  "(\<And>x. fresh n x \<Longrightarrow> keeps n (\<lambda>b. True) (p x)) \<Longrightarrow> list_all (fresh n) xs \<Longrightarrow>
   keeps n (\<lambda>b. True) (some_h p xs)"
proof (induction xs)
  case Nil
  show ?case by (simp add: keeps_return)
next
  case (Cons x xs)
  from Cons.prems(2) have x: "fresh n x" and xs: "list_all (fresh n) xs" by simp_all
  show ?case
    unfolding some_h.simps
    by (rule keeps_bind [OF Cons.prems(1) [OF x]])
       (simp add: keeps_return Cons.IH [OF Cons.prems(1) xs])
qed

lemma keeps_filter_h:
  "(\<And>x. fresh n x \<Longrightarrow> keeps n (\<lambda>b. True) (p x)) \<Longrightarrow> list_all (fresh n) xs \<Longrightarrow>
   keeps n (list_all (fresh n)) (filter_h p xs)"
proof (induction xs)
  case Nil
  show ?case by (simp add: keeps_return)
next
  case (Cons x xs)
  from Cons.prems(2) have x: "fresh n x" and xs: "list_all (fresh n) xs" by simp_all
  show ?case
    unfolding filter_h.simps
  proof (rule keeps_bind [OF Cons.prems(1) [OF x]])
    fix b
    show "keeps n (list_all (fresh n))
            (bind_h (filter_h p xs) (\<lambda>rest. return_h (if b then x # rest else rest)))"
    proof (rule keeps_bind [OF Cons.IH [OF Cons.prems(1) xs]])
      fix rest
      assume "list_all (fresh n) rest"
      with x show "keeps n (list_all (fresh n)) (return_h (if b then x # rest else rest))"
        by (intro keeps_return) simp
    qed
  qed
qed


lemma stringify_fields_frame:
  "(\<And>v. in_heap h v \<Longrightarrow> stringify f h' v = stringify f h v) \<Longrightarrow>
   list_all (\<lambda>kv. in_heap h (snd kv)) fs \<Longrightarrow> stringify_fields f h' fs = stringify_fields f h fs"
  by (induction fs) (auto split: option.splits)

lemma stringify_elems_frame:
  "(\<And>v. in_heap h v \<Longrightarrow> stringify f h' v = stringify f h v) \<Longrightarrow>
   list_all (in_heap h) xs \<Longrightarrow> stringify_elems f h' xs = stringify_elems f h xs"
  by (induction xs) (auto split: option.splits)

lemma prefix_nth: "take (length h) h' = h \<Longrightarrow> a < length h \<Longrightarrow> a < length h' \<and> h' ! a = h ! a"
  by (metis length_take min_less_iff_conj nth_take)

lemma stringify_frame:
  assumes c: "closed h" and t: "take (length h) h' = h"
  shows "in_heap h v \<Longrightarrow> stringify f h' v = stringify f h v"
proof (induction f arbitrary: v)
  case 0
  then show ?case by (cases v) auto
next
  case (Suc f)
  show ?case
  proof (cases v)
    case (JRef a)
    with Suc.prems have a: "a < length h" by simp
    from prefix_nth [OF t a] have a': "a < length h'" and eq: "h' ! a = h ! a" by simp_all
    show ?thesis
    proof (cases "h ! a")
      case (Obj fs)
      with c a have "list_all (\<lambda>kv. in_heap h (snd kv)) fs"
        unfolding closed_def by (metis cell.simps(5))
      from stringify_fields_frame [OF Suc.IH this] show ?thesis
        by (simp add: JRef a a' eq Obj)
    next
      case (Arr xs)
      with c a have "list_all (in_heap h) xs"
        unfolding closed_def by (metis cell.simps(6))
      from stringify_elems_frame [OF Suc.IH this] show ?thesis
        by (simp add: JRef a a' eq Arr)
    qed
  qed auto
qed


lemma keeps_bind_ref:
  "keeps n (fresh n) m \<Longrightarrow> (\<And>x. fresh n x \<Longrightarrow> keeps n Q (f x)) \<Longrightarrow> keeps n Q (bind_h m f)"
  by (rule keeps_bind)

lemma keeps_bind_refs:
  "keeps n (list_all (fresh n)) m \<Longrightarrow> (\<And>xs. list_all (fresh n) xs \<Longrightarrow> keeps n Q (f xs)) \<Longrightarrow>
   keeps n Q (bind_h m f)"
  by (rule keeps_bind)

lemma keeps_bind_unit:
  "keeps n (\<lambda>u. True) (m :: unit prog) \<Longrightarrow> (\<And>u. keeps n Q (f u)) \<Longrightarrow> keeps n Q (bind_h m f)"
  by (rule keeps_bind)

lemma keeps_bind_bool:
  "keeps n (\<lambda>b. True) (m :: bool prog) \<Longrightarrow> (\<And>b. keeps n Q (f b)) \<Longrightarrow> keeps n Q (bind_h m f)"
  by (rule keeps_bind)

lemma keeps_return_true: "keeps n (\<lambda>x. True) (return_h x)"
  by (rule keeps_return) simp

lemma keeps_return_fresh: "fresh n x \<Longrightarrow> keeps n (fresh n) (return_h x)"
  by (rule keeps_return)

lemmas keeps_rules =
  keeps_bind_ref keeps_bind_refs keeps_bind_unit keeps_bind_bool keeps_return_true keeps_return_fresh
  keeps_throw keeps_if keeps_new_cell keeps_get_prop keeps_set_prop keeps_push keeps_elems keeps_clone
  keeps_find_h keeps_some_h keeps_filter_h keeps_catch

lemma fresh_js_of [simp]: "fresh n (js_of x)"
  by (cases x) simp_all

lemma keeps_prop_is: "fresh n x \<Longrightarrow> keeps n (\<lambda>b. True) (prop_is k v x)"
  unfolding prop_is_def by (intro keeps_rules) simp_all

lemma keeps_is_parent_link: "fresh n l \<Longrightarrow> keeps n (\<lambda>b. True) (is_parent_link t l)"
  unfolding is_parent_link_def by (intro keeps_rules) simp_all

lemma keeps_assign_nullish: "fresh n target \<Longrightarrow> keeps n (\<lambda>u. True) (assign_nullish target k v)"
  unfolding assign_nullish_def by (cases v) (auto intro!: keeps_rules)

lemma keeps_push_onto: "fresh n obj \<Longrightarrow> fresh n v \<Longrightarrow> keeps n (\<lambda>u. True) (push_onto obj k v)"
  unfolding push_onto_def by (intro keeps_rules) simp_all

lemma keeps_ensureDir_h: "fresh n current \<Longrightarrow> keeps n (\<lambda>u. True) (ensureDir_h parts current)"
proof (induction parts arbitrary: current)
  case Nil
  show ?case by (simp add: keeps_return_true)
next
  case (Cons part parts)
  show ?case
    unfolding ensureDir_h.simps
    by (intro keeps_rules Cons.IH) (simp_all add: Cons.prems)
qed

lemma keeps_ensureDirectoryExists_h: "keeps n (\<lambda>x. True) (ensureDirectoryExists_h vfs path)"
  unfolding ensureDirectoryExists_h_def
  by (intro keeps_rules keeps_ensureDir_h) simp_all


lemma keeps_descend_h: "fresh n current \<Longrightarrow> keeps n (fresh n) (descend_h parts current)"
proof (induction parts arbitrary: current)
  case Nil
  then show ?case by (simp add: keeps_return_fresh)
next
  case (Cons part parts)
  show ?case
    unfolding descend_h.simps
    by (intro keeps_bind_ref keeps_get_prop Cons.IH) (simp_all add: Cons.prems)
qed

lemma keeps_ensureDirectoryExists_h_fresh: "keeps n (fresh n) (ensureDirectoryExists_h vfs path)"
  unfolding ensureDirectoryExists_h_def
  by (intro keeps_rules keeps_ensureDir_h) simp_all

lemma keeps_writeFileToVFS_h: "keeps n (\<lambda>x. True) (writeFileToVFS_h vfs path content)"
  unfolding writeFileToVFS_h_def Let_def
  by (intro keeps_if keeps_throw keeps_bind_ref keeps_bind_unit keeps_return_true
      keeps_ensureDirectoryExists_h_fresh keeps_descend_h keeps_new_cell keeps_set_prop) simp_all

lemma keeps_upsert_h: "keeps n (\<lambda>x. True) (upsert_mind_map_node_h env args mindMap)"
proof (cases args)
  case None
  then show ?thesis by (simp add: upsert_mind_map_node_h_def keeps_throw)
next
  case (Some a)
  show ?thesis
  proof (cases "map_of a ''name''")
    case None
    show ?thesis
      unfolding upsert_mind_map_node_h_def Let_def Some option.case None
      by (intro keeps_rules keeps_prop_is keeps_is_parent_link keeps_assign_nullish keeps_push_onto)
         simp_all
  next
    case nm: (Some nm)
    show ?thesis
      unfolding upsert_mind_map_node_h_def Let_def Some option.case nm
      by (intro keeps_rules keeps_prop_is keeps_is_parent_link keeps_assign_nullish keeps_push_onto)
         simp_all
  qed
qed

lemma keeps_create_link_h: "keeps n (\<lambda>x. True) (create_mind_map_link_h args mindMap)"
proof (cases args)
  case None
  then show ?thesis by (simp add: create_mind_map_link_h_def keeps_throw)
next
  case (Some a)
  show ?thesis
    unfolding create_mind_map_link_h_def Let_def Some option.case
    by (intro keeps_rules keeps_prop_is keeps_push_onto) simp_all
qed

lemma keeps_append_insight_h: "keeps n (\<lambda>x. True) (append_insight_h env inquiry insight mindMap)"
  unfolding append_insight_h_def Let_def
  by (intro keeps_rules keeps_push_onto) simp_all

lemma keeps_update_content_h: "fresh n m \<Longrightarrow> keeps n (\<lambda>u. True) (update_content_h now op m)"
  unfolding update_content_h_def
  by (intro keeps_rules keeps_prop_is) simp_all

lemma keeps_relink_node_h: "fresh n m \<Longrightarrow> keeps n (\<lambda>u. True) (relink_node_h op m)"
  unfolding relink_node_h_def
  by (intro keeps_rules keeps_prop_is keeps_is_parent_link) simp_all

lemma keeps_parent_of: "fresh n src \<Longrightarrow>
  keeps n (fresh n) (case src of JStr s \<Rightarrow> return_h src | _ \<Rightarrow> get_prop src ''id'')"
  by (cases src) (auto intro!: keeps_return_fresh keeps_get_prop)

lemma keeps_merge_nodes_h: "fresh n m \<Longrightarrow> keeps n (\<lambda>u. True) (merge_nodes_h now ms op m)"
proof (cases "nodes_to_merge op")
  case None
  then show ?thesis by (simp add: merge_nodes_h_def keeps_throw)
next
  case (Some ids)
  assume m: "fresh n m"
  show ?thesis
    unfolding merge_nodes_h_def Let_def Some option.case
    by (intro keeps_rules keeps_push_onto keeps_parent_of) (simp_all add: m)
qed

lemma keeps_refine_step_h: "fresh n m \<Longrightarrow> keeps n (\<lambda>u. True) (refine_step_h now ms op m)"
  unfolding refine_step_h_def
  by (intro keeps_catch [where P = "\<lambda>u. True"] keeps_if keeps_update_content_h keeps_merge_nodes_h
      keeps_relink_node_h keeps_return_true)

lemma keeps_refine_loop_h: "fresh n m \<Longrightarrow> keeps n (\<lambda>u. True) (refine_loop_h env k ops m)"
proof (induction ops arbitrary: k)
  case Nil
  show ?case by (simp add: keeps_return_true)
next
  case (Cons op ops)
  show ?case
    unfolding refine_loop_h.simps
    by (intro keeps_bind_unit keeps_refine_step_h Cons.IH Cons.prems)
qed

lemma keeps_apply_operations_h: "keeps n (\<lambda>x. True) (apply_operations_h env ops mindMap)"
  unfolding apply_operations_h_def
  by (intro keeps_bind_ref keeps_bind_unit keeps_clone keeps_refine_loop_h keeps_return_true)


lemma region_ok_start: "region_ok (length h) h"
  by (auto simp: region_ok_def)

lemma isolation:
  assumes k: "keeps (length h) Q m" and c: "closed h" and v: "in_heap h v"
  shows "untouched h v (snd (m h))"
proof -
  obtain r h' where run: "m h = (r, h')" by (cases "m h") auto
  from k region_ok_start [of h] run have "take (length h) h' = take (length h) h"
    by (auto simp: keeps_def)
  then have t: "take (length h) h' = h" by simp
  from stringify_frame [OF c t v] t run show ?thesis by (simp add: untouched_def)
qed

text \<open>
  Claim C5. Each mutating operation (\<open>ensureDirectoryExists\<close>, \<open>writeFileToVFS\<close>, the two
  paths of \<open>upsert_mind_map_node\<close>, \<open>create_mind_map_link\<close>, the refinement loop with its
  merge, relink and update cases, and the insight append of \<open>transcend\<close>) works on a deep
  copy: whatever it returns or throws, every object that existed before the call is
  unchanged, and so the snapshot it was given serializes after the call exactly as
  before it; what differs is in the cells the call has added.
\<close>

theorem copy_on_write_isolation:
  assumes "closed h" and "in_heap h vfs" and "in_heap h mindMap"
  shows "untouched h vfs (snd (ensureDirectoryExists_h vfs path h)) \<and>
         untouched h vfs (snd (writeFileToVFS_h vfs path content h)) \<and>
         untouched h mindMap (snd (upsert_mind_map_node_h env args mindMap h)) \<and>
         untouched h mindMap (snd (create_mind_map_link_h args mindMap h)) \<and>
         untouched h mindMap (snd (apply_operations_h env operations mindMap h)) \<and>
         untouched h mindMap (snd (append_insight_h env inquiry insight mindMap h))"
proof -
  note c = assms(1) and v = assms(2) and g = assms(3)
  have 1: "untouched h vfs (snd (ensureDirectoryExists_h vfs path h))"
    by (rule isolation [OF keeps_ensureDirectoryExists_h c v])
  have 2: "untouched h vfs (snd (writeFileToVFS_h vfs path content h))"
    by (rule isolation [OF keeps_writeFileToVFS_h c v])
  have 3: "untouched h mindMap (snd (upsert_mind_map_node_h env args mindMap h))"
    by (rule isolation [OF keeps_upsert_h c g])
  have 4: "untouched h mindMap (snd (create_mind_map_link_h args mindMap h))"
    by (rule isolation [OF keeps_create_link_h c g])
  have 5: "untouched h mindMap (snd (apply_operations_h env operations mindMap h))"
    by (rule isolation [OF keeps_apply_operations_h c g])
  have 6: "untouched h mindMap (snd (append_insight_h env inquiry insight mindMap h))"
    by (rule isolation [OF keeps_append_insight_h c g])
  show ?thesis by (intro conjI 1 2 3 4 5 6)
qed

theorem copy_on_write_isolation_witness:
  "closed example_heap \<and> in_heap example_heap (JRef 4) \<and> in_heap example_heap (JRef 3) \<and>
   fst (writeFileToVFS_h (JRef 4) ''/a/b.txt'' ''hi'' example_heap) = Inr (JRef 5) \<and>
   stringify 4 (snd (writeFileToVFS_h (JRef 4) ''/a/b.txt'' ''hi'' example_heap)) (JRef 5) =
     Some (JObject (FCons ''a'' (JObject (FCons ''type'' (JString ''folder'')
             (FCons ''children'' (JObject (FCons ''b.txt'' (JObject (FCons ''type'' (JString ''file'')
                (FCons ''content'' (JString ''hi'') FNil))) FNil)) FNil))) FNil)) \<and>
   stringify 4 (snd (writeFileToVFS_h (JRef 4) ''/a/b.txt'' ''hi'' example_heap)) (JRef 4) =
     Some (JObject FNil) \<and>
   stringify 4 (snd (upsert_mind_map_node_h example_env
                       (Some [(''name'', ''X''), (''parent_node_id'', ''root'')]) (JRef 3) example_heap))
     (JRef 3) =
     Some (JObject
       (FCons ''nodes'' (JArray (ECons (JObject (FCons ''id'' (JString ''root'')
                                          (FCons ''name'' (JString ''Root'') FNil))) ENil))
       (FCons ''links'' (JArray ENil) FNil)))"
proof -
  have c: "closed example_heap"
    by (auto simp: closed_def example_heap_def nth_Cons' less_Suc_eq eval_nat_numeral)
  have v: "in_heap example_heap (JRef 4)" and g: "in_heap example_heap (JRef 3)"
    by (simp_all add: example_heap_def)
  have w: "writeFileToVFS_h (JRef 4) ''/a/b.txt'' ''hi'' example_heap =
    (Inr (JRef 5), example_heap @ [Obj [(''a'', JRef 7)], Obj [(''b.txt'', JRef 8)],
       Obj [(''type'', JStr ''folder''), (''children'', JRef 6)],
       Obj [(''type'', JStr ''file''), (''content'', JStr ''hi'')]])"
    by (simp add: writeFileToVFS_h_def ensureDirectoryExists_h_def clone_def bind_h_def return_h_def
        new_cell_def resolvePath_def example_heap_def Let_def eval_nat_numeral)
  have r: "fst (writeFileToVFS_h (JRef 4) ''/a/b.txt'' ''hi'' example_heap) = Inr (JRef 5)"
    by (simp add: w)
  have n: "stringify 4 (snd (writeFileToVFS_h (JRef 4) ''/a/b.txt'' ''hi'' example_heap)) (JRef 5) =
     Some (JObject (FCons ''a'' (JObject (FCons ''type'' (JString ''folder'')
             (FCons ''children'' (JObject (FCons ''b.txt'' (JObject (FCons ''type'' (JString ''file'')
                (FCons ''content'' (JString ''hi'') FNil))) FNil)) FNil))) FNil))"
    unfolding w by (simp add: example_heap_def eval_nat_numeral)
  have sv: "stringify 4 example_heap (JRef 4) = Some (JObject FNil)"
    by (simp add: example_heap_def eval_nat_numeral)
  have sg: "stringify 4 example_heap (JRef 3) = Some (JObject
       (FCons ''nodes'' (JArray (ECons (JObject (FCons ''id'' (JString ''root'')
                                          (FCons ''name'' (JString ''Root'') FNil))) ENil))
       (FCons ''links'' (JArray ENil) FNil)))"
    by (simp add: example_heap_def eval_nat_numeral)
  note T = copy_on_write_isolation [OF c v g, where path = "''/a/b.txt''"
      and content = "''hi''" and env = example_env
      and args = "Some [(''name'', ''X''), (''parent_node_id'', ''root'')]"]
  have a: "stringify 4 (snd (writeFileToVFS_h (JRef 4) ''/a/b.txt'' ''hi'' example_heap)) (JRef 4) =
     Some (JObject FNil)"
    using T [THEN conjunct2, THEN conjunct1] sv by (simp add: untouched_def)
  have b: "stringify 4 (snd (upsert_mind_map_node_h example_env
                       (Some [(''name'', ''X''), (''parent_node_id'', ''root'')]) (JRef 3) example_heap))
     (JRef 3) = Some (JObject
       (FCons ''nodes'' (JArray (ECons (JObject (FCons ''id'' (JString ''root'')
                                          (FCons ''name'' (JString ''Root'') FNil))) ENil))
       (FCons ''links'' (JArray ENil) FNil)))"
    using T [THEN conjunct2, THEN conjunct2, THEN conjunct1] sg by (simp add: untouched_def)
  show ?thesis by (intro conjI c v g r n a b)
qed

end
